(* ===== verification/Prelude.thy ===== *)
theory Prelude
  imports Complex_Main "HOL-Library.Word" "HOL-Library.AList" "HOL-Library.Multiset"
    "HOL-Library.Sublist"
begin

text \<open>
  Shared vocabulary of the development: bytes, Go clocks and durations, Go maps with their
  iteration order, the outcome of a call that may block on a lock, and the interfaces that
  several components rely on (a keyed store, a store with expiry). The named collections
  \<open>go_map\<close>, \<open>wire\<close> and \<open>lockfree\<close> carry the component proofs.
\<close>

section \<open>Named collections\<close>

named_theorems go_map \<open>lookup laws of Go maps\<close>
named_theorems wire \<open>layout and length facts of encoded frames\<close>
named_theorems lockfree \<open>methods called with the lock free\<close>

section \<open>Bytes, strings and clocks\<close>

type_synonym u8 = "8 word"
type_synonym u16 = "16 word"
type_synonym bytes = "u8 list"

text \<open>
  A Go string is a byte sequence, and so is Isabelle's \<open>string\<close>: \<open>[]byte(s)\<close> and
  \<open>string(b)\<close> convert character by character.
\<close>

definition utf8 :: "nat list \<Rightarrow> string" where
  "utf8 bs = map char_of bs"

definition byte_of_char :: "char \<Rightarrow> u8" where
  "byte_of_char c = of_nat (of_char c)"

definition char_of_byte :: "u8 \<Rightarrow> char" where
  "char_of_byte b = char_of (unat b)"

definition bytes_of_string :: "string \<Rightarrow> bytes" where
  "bytes_of_string s = map byte_of_char s"

definition string_of_bytes :: "bytes \<Rightarrow> string" where
  "string_of_bytes bs = map char_of_byte bs"

lemma of_char_less_256: "(of_char c :: nat) < 256"
  by (simp add: of_char_def)

lemma char_byte_inverse [simp]: "char_of_byte (byte_of_char c) = c"
proof -
  have "unat (of_nat (of_char c) :: u8) = of_char c"
    using of_char_less_256 [of c] by (simp add: unat_of_nat)
  then show ?thesis by (simp add: char_of_byte_def byte_of_char_def)
qed

lemma byte_char_inverse [simp]: "byte_of_char (char_of_byte b) = b"
proof -
  have "unat b < 256" using unsigned_less [of b, where ?'a = nat] by simp
  then have "(of_char (char_of (unat b)) :: nat) = unat b" by simp
  then show ?thesis by (simp add: char_of_byte_def byte_of_char_def)
qed

lemma string_bytes_inverse [simp]: "string_of_bytes (bytes_of_string s) = s"
  by (induction s) (simp_all add: string_of_bytes_def bytes_of_string_def)

lemma bytes_string_inverse [simp]: "bytes_of_string (string_of_bytes b) = b"
  by (induction b) (simp_all add: string_of_bytes_def bytes_of_string_def)

lemma length_bytes_of_string [simp]: "length (bytes_of_string s) = length s"
  by (simp add: bytes_of_string_def)

text \<open>
  \<open>time.Time\<close> is a count of nanoseconds since the epoch, \<open>time.Duration\<close> a count of
  nanoseconds; \<open>t.Unix()\<close> drops the fraction of a second, and
  \<open>int64(d.Seconds())\<close> truncates towards zero.
\<close>

type_synonym go_time = int
type_synonym duration = int

definition second :: duration where
  "second = 1000000000"

definition millisecond :: duration where
  "millisecond = 1000000"

definition unix :: "go_time \<Rightarrow> int" where
  "unix t = t div second"

definition seconds_of :: "duration \<Rightarrow> int" where
  "seconds_of d = (if 0 \<le> d then d div second else - ((- d) div second))"

lemma unix_mono: "s \<le> t \<Longrightarrow> unix s \<le> unix t"
  by (simp add: unix_def second_def zdiv_mono1)

section \<open>Decimal and hexadecimal numerals, as fmt prints them\<close>

definition digit_char :: "nat \<Rightarrow> char" where
  "digit_char d = char_of (48 + d)"

fun nat_dec :: "nat \<Rightarrow> string" where
  "nat_dec n = (if n < 10 then [digit_char n] else nat_dec (n div 10) @ [digit_char (n mod 10)])"

declare nat_dec.simps [simp del]

definition itoa :: "int \<Rightarrow> string" where
  "itoa i = (if i < 0 then CHR ''-'' # nat_dec (nat (- i)) else nat_dec (nat i))"

definition hex_digit :: "nat \<Rightarrow> char" where
  "hex_digit d = (if d < 10 then char_of (48 + d) else char_of (55 + d))"

text \<open>The verb \<open>%02X\<close> on a byte.\<close>

definition hex2 :: "u8 \<Rightarrow> string" where
  "hex2 b = [hex_digit (unat b div 16), hex_digit (unat b mod 16)]"

lemma nat_dec_nonempty [simp]: "nat_dec n \<noteq> []"
  by (subst nat_dec.simps) simp

lemma digit_char_inj: "a < 10 \<Longrightarrow> b < 10 \<Longrightarrow> digit_char a = digit_char b \<Longrightarrow> a = b"
  by (simp add: digit_char_def char_of_eq_iff take_bit_eq_mod)

section \<open>Lists\<close>

lemma find_SomeD: "find P xs = Some x \<Longrightarrow> x \<in> set xs \<and> P x"
  by (induction xs) (auto split: if_splits)

end
