(* ===== verification/Stores.thy ===== *)
theory Stores
  imports Prelude
begin

text \<open>
  Go maps and the two contracts the components have with them. A Go map is modelled by an
  association list with distinct keys: \<open>gm_get\<close> reads it, and its list order stands for
  the order in which one \<open>range\<close> loop happens to visit it, so a fact about every list is a
  fact about every iteration order. \<open>keyed_store\<close> is the contract of plain lookup, insert
  and delete; \<open>expiring_store\<close> adds the loop that deletes entries while ranging over the
  map; \<open>gate\<close> is the contract of an admission check with a background clean-up.
\<close>

section \<open>Go maps\<close>

type_synonym ('k, 'v) gomap = "('k \<times> 'v) list"

definition gm_get :: "('k, 'v) gomap \<Rightarrow> 'k \<Rightarrow> 'v option" where
  "gm_get m k = map_of m k"

definition gm_put :: "'k \<Rightarrow> 'v \<Rightarrow> ('k, 'v) gomap \<Rightarrow> ('k, 'v) gomap" where
  "gm_put k v m = AList.update k v m"

definition gm_del :: "'k \<Rightarrow> ('k, 'v) gomap \<Rightarrow> ('k, 'v) gomap" where
  "gm_del k m = AList.delete k m"

text \<open>The loop \<open>for k, v := range m { if P(k, v) { delete(m, k) } }\<close>.\<close>

definition gm_prune :: "('k \<Rightarrow> 'v \<Rightarrow> bool) \<Rightarrow> ('k, 'v) gomap \<Rightarrow> ('k, 'v) gomap" where
  "gm_prune P m = filter (\<lambda>(k, v). \<not> P k v) m"

definition gm_ok :: "('k, 'v) gomap \<Rightarrow> bool" where
  "gm_ok m \<longleftrightarrow> distinct (map fst m)"

definition gm_keys :: "('k, 'v) gomap \<Rightarrow> 'k list" where
  "gm_keys m = map fst m"

lemma gm_get_empty [simp, go_map]: "gm_get [] k = None"
  by (simp add: gm_get_def)

lemma gm_get_put [simp, go_map]: "gm_get (gm_put k v m) k' = (if k' = k then Some v else gm_get m k')"
  by (simp add: gm_get_def gm_put_def update_conv)

lemma gm_get_del [simp, go_map]: "gm_get (gm_del k m) k' = (if k' = k then None else gm_get m k')"
  by (simp add: gm_get_def gm_del_def delete_conv)

lemma gm_ok_empty [simp]: "gm_ok []"
  by (simp add: gm_ok_def)

lemma gm_ok_put [simp]: "gm_ok m \<Longrightarrow> gm_ok (gm_put k v m)"
  by (simp add: gm_ok_def gm_put_def distinct_update)

lemma gm_ok_del [simp]: "gm_ok m \<Longrightarrow> gm_ok (gm_del k m)"
  by (simp add: gm_ok_def gm_del_def distinct_delete)

lemma gm_ok_prune [simp]: "gm_ok m \<Longrightarrow> gm_ok (gm_prune P m)"
  by (induction m) (auto simp: gm_ok_def gm_prune_def)

lemma gm_get_in_set: "gm_get m k = Some v \<Longrightarrow> (k, v) \<in> set m"
  by (simp add: gm_get_def map_of_SomeD)

lemma gm_get_iff: "gm_ok m \<Longrightarrow> gm_get m k = Some v \<longleftrightarrow> (k, v) \<in> set m"
  by (simp add: gm_ok_def gm_get_def)

lemma gm_get_prune [go_map]:
  "gm_ok m \<Longrightarrow> gm_get (gm_prune P m) k =
     (case gm_get m k of None \<Rightarrow> None | Some v \<Rightarrow> if P k v then None else Some v)"
proof (induction m)
  case Nil
  then show ?case by (simp add: gm_prune_def)
next
  case (Cons kv m)
  obtain k1 v1 where kv: "kv = (k1, v1)" by fastforce
  from Cons.prems kv have ok: "gm_ok m" and new: "k1 \<notin> fst ` set m"
    by (auto simp: gm_ok_def)
  from new have "map_of m k1 = None" by (simp add: map_of_eq_None_iff)
  moreover from new have "map_of (filter (\<lambda>(k, v). \<not> P k v) m) k1 = None"
    by (auto simp: map_of_eq_None_iff)
  ultimately show ?case using Cons.IH [OF ok] kv
    by (auto simp: gm_prune_def gm_get_def split: option.splits)
qed

lemma gm_keys_iff: "k \<in> set (gm_keys m) \<longleftrightarrow> gm_get m k \<noteq> None"
  by (force simp: gm_keys_def gm_get_def map_of_eq_None_iff)

text \<open>Two maps with the same entries in another order answer every lookup alike.\<close>

lemma gm_get_perm: "gm_ok m \<Longrightarrow> mset m = mset m' \<Longrightarrow> gm_get m' k = gm_get m k"
proof -
  assume ok: "gm_ok m" and perm: "mset m = mset m'"
  from perm have "mset (map fst m) = mset (map fst m')" by (metis mset_map)
  with ok have ok': "distinct (map fst m')"
    unfolding gm_ok_def by (metis mset_eq_imp_distinct_iff)
  from perm have "set m = set m'" by (metis set_mset_mset)
  then show ?thesis using ok ok' map_of_eqI [of m m']
    by (metis gm_get_def gm_ok_def map_of_inject_set)
qed

section \<open>The keyed store contract\<close>

locale keyed_store =
  fixes empty :: 'm
    and get :: "'m \<Rightarrow> 'k \<Rightarrow> 'v option"
    and put :: "'k \<Rightarrow> 'v \<Rightarrow> 'm \<Rightarrow> 'm"
    and del :: "'k \<Rightarrow> 'm \<Rightarrow> 'm"
    and ok :: "'m \<Rightarrow> bool"
  assumes get_empty: "get empty k = None"
    and get_put: "ok m \<Longrightarrow> get (put k v m) k' = (if k' = k then Some v else get m k')"
    and get_del: "ok m \<Longrightarrow> get (del k m) k' = (if k' = k then None else get m k')"
    and ok_empty: "ok empty"
    and ok_put: "ok m \<Longrightarrow> ok (put k v m)"
    and ok_del: "ok m \<Longrightarrow> ok (del k m)"
begin

lemma put_overwrites: "ok m \<Longrightarrow> get (put k v (put k w m)) = get (put k v m)"
  by (rule ext) (simp add: get_put ok_put)

lemma puts_commute: "ok m \<Longrightarrow> k \<noteq> l \<Longrightarrow> get (put k v (put l w m)) = get (put l w (put k v m))"
  by (rule ext) (simp add: get_put ok_put)

lemma del_after_put: "ok m \<Longrightarrow> get (del k (put k v m)) = get (del k m)"
  by (rule ext) (simp add: get_put get_del ok_put)

lemma ok_put_all: "ok m \<Longrightarrow> ok (fold (\<lambda>x. put (key x) (val x)) xs m)"
  by (induction xs arbitrary: m) (simp_all add: ok_put)

lemma get_put_all:
  "ok m \<Longrightarrow> get (fold (\<lambda>x. put (key x) (val x)) xs m) k =
     (case find (\<lambda>x. key x = k) (rev xs) of Some x \<Rightarrow> Some (val x) | None \<Rightarrow> get m k)"
proof (induction xs rule: rev_induct)
  case Nil
  then show ?case by simp
next
  case (snoc x xs)
  then show ?case by (simp add: get_put ok_put_all)
qed

lemma get_put_all_other:
  "ok m \<Longrightarrow> k \<notin> key ` set xs \<Longrightarrow> get (fold (\<lambda>x. put (key x) (val x)) xs m) k = get m k"
  by (induction xs arbitrary: m) (simp_all add: ok_put get_put)

lemma ok_del_all: "ok m \<Longrightarrow> ok (fold del ks m)"
  by (induction ks arbitrary: m) (simp_all add: ok_del)

lemma get_del_all: "ok m \<Longrightarrow> get (fold del ks m) k = (if k \<in> set ks then None else get m k)"
  by (induction ks arbitrary: m) (simp_all add: ok_del get_del)

end

text \<open>The contract with expiry: the entries that satisfy a predicate are deleted, no other.\<close>

locale expiring_store = keyed_store +
  fixes prune :: "('b \<Rightarrow> 'c \<Rightarrow> bool) \<Rightarrow> 'a \<Rightarrow> 'a"
  assumes get_prune: "ok m \<Longrightarrow> get (prune P m) k =
      (case get m k of None \<Rightarrow> None | Some v \<Rightarrow> if P k v then None else Some v)"
    and ok_prune: "ok m \<Longrightarrow> ok (prune P m)"
begin

lemma prune_keeps: "ok m \<Longrightarrow> get m k = Some v \<Longrightarrow> \<not> P k v \<Longrightarrow> get (prune P m) k = Some v"
  by (simp add: get_prune)

lemma prune_drops: "ok m \<Longrightarrow> get m k = Some v \<Longrightarrow> P k v \<Longrightarrow> get (prune P m) k = None"
  by (simp add: get_prune)

lemma prune_only: "ok m \<Longrightarrow> get (prune P m) k = Some v \<Longrightarrow> get m k = Some v \<and> \<not> P k v"
  by (auto simp: get_prune split: option.splits if_splits)

lemma prune_again: "ok m \<Longrightarrow> get (prune P (prune P m)) = get (prune P m)"
  by (rule ext) (simp add: get_prune ok_prune split: option.splits)

lemma prune_after_put:
  "ok m \<Longrightarrow> \<not> P k v \<Longrightarrow> get (prune P (put k v m)) k = Some v"
  by (simp add: get_prune get_put ok_put)

end

interpretation gm: expiring_store "[]" gm_get gm_put gm_del gm_ok gm_prune
  by unfold_locales (simp_all add: gm_get_prune)

section \<open>The admission gate contract\<close>

text \<open>
  An admission check \<open>allow\<close> answers requests at non-decreasing times, and a clean-up may
  run between any two of them. The provider gives a relation \<open>like t\<close>: two states that no
  check from time \<open>t\<close> on can tell apart. The client learns that clean-ups never change a
  verdict, whatever their schedule.
\<close>

datatype 'k gate_event = Ask go_time 'k | Tidy go_time

fun event_time :: "'k gate_event \<Rightarrow> go_time" where
  "event_time (Ask t k) = t"
| "event_time (Tidy t) = t"

fun is_ask :: "'k gate_event \<Rightarrow> bool" where
  "is_ask (Ask t k) = True"
| "is_ask (Tidy t) = False"

fun gate_run :: "(go_time \<Rightarrow> 'k \<Rightarrow> 's \<Rightarrow> bool \<times> 's) \<Rightarrow> (go_time \<Rightarrow> 's \<Rightarrow> 's) \<Rightarrow> 's \<Rightarrow>
    'k gate_event list \<Rightarrow> bool list \<times> 's" where
  "gate_run allow clean s [] = ([], s)"
| "gate_run allow clean s (Ask t k # es) =
     (let (b, s') = allow t k s; (bs, s'') = gate_run allow clean s' es in (b # bs, s''))"
| "gate_run allow clean s (Tidy t # es) = gate_run allow clean (clean t s) es"

locale gate =
  fixes allow :: "go_time \<Rightarrow> 'k \<Rightarrow> 's \<Rightarrow> bool \<times> 's"
    and clean :: "go_time \<Rightarrow> 's \<Rightarrow> 's"
    and good :: "'s \<Rightarrow> bool"
    and like :: "go_time \<Rightarrow> 's \<Rightarrow> 's \<Rightarrow> bool"
  assumes like_refl: "good s \<Longrightarrow> like t s s"
    and like_later: "like t s s' \<Longrightarrow> t \<le> t' \<Longrightarrow> like t' s s'"
    and like_verdict: "like t s s' \<Longrightarrow> fst (allow t k s) = fst (allow t k s')"
    and like_next: "like t s s' \<Longrightarrow> like t (snd (allow t k s)) (snd (allow t k s'))"
    and like_clean: "like t s s' \<Longrightarrow> like t s (clean t s')"
begin

lemma clean_invisible_from:
  "like t0 s s' \<Longrightarrow> sorted (t0 # map event_time es) \<Longrightarrow>
     fst (gate_run allow clean s' es) = fst (gate_run allow clean s (filter is_ask es))"
proof (induction es arbitrary: t0 s s')
  case Nil
  then show ?case by simp
next
  case (Cons e es)
  show ?case
  proof (cases e)
    case (Ask t k)
    with Cons.prems have like: "like t s s'" and rest: "sorted (t # map event_time es)"
      by (auto intro: like_later)
    from Cons.IH [OF like_next [OF like] rest] Ask like_verdict [OF like, of k]
    show ?thesis by (simp add: split_def Let_def)
  next
    case (Tidy t)
    with Cons.prems have like: "like t s s'" and rest: "sorted (t # map event_time es)"
      by (auto intro: like_later)
    from Cons.IH [OF like_clean [OF like] rest] Tidy show ?thesis by simp
  qed
qed

lemma clean_invisible:
  assumes "good s" and "sorted (map event_time es)"
  shows "fst (gate_run allow clean s es) = fst (gate_run allow clean s (filter is_ask es))"
proof (cases es)
  case Nil
  then show ?thesis by simp
next
  case (Cons e es')
  with assms(2) have "sorted (event_time e # map event_time es)" by simp
  with like_refl [OF assms(1)] show ?thesis by (rule clean_invisible_from)
qed

end

section \<open>The frame codec contract\<close>

text \<open>
  A wire format is an encoder that may refuse a value and a decoder that may refuse a frame;
  the provider promises that every frame it writes for a well-formed value reads back as it.
\<close>

locale frame_codec =
  fixes enc :: "'a \<Rightarrow> 'e + bytes"
    and dec :: "bytes \<Rightarrow> 'f + 'a"
    and wf :: "'a \<Rightarrow> bool"
  assumes enc_accepts: "wf x \<Longrightarrow> \<exists>b. enc x = Inr b"
    and dec_enc: "wf x \<Longrightarrow> enc x = Inr b \<Longrightarrow> dec b = Inr x"
begin

lemma enc_inj: "wf x \<Longrightarrow> wf y \<Longrightarrow> enc x = Inr b \<Longrightarrow> enc y = Inr b \<Longrightarrow> x = y"
  using dec_enc [of x b] dec_enc [of y b] by simp

lemma enc_distinct: "wf x \<Longrightarrow> wf y \<Longrightarrow> x \<noteq> y \<Longrightarrow> enc x \<noteq> enc y"
  using enc_accepts [of x] enc_inj [of x y] by auto

end

end
