(* ===== verification/Urpc.thy ===== *)
theory Urpc
  imports Stores
begin

text \<open>
  The uRPC wire format of \<open>internal/protocol/urpc.go\<close>: request and acknowledgement
  frames closed by a CRC-8. The lemmas show that encoding and decoding are inverse, which
  frames are refused, and what corruption the checksum detects.
\<close>

unbundle bit_operations_syntax

section \<open>Constants and frames\<close>

definition HeaderRequest :: u8 where "HeaderRequest = 0xAA"
definition HeaderAck :: u8 where "HeaderAck = 0xBB"
definition StatusOK :: u8 where "StatusOK = 0x00"
definition StatusBusy :: u8 where "StatusBusy = 0x01"
definition StatusInvalidCmd :: u8 where "StatusInvalidCmd = 0x02"
definition StatusError :: u8 where "StatusError = 0xFF"
definition MaxPayloadSize :: nat where "MaxPayloadSize = 64"

record urpc_request =
  req_seq :: u8
  req_cmd :: u8
  req_payload :: bytes

record urpc_ack =
  ack_seq :: u8
  ack_status :: u8
  ack_queue_depth :: u8

datatype urpc_error =
    PayloadTooLarge nat
  | AckTooShort nat
  | InvalidAckHeader u8
  | CrcMismatch u8 u8

fun urpc_error_text :: "urpc_error \<Rightarrow> string" where
  "urpc_error_text (PayloadTooLarge n) = ''payload too large: '' @ itoa (int n) @ '' > '' @ itoa (int MaxPayloadSize)"
| "urpc_error_text (AckTooShort n) = ''ack frame too short: '' @ itoa (int n)"
| "urpc_error_text (InvalidAckHeader b) = ''invalid ack header: 0x'' @ hex2 b"
| "urpc_error_text (CrcMismatch e g) = ''CRC mismatch: expected 0x'' @ hex2 e @ '', got 0x'' @ hex2 g"

section \<open>The checksum\<close>

text \<open>One turn of the inner loop, the eight turns for one byte, the loop over the data.\<close>

definition crc8_bit :: "u8 \<Rightarrow> u8" where
  "crc8_bit crc = (if crc AND 0x80 \<noteq> 0 then push_bit 1 crc XOR 0x07 else push_bit 1 crc)"

definition crc8_byte :: "u8 \<Rightarrow> u8 \<Rightarrow> u8" where
  "crc8_byte crc b = (crc8_bit ^^ 8) (crc XOR b)"

definition crc8 :: "bytes \<Rightarrow> u8" where
  "crc8 data = foldl crc8_byte 0 data"

section \<open>Operations\<close>

definition EncodeRequest :: "urpc_request \<Rightarrow> urpc_error + bytes" where
  "EncodeRequest req =
     (if length (req_payload req) > MaxPayloadSize
      then Inl (PayloadTooLarge (length (req_payload req)))
      else let frame = [HeaderRequest, req_seq req, req_cmd req, of_nat (length (req_payload req))];
               frame = frame @ req_payload req;
               frame = frame @ [crc8 (tl frame)]
           in Inr frame)"

definition EncodeAck :: "urpc_ack \<Rightarrow> bytes" where
  "EncodeAck ack =
     (let data = [HeaderAck, ack_seq ack, ack_status ack, ack_queue_depth ack]
      in data @ [crc8 (tl data)])"

definition DecodeAck :: "bytes \<Rightarrow> urpc_error + urpc_ack" where
  "DecodeAck frame =
     (if length frame < 5 then Inl (AckTooShort (length frame))
      else if frame ! 0 \<noteq> HeaderAck then Inl (InvalidAckHeader (frame ! 0))
      else let expectedCRC = crc8 (take (length frame - 2) (drop 1 frame)) in
        if frame ! (length frame - 1) \<noteq> expectedCRC
        then Inl (CrcMismatch expectedCRC (frame ! (length frame - 1)))
        else Inr \<lparr>ack_seq = frame ! 1, ack_status = frame ! 2, ack_queue_depth = frame ! 3\<rparr>)"

definition StatusString :: "u8 \<Rightarrow> string" where
  "StatusString status =
     (if status = StatusOK then ''OK''
      else if status = StatusBusy then ''BUSY''
      else if status = StatusInvalidCmd then ''INVALID_CMD''
      else if status = StatusError then ''ERROR''
      else ''UNKNOWN(0x'' @ hex2 status @ '')'')"

section \<open>What the checksum detects\<close>

text \<open>
  A turn of the loop is a permutation of the 256 states: the low bit of the result tells
  whether the polynomial was added, so the turn can be undone.
\<close>

lemma and_0x80: "(c :: u8) AND 0x80 \<noteq> 0 \<longleftrightarrow> bit c 7"
  using and_exp_eq_0_iff_not_bit [of c 7] by simp

lemma bit_0x07: "bit (0x07 :: u8) n \<longleftrightarrow> n < 3"
proof -
  have "(0x07 :: u8) = mask 3" by (simp add: mask_eq_exp_minus_1)
  moreover have "bit (mask 3 :: u8) n \<longleftrightarrow> n < 8 \<and> n < 3" by (simp only: bit_mask_iff) auto
  ultimately show ?thesis by auto
qed

lemma bit_shift: "n < 8 \<Longrightarrow> bit (push_bit 1 (c :: u8)) n \<longleftrightarrow> 0 < n \<and> bit c (n - 1)"
  unfolding bit_push_bit_iff by auto

lemma bit_crc8_bit: "n < 8 \<Longrightarrow>
  bit (crc8_bit c) n \<longleftrightarrow> (0 < n \<and> bit c (n - 1)) \<noteq> (bit c 7 \<and> n < 3)"
proof (cases "bit c 7")
  case True
  assume "n < 8"
  with True show ?thesis
    unfolding crc8_bit_def and_0x80 by (simp only: if_True bit_xor_iff bit_shift bit_0x07) simp
next
  case False
  assume "n < 8"
  with False show ?thesis
    unfolding crc8_bit_def and_0x80 by (simp only: if_False bit_shift) simp
qed

lemma crc8_bit_inj: "crc8_bit c = crc8_bit d \<Longrightarrow> c = d"
proof -
  assume eq: "crc8_bit c = crc8_bit d"
  from eq have top: "bit c 7 = bit d 7"
    using bit_crc8_bit [of 0 c] bit_crc8_bit [of 0 d] by simp
  have low: "bit c n = bit d n" if "n < 7" for n
    using eq top that bit_crc8_bit [of "Suc n" c] bit_crc8_bit [of "Suc n" d] by auto
  show "c = d"
  proof (rule bit_word_eqI)
    fix n
    assume "n < LENGTH(8)"
    then have "n < 7 \<or> n = 7" by auto
    with top low show "bit c n = bit d n" by auto
  qed
qed

lemma crc8_turns_inj: "(crc8_bit ^^ k) c = (crc8_bit ^^ k) d \<Longrightarrow> c = d"
  by (induction k) (auto dest: crc8_bit_inj)

lemma xor_cancel_right: "(c :: u8) XOR b = d XOR b \<Longrightarrow> c = d"
proof -
  assume "c XOR b = d XOR b"
  then have "(c XOR b) XOR b = (d XOR b) XOR b" by simp
  then show ?thesis by (simp only: xor.assoc xor_self_eq xor.right_neutral)
qed

lemma crc8_byte_inj_state: "crc8_byte c b = crc8_byte d b \<Longrightarrow> c = d"
  unfolding crc8_byte_def
  using crc8_turns_inj [of 8 "c XOR b" "d XOR b"] xor_cancel_right [of c b d] by blast

lemma crc8_byte_inj_data: "crc8_byte c a = crc8_byte c b \<Longrightarrow> a = b"
  unfolding crc8_byte_def xor.commute [of c]
  using crc8_turns_inj [of 8 "a XOR c" "b XOR c"] xor_cancel_right [of a c b] by blast

lemma crc8_fold_inj: "foldl crc8_byte c xs = foldl crc8_byte d xs \<Longrightarrow> c = d"
  by (induction xs arbitrary: c d) (auto dest: crc8_byte_inj_state)

lemma crc8_single_byte: "crc8 (xs @ a # ys) = crc8 (xs @ b # ys) \<Longrightarrow> a = b"
  by (auto simp: crc8_def dest: crc8_fold_inj crc8_byte_inj_data)

section \<open>Layout, round trip and refusal\<close>

lemma EncodeAck_layout [wire]:
  "EncodeAck a = [HeaderAck, ack_seq a, ack_status a, ack_queue_depth a,
     crc8 [ack_seq a, ack_status a, ack_queue_depth a]]"
  by (simp add: EncodeAck_def)

lemma EncodeRequest_layout [wire]:
  "length (req_payload r) \<le> MaxPayloadSize \<Longrightarrow>
   EncodeRequest r = Inr ([HeaderRequest, req_seq r, req_cmd r, of_nat (length (req_payload r))]
     @ req_payload r
     @ [crc8 ([req_seq r, req_cmd r, of_nat (length (req_payload r))] @ req_payload r)])"
  by (simp add: EncodeRequest_def)

lemma EncodeRequest_refuses:
  "MaxPayloadSize < length (req_payload r) \<Longrightarrow>
   EncodeRequest r = Inl (PayloadTooLarge (length (req_payload r)))"
  by (simp add: EncodeRequest_def)

lemma payload_len_byte: "n \<le> MaxPayloadSize \<Longrightarrow> unat (of_nat n :: u8) = n"
  by (simp add: MaxPayloadSize_def unat_of_nat)

lemma DecodeAck_five:
  "DecodeAck [h, s, st, q, c] =
     (if h \<noteq> HeaderAck then Inl (InvalidAckHeader h)
      else if c \<noteq> crc8 [s, st, q] then Inl (CrcMismatch (crc8 [s, st, q]) c)
      else Inr \<lparr>ack_seq = s, ack_status = st, ack_queue_depth = q\<rparr>)"
  by (simp add: DecodeAck_def numeral_2_eq_2)

lemma length_five: "length xs = 5 \<Longrightarrow> \<exists>a b c d e. xs = [a, b, c, d, e]"
  by (simp add: numeral_eq_Suc length_Suc_conv) blast

lemma DecodeAck_EncodeAck: "DecodeAck (EncodeAck a) = Inr a"
  by (simp add: EncodeAck_layout DecodeAck_five)

interpretation ack_codec: frame_codec "\<lambda>a. Inr (EncodeAck a) :: urpc_error + bytes" DecodeAck "\<lambda>_. True"
  by unfold_locales (auto simp: DecodeAck_EncodeAck)

text \<open>The five-byte frames that \<open>DecodeAck\<close> accepts are exactly the frames
  that \<open>Encode\<close> writes: an acknowledgement is returned for a frame of five bytes iff the
  frame is the encoding of that acknowledgement.\<close>

theorem ack_frame_exact:
  "length frame = 5 \<and> DecodeAck frame = Inr ack \<longleftrightarrow> frame = EncodeAck ack"
proof
  assume "frame = EncodeAck ack"
  then show "length frame = 5 \<and> DecodeAck frame = Inr ack"
    by (simp add: DecodeAck_EncodeAck) (simp add: EncodeAck_layout)
next
  assume a: "length frame = 5 \<and> DecodeAck frame = Inr ack"
  then obtain h s st q c where "frame = [h, s, st, q, c]" using length_five by blast
  with a show "frame = EncodeAck ack"
    by (auto simp: DecodeAck_five EncodeAck_layout split: if_splits)
qed

text \<open>An acknowledgement frame with any single byte replaced by another value is
  refused, whatever the position of the damage: header, body or checksum.\<close>

theorem ack_single_byte_damage:
  assumes "i < 5" and "b \<noteq> EncodeAck ack ! i"
  shows "\<exists>e. DecodeAck ((EncodeAck ack)[i := b]) = Inl e"
proof -
  have split: "i = 0 \<or> i = 1 \<or> i = 2 \<or> i = 3 \<or> i = 4" using assms(1) by auto
  have crc: "crc8 [s, st, q] = crc8 [b, st, q] \<Longrightarrow> s = b" for s st q
    using crc8_single_byte [of "[]"] by simp
  have crc': "crc8 [s, st, q] = crc8 [s, b, q] \<Longrightarrow> st = b" for s st q
    using crc8_single_byte [of "[s]"] by simp
  have crc'': "crc8 [s, st, q] = crc8 [s, st, b] \<Longrightarrow> q = b" for s st q
    using crc8_single_byte [of "[s, st]"] by simp
  show ?thesis using split assms(2)
    by (elim disjE) (auto simp: EncodeAck_layout DecodeAck_five numeral_eq_Suc dest: crc crc' crc'')
qed

theorem ack_single_byte_damage_witness:
  "\<exists>e. DecodeAck ((EncodeAck \<lparr>ack_seq = 7, ack_status = 0, ack_queue_depth = 2\<rparr>)[2 := 0x01]) = Inl e"
  by (rule ack_single_byte_damage) (simp_all add: EncodeAck_layout)

end
