(* ===== verification/Crypto.thy ===== *)
theory Crypto
  imports Prelude
begin

text \<open>
  What the program uses of Go's \<open>crypto/sha256\<close>, \<open>crypto/hmac\<close> and
  \<open>encoding/base64\<close>: SHA-256 as FIPS 180-4 defines it, HMAC as RFC 2104 does, and the
  standard padded Base64 alphabet. The lemmas give the lengths the callers slice by, and that
  decoding inverts encoding.
\<close>

unbundle bit_operations_syntax

section \<open>Big-endian words\<close>

definition be_word :: "bytes \<Rightarrow> 'a::len word" where
  "be_word bs = foldl (\<lambda>acc b. push_bit 8 acc OR ucast b) 0 bs"

definition be_bytes :: "nat \<Rightarrow> 'a::len word \<Rightarrow> bytes" where
  "be_bytes n w = map (\<lambda>i. ucast (drop_bit (8 * (n - 1 - i)) w)) [0..<n]"

lemma length_be_bytes [simp]: "length (be_bytes n w) = n"
  by (simp add: be_bytes_def)

section \<open>SHA-256\<close>

type_synonym u32 = "32 word"

text \<open>The round constants, two to a number.\<close>

definition sha_k_pairs :: "64 word list" where
  "sha_k_pairs = [
    0x428A2F9871374491, 0xB5C0FBCFE9B5DBA5, 0x3956C25B59F111F1, 0x923F82A4AB1C5ED5,
    0xD807AA9812835B01, 0x243185BE550C7DC3, 0x72BE5D7480DEB1FE, 0x9BDC06A7C19BF174,
    0xE49B69C1EFBE4786, 0x0FC19DC6240CA1CC, 0x2DE92C6F4A7484AA, 0x5CB0A9DC76F988DA,
    0x983E5152A831C66D, 0xB00327C8BF597FC7, 0xC6E00BF3D5A79147, 0x06CA635114292967,
    0x27B70A852E1B2138, 0x4D2C6DFC53380D13, 0x650A7354766A0ABB, 0x81C2C92E92722C85,
    0xA2BFE8A1A81A664B, 0xC24B8B70C76C51A3, 0xD192E819D6990624, 0xF40E3585106AA070,
    0x19A4C1161E376C08, 0x2748774C34B0BCB5, 0x391C0CB34ED8AA4A, 0x5B9CCA4F682E6FF3,
    0x748F82EE78A5636F, 0x84C878148CC70208, 0x90BEFFFAA4506CEB, 0xBEF9A3F7C67178F2]"

definition sha_k :: "u32 list" where
  "sha_k = concat (map (\<lambda>p. [ucast (drop_bit 32 p), ucast p]) sha_k_pairs)"

definition sha_init :: "u32 list" where
  "sha_init = [0x6a09e667, 0xbb67ae85, 0x3c6ef372, 0xa54ff53a, 0x510e527f, 0x9b05688c, 0x1f83d9ab, 0x5be0cd19]"

definition rotr32 :: "nat \<Rightarrow> u32 \<Rightarrow> u32" where
  "rotr32 n x = drop_bit n x OR push_bit (32 - n) x"

definition ssig0 :: "u32 \<Rightarrow> u32" where "ssig0 x = rotr32 7 x XOR rotr32 18 x XOR drop_bit 3 x"
definition ssig1 :: "u32 \<Rightarrow> u32" where "ssig1 x = rotr32 17 x XOR rotr32 19 x XOR drop_bit 10 x"
definition bsig0 :: "u32 \<Rightarrow> u32" where "bsig0 x = rotr32 2 x XOR rotr32 13 x XOR rotr32 22 x"
definition bsig1 :: "u32 \<Rightarrow> u32" where "bsig1 x = rotr32 6 x XOR rotr32 11 x XOR rotr32 25 x"

text \<open>The message schedule, newest word first.\<close>

fun sha_expand :: "nat \<Rightarrow> u32 list \<Rightarrow> u32 list" where
  "sha_expand 0 ws = ws"
| "sha_expand (Suc n) ws =
     sha_expand n ((ssig1 (ws ! 1) + ws ! 6 + ssig0 (ws ! 14) + ws ! 15) # ws)"

fun sha_round :: "u32 list \<Rightarrow> u32 \<times> u32 \<Rightarrow> u32 list" where
  "sha_round [a, b, c, d, e, f, g, h] (k, w) =
     (let t1 = h + bsig1 e + ((e AND f) XOR (NOT e AND g)) + k + w;
          t2 = bsig0 a + ((a AND b) XOR (a AND c) XOR (b AND c)) in
      [t1 + t2, a, b, c, d + t1, e, f, g])"
| "sha_round s kw = s"

fun chunks :: "nat \<Rightarrow> nat \<Rightarrow> 'a list \<Rightarrow> 'a list list" where
  "chunks 0 n xs = []"
| "chunks (Suc k) n xs = take n xs # chunks k n (drop n xs)"

definition sha_block :: "u32 list \<Rightarrow> bytes \<Rightarrow> u32 list" where
  "sha_block h block =
     (let ws = rev (sha_expand 48 (rev (map be_word (chunks 16 4 block))));
          s = foldl sha_round h (zip sha_k ws) in
      map2 (+) h s)"

definition sha_pad :: "bytes \<Rightarrow> bytes" where
  "sha_pad msg = msg @ [0x80] @ replicate ((119 - length msg mod 64) mod 64) 0
     @ be_bytes 8 (of_nat (8 * length msg) :: 64 word)"

definition sha256 :: "bytes \<Rightarrow> bytes" where
  "sha256 msg = (let p = sha_pad msg in
     concat (map (be_bytes 4) (foldl sha_block sha_init (chunks (length p div 64) 64 p))))"

lemma length_sha_round: "length h = 8 \<Longrightarrow> length (sha_round h kw) = 8"
  by (cases "(h, kw)" rule: sha_round.cases) (auto simp: Let_def)

lemma length_sha_rounds: "length h = 8 \<Longrightarrow> length (foldl sha_round h kws) = 8"
  by (induction kws arbitrary: h) (auto simp: length_sha_round)

lemma length_sha_block: "length h = 8 \<Longrightarrow> length (sha_block h b) = 8"
  by (simp add: sha_block_def Let_def length_sha_rounds)

lemma length_sha_blocks: "length h = 8 \<Longrightarrow> length (foldl sha_block h bs) = 8"
  by (induction bs arbitrary: h) (simp_all add: length_sha_block)

lemma length_concat_be: "length (concat (map (be_bytes 4) ws)) = 4 * length ws"
  by (induction ws) simp_all

lemma length_sha256 [simp]: "length (sha256 msg) = 32"
proof -
  have "length sha_init = 8" by (simp add: sha_init_def)
  from length_sha_blocks [OF this] show ?thesis
    by (simp add: sha256_def Let_def length_concat_be)
qed

section \<open>HMAC\<close>

definition hmac_key :: "bytes \<Rightarrow> bytes" where
  "hmac_key key = (let k = (if length key > 64 then sha256 key else key) in k @ replicate (64 - length k) 0)"

definition hmac_sha256 :: "bytes \<Rightarrow> bytes \<Rightarrow> bytes" where
  "hmac_sha256 key msg =
     (let k = hmac_key key in
      sha256 (map (\<lambda>b. b XOR 0x5c) k @ sha256 (map (\<lambda>b. b XOR 0x36) k @ msg)))"

lemma length_hmac [simp]: "length (hmac_sha256 key msg) = 32"
  by (simp add: hmac_sha256_def Let_def)

section \<open>Base64\<close>

definition b64_alphabet :: string where
  "b64_alphabet = ''ABCDEFGHIJKLMNOPQRSTUVWXYZabcdefghijklmnopqrstuvwxyz0123456789+/''"

definition b64_char :: "nat \<Rightarrow> char" where
  "b64_char n = b64_alphabet ! n"

definition b64_value :: "char \<Rightarrow> nat option" where
  "b64_value c = (case filter (\<lambda>i. b64_alphabet ! i = c) [0..<64] of [] \<Rightarrow> None | i # _ \<Rightarrow> Some i)"

fun b64_encode :: "bytes \<Rightarrow> string" where
  "b64_encode [] = []"
| "b64_encode [a] = (let v = unat a * 16 in [b64_char (v div 64), b64_char (v mod 64), CHR ''='', CHR ''=''])"
| "b64_encode [a, b] = (let v = (unat a * 256 + unat b) * 4 in
     [b64_char (v div 4096), b64_char (v div 64 mod 64), b64_char (v mod 64), CHR ''=''])"
| "b64_encode (a # b # c # rest) = (let v = (unat a * 256 + unat b) * 256 + unat c in
     [b64_char (v div 262144), b64_char (v div 4096 mod 64), b64_char (v div 64 mod 64), b64_char (v mod 64)]
     @ b64_encode rest)"

text \<open>
  \<open>DecodeString\<close>: line breaks are skipped, padding only ends the text, and the unused low
  bits of a last short quantum are not checked.
\<close>

fun b64_quanta :: "string \<Rightarrow> bytes option" where
  "b64_quanta [] = Some []"
| "b64_quanta (p # q # r # s # rest) =
     (case (b64_value p, b64_value q) of
        (Some a, Some b) \<Rightarrow>
          (if r = CHR ''='' then
             (if s = CHR ''='' \<and> rest = [] then Some [of_nat ((a * 64 + b) div 16)] else None)
           else (case b64_value r of None \<Rightarrow> None
             | Some c \<Rightarrow>
                 (if s = CHR ''='' then
                    (if rest = [] then let v = ((a * 64 + b) * 64 + c) div 4 in
                       Some [of_nat (v div 256), of_nat (v mod 256)] else None)
                  else (case b64_value s of None \<Rightarrow> None
                    | Some d \<Rightarrow> let v = ((a * 64 + b) * 64 + c) * 64 + d in
                        map_option (\<lambda>bs. of_nat (v div 65536) # of_nat (v div 256 mod 256) # of_nat (v mod 256) # bs)
                          (b64_quanta rest)))))
      | _ \<Rightarrow> None)"
| "b64_quanta _ = None"

definition b64_decode :: "string \<Rightarrow> bytes option" where
  "b64_decode s = b64_quanta (filter (\<lambda>c. c \<noteq> CHR 0x0A \<and> c \<noteq> CHR 0x0D) s)"

lemma b64_value_char: "n < 64 \<Longrightarrow> b64_value (b64_char n) = Some n"
proof -
  have "list_all (\<lambda>n. b64_value (b64_char n) = Some n) [0..<64]" by code_simp
  then show "n < 64 \<Longrightarrow> b64_value (b64_char n) = Some n" by (auto simp: list_all_iff)
qed

definition b64_plain :: "char \<Rightarrow> bool" where
  "b64_plain c \<longleftrightarrow> c \<notin> {CHR ''='', CHR ''.'', CHR 0x0A, CHR 0x0D}"

lemma b64_char_plain: "n < 64 \<Longrightarrow> b64_plain (b64_char n)"
proof -
  have "list_all (\<lambda>n. b64_plain (b64_char n)) [0..<64]" by code_simp
  then show "n < 64 \<Longrightarrow> b64_plain (b64_char n)" by (auto simp: list_all_iff)
qed

lemma byte_lt: "unat (b :: u8) < 256"
  using unsigned_less [of b, where ?'a = nat] by simp

lemma of_unat_byte: "of_nat (unat (b :: u8)) = b"
  by simp

lemma split24:
  "((v div 262144 * 64 + v div 4096 mod 64) * 64 + v div 64 mod 64) * 64 + v mod 64 = (v :: nat)"
proof -
  have "v div 262144 = v div 4096 div 64" and 4096: "v div 4096 = v div 64 div 64"
    using div_mult2_eq [of v 4096 64] div_mult2_eq [of v 64 64] by simp_all
  then have "v div 262144 * 64 + v div 4096 mod 64 = v div 4096" by (simp only: div_mult_mod_eq)
  moreover from 4096 have "v div 4096 * 64 + v div 64 mod 64 = v div 64" by (simp only: div_mult_mod_eq)
  ultimately show ?thesis by (simp only: div_mult_mod_eq)
qed

lemma split18: "(v div 4096 * 64 + v div 64 mod 64) * 64 + v mod 64 = (v :: nat)"
proof -
  have "v div 4096 = v div 64 div 64" using div_mult2_eq [of v 64 64] by simp
  then show ?thesis by (simp only: div_mult_mod_eq)
qed

lemma split24_bound: "v < 16777216 \<Longrightarrow> v div 262144 < (64 :: nat)"
  by (rule less_mult_imp_div_less) simp

lemma split18_bound: "v < 262144 \<Longrightarrow> v div 4096 < (64 :: nat)"
  by (rule less_mult_imp_div_less) simp

lemma split12_bound: "v < 4096 \<Longrightarrow> v div 64 < (64 :: nat)"
  by (rule less_mult_imp_div_less) simp

lemma pair_bytes:
  assumes "x < 256" "y < (256 :: nat)"
  shows "(x * 256 + y) * 4 < 262144" and "(x * 256 + y) * 4 div 4 div 256 = x" and "(x * 256 + y) * 4 div 4 mod 256 = y"
  using assms by simp_all

lemma triple_bytes:
  assumes "x < 256" "y < 256" "z < (256 :: nat)"
  shows "(x * 256 + y) * 256 + z < 16777216"
    and "((x * 256 + y) * 256 + z) div 65536 = x"
    and "((x * 256 + y) * 256 + z) div 256 mod 256 = y"
    and "((x * 256 + y) * 256 + z) mod 256 = z"
proof -
  have d: "((x * 256 + y) * 256 + z) div 256 = x * 256 + y" using assms(3) by simp
  show "(x * 256 + y) * 256 + z < 16777216" using assms by simp
  have "((x * 256 + y) * 256 + z) div 65536 = ((x * 256 + y) * 256 + z) div 256 div 256"
    using div_mult2_eq [of "(x * 256 + y) * 256 + z" 256 256] by simp
  with d assms(2) show "((x * 256 + y) * 256 + z) div 65536 = x" by simp
  from d assms(2) show "((x * 256 + y) * 256 + z) div 256 mod 256 = y" by simp
  show "((x * 256 + y) * 256 + z) mod 256 = z"
    using assms(3) by (simp only: mod_mult_self3 mod_less)
qed

lemma b64_quantum:
  assumes v: "v < 16777216"
  shows "b64_quanta ([b64_char (v div 262144), b64_char (v div 4096 mod 64), b64_char (v div 64 mod 64), b64_char (v mod 64)] @ rest)
    = map_option (\<lambda>bs. of_nat (v div 65536) # of_nat (v div 256 mod 256) # of_nat (v mod 256) # bs) (b64_quanta rest)"
proof -
  have "b64_char (v div 64 mod 64) \<noteq> CHR ''=''" and "b64_char (v mod 64) \<noteq> CHR ''=''"
    using b64_char_plain [of "v div 64 mod 64"] b64_char_plain [of "v mod 64"] by (auto simp: b64_plain_def)
  then show ?thesis
    using split24 [of v] split24_bound [OF v] by (simp add: b64_value_char Let_def)
qed

lemma b64_quanta_encode: "b64_quanta (b64_encode bs) = Some bs"
proof (induction bs rule: b64_encode.induct)
  case 1
  show ?case by simp
next
  case (2 a)
  let ?v = "unat a * 16"
  have "?v < 4096" using byte_lt [of a] by simp
  then have "?v div 64 < 64" by (rule split12_bound)
  moreover have "?v div 64 * 64 + ?v mod 64 = ?v" by (rule div_mult_mod_eq)
  ultimately show ?case by (simp add: b64_value_char Let_def)
next
  case (3 a b)
  let ?v = "(unat a * 256 + unat b) * 4"
  note t = pair_bytes [OF byte_lt byte_lt, of a b]
  have "b64_char (?v mod 64) \<noteq> CHR ''=''"
    using b64_char_plain [of "?v mod 64"] by (auto simp: b64_plain_def)
  moreover have "?v div 4096 < 64" using t(1) by (rule split18_bound)
  ultimately have "b64_quanta [b64_char (?v div 4096), b64_char (?v div 64 mod 64), b64_char (?v mod 64), CHR ''='']
      = Some [of_nat (?v div 4 div 256), of_nat (?v div 4 mod 256)]"
    using split18 [of ?v] by (simp only: b64_quanta.simps b64_value_char Let_def) (simp add: b64_value_char)
  then show ?case by (simp only: b64_encode.simps Let_def t of_unat_byte)
next
  case (4 a b c rest)
  let ?v = "(unat a * 256 + unat b) * 256 + unat c"
  note t = triple_bytes [OF byte_lt byte_lt byte_lt, of a b c]
  have "b64_quanta (b64_encode (a # b # c # rest)) =
      map_option (\<lambda>bs. of_nat (?v div 65536) # of_nat (?v div 256 mod 256) # of_nat (?v mod 256) # bs) (b64_quanta (b64_encode rest))"
    unfolding b64_encode.simps Let_def by (rule b64_quantum [OF t(1)])
  with 4 show ?case by (simp only: t of_unat_byte option.map)
qed

lemma b64_encode_chars: "c \<in> set (b64_encode bs) \<Longrightarrow> c = CHR ''='' \<or> b64_plain c"
proof (induction bs rule: b64_encode.induct)
  case (2 a)
  have "unat a * 16 div 64 < 64" by (rule split12_bound) (use byte_lt [of a] in simp)
  with 2 show ?case by (auto simp: Let_def b64_char_plain)
next
  case (3 a b)
  have "(unat a * 256 + unat b) * 4 div 4096 < 64"
    using pair_bytes(1) [OF byte_lt byte_lt, of a b] by (rule split18_bound)
  with 3 show ?case by (auto simp: Let_def b64_char_plain simp del: div_mult_self1 div_mult_self2)
next
  case (4 a b c rest)
  have "((unat a * 256 + unat b) * 256 + unat c) div 262144 < 64"
    using triple_bytes(1) [OF byte_lt byte_lt byte_lt, of a b c] by (rule split24_bound)
  with 4 show ?case by (auto simp: Let_def b64_char_plain)
qed simp

lemma b64_decode_encode: "b64_decode (b64_encode bs) = Some bs"
proof -
  have "filter (\<lambda>c. c \<noteq> CHR 0x0A \<and> c \<noteq> CHR 0x0D) (b64_encode bs) = b64_encode bs"
    unfolding filter_id_conv
  proof
    fix c
    assume "c \<in> set (b64_encode bs)"
    then have "c = CHR ''='' \<or> b64_plain c" by (rule b64_encode_chars)
    then show "c \<noteq> CHR 0x0A \<and> c \<noteq> CHR 0x0D" by (auto simp: b64_plain_def)
  qed
  then show ?thesis by (simp add: b64_decode_def b64_quanta_encode)
qed

lemma b64_no_dot: "CHR ''.'' \<notin> set (b64_encode bs)"
  using b64_encode_chars [of "CHR ''.''" bs] by (auto simp: b64_plain_def)

lemma b64_encode_inj: "b64_encode xs = b64_encode ys \<Longrightarrow> xs = ys"
  by (metis b64_decode_encode option.inject)

end
