(* ===== verification/Capability.thy ===== *)
theory Capability
  imports Stores
begin

text \<open>
  The device model of \<open>internal/model/capability.go\<close>, \<open>device.go\<close> (type
  \<open>Device\<close>) and \<open>job.go\<close>, the parameter values that JSON decoding hands to the
  code, and the removal of secrets before a configuration leaves the process.
\<close>

section \<open>Values of type any\<close>

text \<open>
  What \<open>encoding/json\<close> (and the tests) put into a \<open>map[string]any\<close>. A
  \<open>float64\<close> is its rational value; the integers above \<open>GInt\<close> come from Go code.
  A Go map carries the order of one iteration over it. \<open>GNilMap\<close> is an interface that holds a
  nil map, which is not the nil interface \<open>GNil\<close>; a struct is the list of the fields that its JSON
  tags let through, in the order of their declaration.
\<close>

datatype goval =
    GNil
  | GBool bool
  | GInt int
  | GFloat rat
  | GStr string
  | GList "goval list"
  | GMap "(string \<times> goval) list"
  | GNilMap
  | GStruct "(string \<times> goval) list"

type_synonym params = "(string, goval) gomap"

section \<open>Data\<close>

record property_schema =
  ps_type :: string
  ps_enum :: "int list"
  ps_unit :: string
  ps_min :: "rat option"
  ps_max :: "rat option"

record input_schema =
  is_type :: string
  is_properties :: "(string, property_schema) gomap"
  is_required :: "string list"

record cmd_map =
  cm_cmd :: int
  cm_fmt :: string

record implementation =
  im_native :: string
  im_proxy :: string
  im_channel :: string
  im_baudrate :: int
  im_protocol :: string
  im_hmac_secret :: string
  im_cmd_map :: "(string, cmd_map) gomap"
  im_timeout_ms :: int
  im_retry :: int
  im_allowed_commands :: "string list"

record capability =
  cap_name :: string
  cap_description :: string
  cap_intent_id :: u16
  cap_input_schema :: input_schema
  cap_implementation :: implementation

record device =
  dev_id :: string
  dev_name :: string
  dev_type :: string
  dev_capabilities :: "capability list"

record device_config =
  dc_device :: device
  dc_capabilities :: "capability list"

record job =
  job_id :: string
  job_request_id :: string
  job_device_id :: string
  job_status :: string
  job_progress :: int
  job_result :: goval
  job_error :: string
  job_created_at :: go_time

text \<open>The zero values of the records, for configurations that leave fields out.\<close>

definition zero_implementation :: implementation where
  "zero_implementation = \<lparr>im_native = [], im_proxy = [], im_channel = [], im_baudrate = 0,
     im_protocol = [], im_hmac_secret = [], im_cmd_map = [], im_timeout_ms = 0, im_retry = 0,
     im_allowed_commands = []\<rparr>"

definition zero_schema :: input_schema where
  "zero_schema = \<lparr>is_type = [], is_properties = [], is_required = []\<rparr>"

definition plain_capability :: "string \<Rightarrow> implementation \<Rightarrow> capability" where
  "plain_capability name impl = \<lparr>cap_name = name, cap_description = [], cap_intent_id = 0,
     cap_input_schema = zero_schema, cap_implementation = impl\<rparr>"

section \<open>Operations\<close>

fun IsRequired :: "string \<Rightarrow> string list \<Rightarrow> bool" where
  "IsRequired name [] = False"
| "IsRequired name (r # rs) = (if r = name then True else IsRequired name rs)"

definition strip_secret :: "capability \<Rightarrow> capability" where
  "strip_secret c = c\<lparr>cap_implementation := (cap_implementation c)\<lparr>im_hmac_secret := []\<rparr>\<rparr>"

definition Sanitized :: "device_config \<Rightarrow> device_config" where
  "Sanitized c = c\<lparr>
     dc_device := (dc_device c)\<lparr>dev_capabilities := map strip_secret (dev_capabilities (dc_device c))\<rparr>,
     dc_capabilities := map strip_secret (dc_capabilities c)\<rparr>"

section \<open>Properties\<close>

lemma IsRequired_iff [simp]: "IsRequired name rs \<longleftrightarrow> name \<in> set rs"
  by (induction rs) auto

text \<open>Replacing the secrets of a configuration, by any rule, and nothing else.\<close>

definition reseal :: "(capability \<Rightarrow> string) \<Rightarrow> device_config \<Rightarrow> device_config" where
  "reseal f c =
     (let seal = (\<lambda>k. k\<lparr>cap_implementation := (cap_implementation k)\<lparr>im_hmac_secret := f k\<rparr>\<rparr>) in
      c\<lparr>dc_device := (dc_device c)\<lparr>dev_capabilities := map seal (dev_capabilities (dc_device c))\<rparr>,
        dc_capabilities := map seal (dc_capabilities c)\<rparr>)"

definition secrets_of :: "device_config \<Rightarrow> string set" where
  "secrets_of c = im_hmac_secret ` cap_implementation ` (set (dev_capabilities (dc_device c)) \<union> set (dc_capabilities c))"

lemma strip_secret_seal:
  "strip_secret (k\<lparr>cap_implementation := (cap_implementation k)\<lparr>im_hmac_secret := x\<rparr>\<rparr>) = strip_secret k"
  by (simp add: strip_secret_def)

lemma Sanitized_secrets: "secrets_of (Sanitized c) \<subseteq> {[]}"
  by (auto simp: secrets_of_def Sanitized_def strip_secret_def)

lemma Sanitized_reseal: "Sanitized (reseal f c) = Sanitized c"
  by (simp add: Sanitized_def reseal_def Let_def o_def strip_secret_seal)

lemma strip_secret_name [simp]: "cap_name (strip_secret k) = cap_name k"
  by (simp add: strip_secret_def)

text \<open>A sanitized configuration holds no HMAC secret and depends on none: configurations that
  differ only in their secrets sanitize to the same value, and the original is that value with
  its secrets put back.\<close>

theorem Sanitized_hides_exactly_secrets:
  "secrets_of (Sanitized c) \<subseteq> {[]} \<and> (\<forall>f. Sanitized (reseal f c) = Sanitized c)
   \<and> dev_id (dc_device (Sanitized c)) = dev_id (dc_device c)
   \<and> map (\<lambda>k. k\<lparr>cap_implementation := (cap_implementation k)\<lparr>im_hmac_secret := []\<rparr>\<rparr>) (dc_capabilities c)
       = dc_capabilities (Sanitized c)
   \<and> Sanitized (Sanitized c) = Sanitized c"
proof (intro conjI allI)
  show "Sanitized (Sanitized c) = Sanitized c"
    by (simp add: Sanitized_def strip_secret_def o_def)
qed (simp_all add: Sanitized_secrets Sanitized_reseal, simp_all add: Sanitized_def strip_secret_def)

end
