(* ===== verification/Dcp.thy ===== *)
theory Dcp
  imports Crypto Capability
begin

text \<open>
  The DCP wire format of \<open>internal/protocol/dcp.go\<close>: a six-byte header, a CBOR payload and
  an optional HMAC trailer. The CBOR library is third-party: its \<open>Marshal\<close> and
  \<open>Unmarshal\<close> are the arguments \<open>enc\<close> and \<open>dec\<close>, and a property that needs it
  assumes only that a marshalled map reads back.
\<close>

section \<open>Constants and frames\<close>

definition DCPVersion :: u8 where "DCPVersion = 1"
definition DCPCall :: u8 where "DCPCall = 0x01"
definition DCPReply :: u8 where "DCPReply = 0x02"
definition DCPEvent :: u8 where "DCPEvent = 0x03"
definition DCPError :: u8 where "DCPError = 0x04"
definition DCPDryRun :: u8 where "DCPDryRun = 0x81"
definition DCPReplyOK :: string where "DCPReplyOK = ''ok''"
definition DCPReplyDenied :: string where "DCPReplyDenied = ''denied''"
definition DCPReplyRange :: string where "DCPReplyRange = ''range''"
definition DCPReplyBusy :: string where "DCPReplyBusy = ''busy''"
definition DCPReplyUnknown :: string where "DCPReplyUnknown = ''unknown_intent''"
definition DCPReplyCapRequired :: string where "DCPReplyCapRequired = ''capability_required''"
definition DCPHeaderSize :: nat where "DCPHeaderSize = 6"
definition DCPHMACSize :: nat where "DCPHMACSize = 16"
definition DCPMaxPayload :: nat where "DCPMaxPayload = 64"

lemmas dcp_sizes = DCPHeaderSize_def DCPHMACSize_def DCPMaxPayload_def

record dcp_frame =
  df_ver :: u8
  df_kind :: u8
  df_seq :: u8
  df_intent :: u16
  df_payload :: "params option"
  df_hmac :: bytes

datatype dcp_error =
    CborMarshal string
  | DcpPayloadTooLarge nat
  | DcpTooShort nat
  | UnsupportedVersion u8
  | PayloadTruncated nat nat
  | CborUnmarshal string

fun dcp_error_text :: "dcp_error \<Rightarrow> string" where
  "dcp_error_text (CborMarshal e) = ''cbor marshal: '' @ e"
| "dcp_error_text (DcpPayloadTooLarge n) = ''payload too large: '' @ itoa (int n) @ '' > '' @ itoa (int DCPMaxPayload)"
| "dcp_error_text (DcpTooShort n) = ''frame too short: '' @ itoa (int n) @ '' < '' @ itoa (int DCPHeaderSize)"
| "dcp_error_text (UnsupportedVersion v) = ''unsupported DCP version: '' @ itoa (int (unat v))"
| "dcp_error_text (PayloadTruncated need have) = ''payload truncated: need '' @ itoa (int need) @ '', have '' @ itoa (int have)"
| "dcp_error_text (CborUnmarshal e) = ''cbor unmarshal: '' @ e"

section \<open>Operations\<close>

definition IntentID :: "string \<Rightarrow> u16" where
  "IntentID name = be_word (take 2 (sha256 (bytes_of_string name)))"

text \<open>The header: version, kind, sequence number, intent, and the length as one byte.\<close>

definition dcp_header :: "u8 \<Rightarrow> u8 \<Rightarrow> u16 \<Rightarrow> nat \<Rightarrow> bytes" where
  "dcp_header kind seq intentID len = [DCPVersion, kind, seq] @ be_bytes 2 intentID @ [of_nat len]"

definition EncodeDCPCall :: "(params \<Rightarrow> string + bytes) \<Rightarrow> u8 \<Rightarrow> u16 \<Rightarrow> params \<Rightarrow> dcp_error + bytes" where
  "EncodeDCPCall enc seq intentID params =
     (case enc params of
        Inl e \<Rightarrow> Inl (CborMarshal e)
      | Inr payload \<Rightarrow>
          if length payload > DCPMaxPayload then Inl (DcpPayloadTooLarge (length payload))
          else Inr (dcp_header DCPCall seq intentID (length payload) @ payload))"

definition EncodeDCPDryRun :: "(params \<Rightarrow> string + bytes) \<Rightarrow> u8 \<Rightarrow> u16 \<Rightarrow> params \<Rightarrow> dcp_error + bytes" where
  "EncodeDCPDryRun enc seq intentID params =
     (case EncodeDCPCall enc seq intentID params of
        Inl e \<Rightarrow> Inl e
      | Inr data \<Rightarrow> Inr (data[1 := DCPDryRun]))"

definition EncodeDCPReply :: "(params \<Rightarrow> string + bytes) \<Rightarrow> u8 \<Rightarrow> u16 \<Rightarrow> string \<Rightarrow> params \<Rightarrow> dcp_error + bytes" where
  "EncodeDCPReply enc seq intentID status res =
     (case enc [(''status'', GStr status), (''result'', GMap res)] of
        Inl e \<Rightarrow> Inl (CborMarshal e)
      | Inr payload \<Rightarrow> Inr (dcp_header DCPReply seq intentID (length payload) @ payload))"

definition DecodeDCPFrame :: "(bytes \<Rightarrow> string + params option) \<Rightarrow> bytes \<Rightarrow> dcp_error + dcp_frame" where
  "DecodeDCPFrame dec data =
     (if length data < DCPHeaderSize then Inl (DcpTooShort (length data))
      else let ver = data ! 0 in
        if ver \<noteq> DCPVersion then Inl (UnsupportedVersion ver)
        else let payloadLen = unat (data ! 5) in
          if length data < DCPHeaderSize + payloadLen
          then Inl (PayloadTruncated payloadLen (length data - DCPHeaderSize))
          else case (if payloadLen > 0 then dec (take payloadLen (drop DCPHeaderSize data)) else Inr None) of
            Inl e \<Rightarrow> Inl (CborUnmarshal e)
          | Inr params \<Rightarrow> Inr \<lparr>df_ver = ver, df_kind = data ! 1, df_seq = data ! 2,
              df_intent = be_word (take 2 (drop 3 data)), df_payload = params,
              df_hmac = (if length data > DCPHeaderSize + payloadLen then drop (DCPHeaderSize + payloadLen) data else [])\<rparr>)"

definition VerifyDCPHMAC :: "bytes \<Rightarrow> bytes \<Rightarrow> bool" where
  "VerifyDCPHMAC frameData secret =
     (if length frameData < DCPHeaderSize then False
      else let frameEnd = DCPHeaderSize + unat (frameData ! 5) in
        if length frameData \<le> frameEnd then False
        else drop frameEnd frameData = take DCPHMACSize (hmac_sha256 secret (take frameEnd frameData)))"

definition AppendDCPHMAC :: "bytes \<Rightarrow> bytes \<Rightarrow> bytes" where
  "AppendDCPHMAC frame secret = frame @ take DCPHMACSize (hmac_sha256 secret frame)"

section \<open>The header reads back\<close>

lemma length_dcp_header [simp]: "length (dcp_header k s i n) = 6"
  by (simp add: dcp_header_def)

lemma be_bytes_2: "be_bytes 2 (w :: u16) = [ucast (drop_bit 8 w), ucast w]"
  by (simp add: be_bytes_def upt_rec)

lemma header_list: "dcp_header k s i n = [DCPVersion, k, s, ucast (drop_bit 8 i), ucast i, of_nat n]"
  by (simp add: dcp_header_def be_bytes_2)

lemma be_word_2: "be_word [ucast (drop_bit 8 w), ucast w] = (w :: u16)"
  by (rule bit_word_eqI) (auto simp: be_word_def bit_simps)

text \<open>A frame with an honest length byte, and possibly a trailer.\<close>

lemma decode_framed:
  assumes "length payload < 256"
  shows "DecodeDCPFrame dec (dcp_header k s i (length payload) @ payload @ trailer) =
    (case (if payload = [] then Inr None else dec payload) of
       Inl e \<Rightarrow> Inl (CborUnmarshal e)
     | Inr p \<Rightarrow> Inr \<lparr>df_ver = DCPVersion, df_kind = k, df_seq = s, df_intent = i, df_payload = p, df_hmac = trailer\<rparr>)"
proof -
  have n: "unat (of_nat (length payload) :: u8) = length payload" using assms by (simp add: unat_of_nat)
  have d: "drop (6 + length payload) (a # b # c # d # e # f # payload @ trailer) = trailer" for a b c d e f
    by (simp add: numeral_eq_Suc)
  show ?thesis
    by (auto simp: DecodeDCPFrame_def header_list n d DCPHeaderSize_def Let_def be_word_2 numeral_3_eq_3
        split: sum.split)
qed

lemma sealed_frame:
  assumes "length f = DCPHeaderSize + unat (f ! 5)"
  shows "VerifyDCPHMAC (f @ tag) secret \<longleftrightarrow> tag = take DCPHMACSize (hmac_sha256 secret f)"
proof -
  have "6 \<le> length f" using assms by (simp add: DCPHeaderSize_def)
  then have "(f @ tag) ! 5 = f ! 5" by (simp add: nth_append)
  moreover have "tag = [] \<Longrightarrow> tag \<noteq> take DCPHMACSize (hmac_sha256 secret f)"
    by (metis DCPHMACSize_def length_hmac length_take list.size(3) min_def zero_neq_numeral)
  ultimately show ?thesis using assms by (auto simp: VerifyDCPHMAC_def Let_def)
qed

text \<open>C27: the verifier accepts exactly the frames the signer makes: a byte string passes
  \<open>VerifyDCPHMAC\<close> iff it is \<open>AppendDCPHMAC\<close> of a frame whose length byte is honest.\<close>

theorem hmac_frames_exact:
  "VerifyDCPHMAC data secret \<longleftrightarrow>
    (\<exists>f. length f = DCPHeaderSize + unat (f ! 5) \<and> data = AppendDCPHMAC f secret)"
proof
  assume v: "VerifyDCPHMAC data secret"
  define n where "n = DCPHeaderSize + unat (data ! 5)"
  from v have long: "n < length data" and tag: "drop n data = take DCPHMACSize (hmac_sha256 secret (take n data))"
    by (auto simp: VerifyDCPHMAC_def n_def Let_def split: if_splits)
  have "take n data ! 5 = data ! 5" by (simp add: n_def DCPHeaderSize_def)
  with long have "length (take n data) = DCPHeaderSize + unat (take n data ! 5)" by (simp add: n_def)
  moreover have "data = AppendDCPHMAC (take n data) secret"
    using tag by (metis AppendDCPHMAC_def append_take_drop_id)
  ultimately show "\<exists>f. length f = DCPHeaderSize + unat (f ! 5) \<and> data = AppendDCPHMAC f secret" by blast
next
  assume "\<exists>f. length f = DCPHeaderSize + unat (f ! 5) \<and> data = AppendDCPHMAC f secret"
  then show "VerifyDCPHMAC data secret" by (auto simp: AppendDCPHMAC_def sealed_frame)
qed

text \<open>C26: a DCP call survives the wire, signed or not: whenever \<open>EncodeDCPCall\<close> gives a
  frame, that frame and its signed form decode to the same version, kind, sequence number, intent
  and parameters, and the signed form passes verification. Of the CBOR library only this is
  assumed: what it marshals is not empty and unmarshals to the same map.\<close>

theorem dcp_call_round_trip:
  assumes "EncodeDCPCall enc seq intent ps = Inr f"
    and "\<And>b. enc ps = Inr b \<Longrightarrow> b \<noteq> [] \<and> dec b = Inr (Some ps)"
  shows "DecodeDCPFrame dec f = Inr \<lparr>df_ver = DCPVersion, df_kind = DCPCall, df_seq = seq,
      df_intent = intent, df_payload = Some ps, df_hmac = []\<rparr>
    \<and> (\<exists>tag. length tag = DCPHMACSize \<and> DecodeDCPFrame dec (AppendDCPHMAC f secret)
      = Inr \<lparr>df_ver = DCPVersion, df_kind = DCPCall, df_seq = seq, df_intent = intent,
          df_payload = Some ps, df_hmac = tag\<rparr>)
    \<and> VerifyDCPHMAC (AppendDCPHMAC f secret) secret"
proof (intro conjI)
  from assms(1) obtain b where b: "enc ps = Inr b" and len: "length b \<le> 64"
    and f: "f = dcp_header DCPCall seq intent (length b) @ b"
    by (auto simp: EncodeDCPCall_def DCPMaxPayload_def split: sum.splits if_splits)
  have ok: "b \<noteq> []" "dec b = Inr (Some ps)" using assms(2) [OF b] by simp_all
  have short: "length b < 256" using len by simp
  from decode_framed [OF short, of dec DCPCall seq intent "[]"] ok f
  show "DecodeDCPFrame dec f = Inr \<lparr>df_ver = DCPVersion, df_kind = DCPCall, df_seq = seq,
      df_intent = intent, df_payload = Some ps, df_hmac = []\<rparr>" by simp
  from decode_framed [OF short, of dec DCPCall seq intent] ok f
  show "\<exists>tag. length tag = DCPHMACSize \<and> DecodeDCPFrame dec (AppendDCPHMAC f secret)
      = Inr \<lparr>df_ver = DCPVersion, df_kind = DCPCall, df_seq = seq, df_intent = intent,
          df_payload = Some ps, df_hmac = tag\<rparr>"
    by (intro exI [of _ "take DCPHMACSize (hmac_sha256 secret f)"])
      (simp add: AppendDCPHMAC_def DCPHMACSize_def)
  have "unat (of_nat (length b) :: u8) = length b" using short by (simp add: unat_of_nat)
  then have "length f = DCPHeaderSize + unat (f ! 5)" by (simp add: f header_list DCPHeaderSize_def)
  then show "VerifyDCPHMAC (AppendDCPHMAC f secret) secret" by (simp add: AppendDCPHMAC_def sealed_frame)
qed

text \<open>A stand-in codec for witnesses: the empty map is the CBOR byte A0.\<close>

definition empty_map_enc :: "params \<Rightarrow> string + bytes" where
  "empty_map_enc ps = (if ps = [] then Inr [0xA0] else Inl ''unsupported'')"

definition empty_map_dec :: "bytes \<Rightarrow> string + params option" where
  "empty_map_dec bs = (if bs = [0xA0] then Inr (Some []) else Inl ''unsupported'')"

theorem dcp_call_round_trip_witness:
  "VerifyDCPHMAC (AppendDCPHMAC ([1, 1, 7, 0x12, 0x34, 1, 0xA0]) [1, 2, 3]) [1, 2, 3]"
proof (rule dcp_call_round_trip [THEN conjunct2, THEN conjunct2])
  show "EncodeDCPCall empty_map_enc 7 0x1234 [] = Inr [1, 1, 7, 0x12, 0x34, 1, 0xA0]"
    by (simp add: EncodeDCPCall_def empty_map_enc_def header_list DCPMaxPayload_def DCPVersion_def DCPCall_def)
  show "b \<noteq> [] \<and> empty_map_dec b = Inr (Some [])" if "empty_map_enc [] = Inr b" for b
    using that by (auto simp: empty_map_enc_def empty_map_dec_def)
qed

text \<open>\<open>EncodeDCPReply\<close> has no size check, and the length byte wraps: a reply whose
  payload has 256 bytes or more is encoded without error, but decodes as a frame with only the
  first \<open>length mod 256\<close> payload bytes, the rest being taken for an HMAC trailer.\<close>

theorem oversized_reply_truncated:
  assumes "enc [(''status'', GStr status), (''result'', GMap res)] = Inr b" and "256 \<le> length b"
    and "EncodeDCPReply enc seq intent status res = Inr f" and "DecodeDCPFrame dec f = Inr fr"
  shows "df_hmac fr = drop (length b mod 256) b \<and> df_hmac fr \<noteq> []
    \<and> (if length b mod 256 = 0 then df_payload fr = None
       else dec (take (length b mod 256) b) = Inr (df_payload fr))"
proof -
  define n where "n = length b mod 256"
  have "(of_nat (length b) :: u8) = of_nat n"
    by (rule word_unat_eq_iff [THEN iffD2]) (simp add: unat_of_nat n_def)
  with assms(1,3) have "f = dcp_header DCPReply seq intent n @ take n b @ drop n b"
    by (simp add: EncodeDCPReply_def header_list)
  moreover have n: "n < 256" "length (take n b) = n" "n < length b"
    using assms(2) by (simp_all add: n_def)
  ultimately have "DecodeDCPFrame dec f = (case (if take n b = [] then Inr None else dec (take n b)) of
       Inl e \<Rightarrow> Inl (CborUnmarshal e)
     | Inr p \<Rightarrow> Inr \<lparr>df_ver = DCPVersion, df_kind = DCPReply, df_seq = seq, df_intent = intent,
         df_payload = p, df_hmac = drop n b\<rparr>)"
    using decode_framed [of "take n b" dec DCPReply seq intent "drop n b"] by simp
  with assms(4) n show ?thesis by (auto simp flip: n_def split: sum.splits if_splits)
qed

theorem oversized_reply_truncated_witness:
  "df_hmac (case DecodeDCPFrame (\<lambda>_. Inr None) (dcp_header DCPReply 1 2 256 @ replicate 256 0) of
      Inr fr \<Rightarrow> fr | Inl _ \<Rightarrow> undefined) = replicate 256 0"
proof -
  let ?enc = "\<lambda>_ :: params. Inr (replicate 256 0) :: string + bytes"
    and ?f = "dcp_header DCPReply 1 2 256 @ replicate 256 0"
  have wrap: "(256 :: u8) = 0" by (simp flip: word_unat_eq_iff)
  have "DecodeDCPFrame (\<lambda>_. Inr None) ?f = Inr \<lparr>df_ver = DCPVersion, df_kind = DCPReply, df_seq = 1,
      df_intent = 2, df_payload = None, df_hmac = replicate 256 0\<rparr>"
    using decode_framed [of "[]" "\<lambda>_. Inr None" DCPReply 1 2 "replicate 256 0"]
    by (simp add: header_list wrap)
  moreover have "EncodeDCPReply ?enc 1 2 ''ok'' [] = Inr ?f" by (simp add: EncodeDCPReply_def)
  ultimately show ?thesis
    using oversized_reply_truncated [of ?enc "''ok''" "[]" "replicate 256 0" 1 2 ?f "\<lambda>_. Inr None"] by simp
qed

end
