(* ===== verification/Serial.thy ===== *)
theory Serial
  imports Urpc Dcp
begin

text \<open>
  The serial line under both bridges: \<open>internal/daemon/serial_port.go\<close> and the read loops
  over it. The driver \<open>go.bug.st/serial\<close> is third-party; a port is given by what its calls
  will answer: the \<open>i\<close>-th \<open>Read\<close> answers \<open>px_script i\<close>, cut to the size asked for
  (the \<open>io.Reader\<close> contract), and the \<open>i\<close>-th \<open>Write\<close> fails with
  \<open>px_write_err i\<close> if that is set. Since the functions are arbitrary, so is the device.
  A read of no bytes without an error is what the driver answers when its read timeout passes.
\<close>

section \<open>The port\<close>

datatype read_event = RData bytes | RErr string

record port =
  px_script :: "nat \<Rightarrow> read_event"
  px_pos :: nat
  px_write_err :: "nat \<Rightarrow> string option"
  px_sent :: "bytes list"

definition port_read :: "nat \<Rightarrow> port \<Rightarrow> (string + bytes) \<times> port" where
  "port_read n p =
     (case px_script p (px_pos p) of
        RData bs \<Rightarrow> (Inr (take n bs), p\<lparr>px_pos := Suc (px_pos p)\<rparr>)
      | RErr e \<Rightarrow> (Inl e, p\<lparr>px_pos := Suc (px_pos p)\<rparr>))"

definition port_write :: "bytes \<Rightarrow> port \<Rightarrow> string option \<times> port" where
  "port_write bs p =
     (case px_write_err p (length (px_sent p)) of
        Some e \<Rightarrow> (Some e, p)
      | None \<Rightarrow> (None, p\<lparr>px_sent := px_sent p @ [bs]\<rparr>))"

section \<open>Results of a call\<close>

text \<open>A call returns a value, returns an error, or panics.\<close>

datatype bridge_error =
    EncodeUrpcFailed urpc_error
  | EncodeDcpFailed dcp_error
  | ContextCancelled string
  | WriteSerial string
  | ReadSerial string
  | ReadRemainder string
  | AckHeaderNotFound
  | DecodeAckFailed urpc_error
  | ReadDcpHeader string
  | ReadDcpPayload string
  | DecodeDcpFailed dcp_error
  | ErrDeviceTimeout string
  | UnsupportedTransport string
  | OtherError string

fun bridge_error_text :: "bridge_error \<Rightarrow> string" where
  "bridge_error_text (EncodeUrpcFailed e) = ''encode request: '' @ urpc_error_text e"
| "bridge_error_text (EncodeDcpFailed e) = ''encode DCP call: '' @ dcp_error_text e"
| "bridge_error_text (ContextCancelled e) = ''context cancelled: '' @ e"
| "bridge_error_text (WriteSerial e) = ''write serial: '' @ e"
| "bridge_error_text (ReadSerial e) = ''read serial: '' @ e"
| "bridge_error_text (ReadRemainder e) = ''read serial remainder: '' @ e"
| "bridge_error_text AckHeaderNotFound = ''uRPC ACK header not found''"
| "bridge_error_text (DecodeAckFailed e) = ''decode ack: '' @ urpc_error_text e"
| "bridge_error_text (ReadDcpHeader e) = ''read DCP header: '' @ e"
| "bridge_error_text (ReadDcpPayload e) = ''read DCP payload: '' @ e"
| "bridge_error_text (DecodeDcpFailed e) = ''decode DCP reply: '' @ dcp_error_text e"
| "bridge_error_text (ErrDeviceTimeout e) = ''device timeout: '' @ e"
| "bridge_error_text (UnsupportedTransport e) = e"
| "bridge_error_text (OtherError e) = e"

datatype ('e, 'a) go_result = Ret 'a | Fail 'e | Panic string

section \<open>Reading a fixed number of bytes\<close>

text \<open>
  The loop that reads until \<open>remaining\<close> bytes have arrived, in \<open>readURPCAck\<close> and in
  \<open>io.ReadFull\<close>. Nothing bounds the number of reads, so the loop may not return:
  \<open>None\<close>. A failed read also gives what had arrived before it.
\<close>

partial_function (option) read_loop ::
    "port \<Rightarrow> nat \<Rightarrow> bytes \<Rightarrow> (((string \<times> bytes) + bytes) \<times> port) option" where
  "read_loop p remaining buf =
     (if remaining = 0 then Some (Inr buf, p)
      else case port_read remaining p of
        (Inl e, p') \<Rightarrow> Some (Inl (e, buf), p')
      | (Inr bs, p') \<Rightarrow> read_loop p' (remaining - length bs) (buf @ bs))"

definition ReadFull :: "nat \<Rightarrow> port \<Rightarrow> ((string + bytes) \<times> port) option" where
  "ReadFull n p =
     (case read_loop p n [] of
        None \<Rightarrow> None
      | Some (Inr bs, p') \<Rightarrow> Some (Inr bs, p')
      | Some (Inl (e, buf), p') \<Rightarrow> Some (Inl (if e = ''EOF'' \<and> buf \<noteq> [] then ''unexpected EOF'' else e), p'))"

section \<open>The serial port of the daemon\<close>

record serial_port =
  sp_port :: "port option"
  sp_channel :: string
  sp_baudrate :: int
  sp_connected :: bool

definition new_serial :: serial_port where
  "new_serial = \<lparr>sp_port = None, sp_channel = [], sp_baudrate = 0, sp_connected = False\<rparr>"

text \<open>
  What the driver answers to \<open>Open\<close> (an error or a port) and to \<open>SetReadTimeout\<close> on
  that port.
\<close>

type_synonym driver = "string \<Rightarrow> int \<Rightarrow> string + (port \<times> string option)"

definition sp_Open :: "driver \<Rightarrow> string \<Rightarrow> int \<Rightarrow> serial_port \<Rightarrow> string option \<times> serial_port" where
  "sp_Open drv channel baudrate sp =
     (case drv channel baudrate of
        Inl e \<Rightarrow> (Some (''open serial '' @ channel @ '': '' @ e), sp)
      | Inr (p, Some e) \<Rightarrow> (Some (''set read timeout: '' @ e), sp)
      | Inr (p, None) \<Rightarrow> (None, sp\<lparr>sp_port := Some p, sp_channel := channel, sp_baudrate := baudrate,
            sp_connected := True\<rparr>))"

text \<open>What the driver's \<open>Close\<close> does to a port is a parameter too.\<close>

type_synonym closer = "port \<Rightarrow> string option \<times> port"

definition sp_Close :: "closer \<Rightarrow> serial_port \<Rightarrow> string option \<times> serial_port" where
  "sp_Close cls sp =
     (let sp = sp\<lparr>sp_connected := False\<rparr> in
      case sp_port sp of
        Some p \<Rightarrow> (let (err, p') = cls p in (err, sp\<lparr>sp_port := Some p'\<rparr>))
      | None \<Rightarrow> (None, sp))"

definition sp_IsConnected :: "serial_port \<Rightarrow> bool" where
  "sp_IsConnected sp = sp_connected sp"

definition sp_Reconnect :: "driver \<Rightarrow> closer \<Rightarrow> serial_port \<Rightarrow> string option \<times> serial_port" where
  "sp_Reconnect drv cls sp =
     (let sp = sp\<lparr>sp_port := map_option (snd \<circ> cls) (sp_port sp)\<rparr> in
      if sp_channel sp = [] then
        (Some ''reconnect serial: no channel configured'', sp\<lparr>sp_connected := False\<rparr>)
      else case drv (sp_channel sp) (sp_baudrate sp) of
        Inl e \<Rightarrow> (Some (''reconnect serial '' @ sp_channel sp @ '': '' @ e), sp\<lparr>sp_connected := False\<rparr>)
      | Inr (p, Some e) \<Rightarrow> (Some (''set read timeout on reconnect: '' @ e), sp\<lparr>sp_connected := False\<rparr>)
      | Inr (p, None) \<Rightarrow> (None, sp\<lparr>sp_port := Some p, sp_connected := True\<rparr>))"

section \<open>When the read loop returns\<close>

definition responsive :: "port \<Rightarrow> bool" where
  "responsive p \<longleftrightarrow> (\<forall>i \<ge> px_pos p. px_script p i \<noteq> RData [])"

definition silent :: "port \<Rightarrow> bool" where
  "silent p \<longleftrightarrow> (\<forall>i \<ge> px_pos p. px_script p i = RData [])"

lemma port_read_frame:
  "port_read n p = (r, p') \<Longrightarrow> px_sent p' = px_sent p \<and> px_script p' = px_script p
     \<and> px_write_err p' = px_write_err p \<and> px_pos p' = Suc (px_pos p)"
  by (auto simp: port_read_def split: read_event.splits)

lemma port_read_length: "port_read n p = (Inr bs, p') \<Longrightarrow> length bs \<le> n"
  by (auto simp: port_read_def split: read_event.splits)

lemma port_read_responsive:
  "responsive p \<Longrightarrow> 0 < n \<Longrightarrow> port_read n p = (Inr bs, p') \<Longrightarrow> bs \<noteq> [] \<and> responsive p'"
  by (auto simp: port_read_def responsive_def split: read_event.splits)

lemma port_read_err_responsive: "responsive p \<Longrightarrow> port_read n p = (r, p') \<Longrightarrow> responsive p'"
  by (auto simp: port_read_def responsive_def split: read_event.splits)

lemma port_read_silent: "silent p \<Longrightarrow> port_read n p = (Inr [], p\<lparr>px_pos := Suc (px_pos p)\<rparr>)"
  by (simp add: port_read_def silent_def)

lemma silent_next: "silent p \<Longrightarrow> silent (p\<lparr>px_pos := Suc (px_pos p)\<rparr>)"
  by (simp add: silent_def)

lemma read_loop_responsive:
  "responsive p \<Longrightarrow> \<exists>r p'. read_loop p n buf = Some (r, p') \<and> responsive p'"
proof (induction n arbitrary: p buf rule: less_induct)
  case (less n)
  show ?case
  proof (cases "n = 0")
    case True
    with less.prems show ?thesis by (simp add: read_loop.simps)
  next
    case False
    obtain r p' where rd: "port_read n p = (r, p')" by fastforce
    show ?thesis
    proof (cases r)
      case (Inl e)
      with False rd port_read_err_responsive [OF less.prems rd] show ?thesis by (simp add: read_loop.simps [of p n])
    next
      case (Inr bs)
      with port_read_responsive [OF less.prems _ rd [unfolded Inr]] False have "bs \<noteq> []" and p': "responsive p'" by auto
      with False have "n - length bs < n" by (cases bs) auto
      from less.IH [OF this p', of "buf @ bs"] False rd Inr show ?thesis by (simp add: read_loop.simps [of p n])
    qed
  qed
qed

text \<open>A loop that waits for a byte on a silent line never returns.\<close>

lemma read_loop_silent:
  assumes "silent p" and "0 < n"
  shows "read_loop p n buf = None"
proof (rule ccontr)
  assume "read_loop p n buf \<noteq> None"
  then obtain out where out: "read_loop p n buf = Some out" by blast
  have "\<not> (silent p \<and> 0 < n)"
  proof (rule read_loop.raw_induct [where P = "\<lambda>p n buf out. \<not> (silent p \<and> 0 < n)", OF _ out])
    fix f p n buf out
    assume IH: "\<And>p n buf out. f p n buf = Some out \<Longrightarrow> \<not> (silent p \<and> 0 < n)"
      and eq: "(if n = 0 then Some (Inr buf, p)
        else case port_read n p of (Inl e, p') \<Rightarrow> Some (Inl (e, buf), p')
          | (Inr bs, p') \<Rightarrow> f p' (n - length bs) (buf @ bs)) = Some out"
    show "\<not> (silent p \<and> 0 < n)"
    proof
      assume a: "silent p \<and> 0 < n"
      with eq have "f (p\<lparr>px_pos := Suc (px_pos p)\<rparr>) n buf = Some out" by (simp add: port_read_silent)
      from IH [OF this] a silent_next show False by blast
    qed
  qed
  with assms show False by simp
qed

lemma read_loop_frame:
  assumes "read_loop p n buf = Some (r, p')"
  shows "px_sent p' = px_sent p \<and> px_write_err p' = px_write_err p"
proof -
  have "case (r, p') of (r, p') \<Rightarrow> px_sent p' = px_sent p \<and> px_write_err p' = px_write_err p"
  proof (rule read_loop.raw_induct [where P = "\<lambda>p n buf out. case out of (r, p') \<Rightarrow>
      px_sent p' = px_sent p \<and> px_write_err p' = px_write_err p", OF _ assms])
    fix f p n buf out
    assume IH: "\<And>p n buf out. f p n buf = Some out \<Longrightarrow>
        (case out of (r, p') \<Rightarrow> px_sent p' = px_sent p \<and> px_write_err p' = px_write_err p)"
      and eq: "(if n = 0 then Some (Inr buf, p)
        else case port_read n p of (Inl e, p') \<Rightarrow> Some (Inl (e, buf), p')
          | (Inr bs, p') \<Rightarrow> f p' (n - length bs) (buf @ bs)) = Some out"
    obtain r1 p1 where rd: "port_read n p = (r1, p1)" by fastforce
    note fr = port_read_frame [OF rd]
    show "case out of (r, p') \<Rightarrow> px_sent p' = px_sent p \<and> px_write_err p' = px_write_err p"
    proof (cases "n = 0")
      case True
      with eq show ?thesis by auto
    next
      case False
      with eq rd fr IH [of p1 "n - length (projr r1)" "buf @ projr r1" out] show ?thesis
        by (cases r1) auto
    qed
  qed
  then show ?thesis by simp
qed

text \<open>Bytes that are on their way in any fragments are put together again.\<close>

definition delivers :: "bytes list \<Rightarrow> port \<Rightarrow> bool" where
  "delivers frags p \<longleftrightarrow> (\<forall>i < length frags. px_script p (px_pos p + i) = RData (frags ! i))"

lemma delivers_Cons:
  "delivers (f # fs) p \<longleftrightarrow> px_script p (px_pos p) = RData f \<and> delivers fs (p\<lparr>px_pos := Suc (px_pos p)\<rparr>)"
  unfolding delivers_def by (auto simp: less_Suc_eq_0_disj nth_Cons split: nat.splits)

lemma read_loop_delivers:
  "delivers frags p \<Longrightarrow> n = length (concat frags) \<Longrightarrow> \<forall>f \<in> set frags. f \<noteq> [] \<Longrightarrow>
   read_loop p n buf = Some (Inr (buf @ concat frags), p\<lparr>px_pos := px_pos p + length frags\<rparr>)"
proof (induction frags arbitrary: p n buf)
  case Nil
  then show ?case by (simp add: read_loop.simps)
next
  case (Cons f fs)
  let ?p = "p\<lparr>px_pos := Suc (px_pos p)\<rparr>"
  from Cons.prems have d: "px_script p (px_pos p) = RData f" "delivers fs ?p" by (simp_all add: delivers_Cons)
  from Cons.prems have n: "n = length f + length (concat fs)" "f \<noteq> []" by simp_all
  have "read_loop p n buf = read_loop ?p (length (concat fs)) (buf @ f)"
    using d n by (subst read_loop.simps) (simp add: port_read_def)
  also have "\<dots> = Some (Inr ((buf @ f) @ concat fs), ?p\<lparr>px_pos := px_pos ?p + length fs\<rparr>)"
    using d(2) Cons.prems(3) by (intro Cons.IH) simp_all
  finally show ?case by simp
qed

section \<open>The connection state\<close>

datatype serial_op = SOpen driver string int | SClose closer | SReconnect driver closer

fun serial_step :: "serial_port \<Rightarrow> serial_op \<Rightarrow> serial_port" where
  "serial_step sp (SOpen drv channel baudrate) = snd (sp_Open drv channel baudrate sp)"
| "serial_step sp (SClose cls) = snd (sp_Close cls sp)"
| "serial_step sp (SReconnect drv cls) = snd (sp_Reconnect drv cls sp)"

text \<open>A connected bridge has a port to talk to.\<close>

definition serial_ok :: "serial_port \<Rightarrow> bool" where
  "serial_ok sp \<longleftrightarrow> (sp_connected sp \<longrightarrow> sp_port sp \<noteq> None)"

lemma serial_ok_new: "serial_ok new_serial"
  by (simp add: serial_ok_def new_serial_def)

lemma serial_ok_step: "serial_ok sp \<Longrightarrow> serial_ok (serial_step sp opn)"
  by (cases opn)
    (auto simp: serial_ok_def sp_Open_def sp_Close_def sp_Reconnect_def Let_def
      split: sum.splits prod.splits option.splits)

lemma serial_ok_run: "serial_ok sp \<Longrightarrow> serial_ok (foldl serial_step sp ops)"
  by (induction ops arbitrary: sp) (simp_all add: serial_ok_step)

text \<open>Only an \<open>Open\<close> that succeeds gives a bridge its channel.\<close>

definition open_fails :: "serial_op \<Rightarrow> bool" where
  "open_fails opn = (case opn of SOpen drv channel baudrate \<Rightarrow>
      (case drv channel baudrate of Inl _ \<Rightarrow> True | Inr (_, Some _) \<Rightarrow> True | Inr (_, None) \<Rightarrow> False)
    | _ \<Rightarrow> True)"

lemma unopened_step:
  "sp_channel sp = [] \<Longrightarrow> \<not> sp_connected sp \<Longrightarrow> open_fails opn \<Longrightarrow>
   sp_channel (serial_step sp opn) = [] \<and> \<not> sp_connected (serial_step sp opn)"
  by (cases opn)
    (auto simp: open_fails_def sp_Open_def sp_Close_def sp_Reconnect_def Let_def
      split: sum.splits prod.splits option.splits)

lemma unopened_run:
  "sp_channel sp = [] \<Longrightarrow> \<not> sp_connected sp \<Longrightarrow> \<forall>opn \<in> set ops. open_fails opn \<Longrightarrow>
   sp_channel (foldl serial_step sp ops) = [] \<and> \<not> sp_connected (foldl serial_step sp ops)"
proof (induction ops arbitrary: sp)
  case (Cons opn ops)
  from Cons.prems unopened_step [of sp opn] Cons.IH [of "serial_step sp opn"] show ?case by simp
qed simp

text \<open>A serial bridge whose first \<open>Open\<close> failed can never be reconnected: however often
  \<open>Reconnect\<close> is tried afterwards, and even when the driver would by then open the port,
  it answers that no channel is configured, since \<open>Open\<close> stores the channel only when it
  succeeds.\<close>

theorem failed_open_never_reconnects:
  assumes "\<forall>opn \<in> set ops. open_fails opn"
  shows "fst (sp_Reconnect drv cls (foldl serial_step new_serial ops))
         = Some ''reconnect serial: no channel configured''
       \<and> \<not> sp_IsConnected (foldl serial_step new_serial (ops @ [SReconnect drv cls]))"
proof -
  have "sp_channel (foldl serial_step new_serial ops) = []"
    using unopened_run [OF _ _ assms, of new_serial] by (simp add: new_serial_def)
  then show ?thesis by (simp add: sp_Reconnect_def Let_def sp_IsConnected_def)
qed

definition demo_port :: port where
  "demo_port = \<lparr>px_script = \<lambda>_. RData [], px_pos = 0, px_write_err = \<lambda>_. None, px_sent = []\<rparr>"

theorem failed_open_never_reconnects_witness:
  "fst (sp_Reconnect (\<lambda>_ _. Inr (demo_port, None)) (\<lambda>p. (None, p))
     (foldl serial_step new_serial [SOpen (\<lambda>_ _. Inl ''no such port'') ''/dev/ttyUSB0'' 115200]))
     = Some ''reconnect serial: no channel configured''"
  using failed_open_never_reconnects [of "[SOpen (\<lambda>_ _. Inl ''no such port'') ''/dev/ttyUSB0'' 115200]"
      "\<lambda>_ _. Inr (demo_port, None)" "\<lambda>p. (None, p)"]
  by (simp add: open_fails_def)

end
