(* ===== verification/UrpcBridge.thy ===== *)
theory UrpcBridge
  imports Serial
begin

text \<open>
  The uRPC bridge of the daemon, \<open>internal/daemon/urpc_bridge.go\<close>: one request, one
  acknowledgement, up to \<open>retry\<close> attempts. \<open>None\<close> is a call that never returns.
  The context is the answer of \<open>ctx.Err()\<close> at the start of each attempt; the deadline of
  five seconds the code adds when there is none is part of those answers, since the context is
  looked at nowhere else.
\<close>

definition maxURPCRetries :: int where "maxURPCRetries = 3"

record serial_bridge =
  sb_port :: serial_port
  sb_retry :: int

definition NewSerialBridge :: serial_bridge where
  "NewSerialBridge = \<lparr>sb_port = new_serial, sb_retry = maxURPCRetries\<rparr>"

definition sb_SetRetry :: "int \<Rightarrow> serial_bridge \<Rightarrow> serial_bridge" where
  "sb_SetRetry n sb = sb\<lparr>sb_retry := if n \<le> 0 then maxURPCRetries else n\<rparr>"

section \<open>Reading an acknowledgement\<close>

text \<open>
  The buffer grows by \<open>append\<close>. How much memory \<open>append\<close> takes is up to the Go
  runtime: \<open>cap_at h\<close> is the capacity of the slice that starts at the header, \<open>h\<close>
  bytes into the buffer. \<open>buf[:5]\<close> on a shorter slice is not an error while the capacity
  suffices: it uncovers the zeroed memory behind the slice.
\<close>

definition slice_to :: "nat \<Rightarrow> nat \<Rightarrow> bytes \<Rightarrow> bytes option" where
  "slice_to k cp buf =
     (if k \<le> length buf then Some (take k buf)
      else if k \<le> cp then Some (buf @ replicate (k - length buf) 0)
      else None)"

fun find_header :: "bytes \<Rightarrow> nat option" where
  "find_header [] = None"
| "find_header (b # bs) = (if b = HeaderAck then Some 0 else map_option Suc (find_header bs))"

definition decode_first5 :: "nat \<Rightarrow> bytes \<Rightarrow> (bridge_error, urpc_ack) go_result" where
  "decode_first5 cp buf =
     (case slice_to 5 cp buf of
        None \<Rightarrow> Panic ''slice bounds out of range''
      | Some frame \<Rightarrow>
          (case DecodeAck frame of Inl e \<Rightarrow> Fail (DecodeAckFailed e) | Inr ack \<Rightarrow> Ret ack))"

definition readURPCAck :: "(nat \<Rightarrow> nat) \<Rightarrow> port \<Rightarrow> ((bridge_error, urpc_ack) go_result \<times> port) option" where
  "readURPCAck cap_at p =
     (case read_loop p 5 [] of
        None \<Rightarrow> None
      | Some (Inl (e, _), p) \<Rightarrow> Some (Fail (ReadSerial e), p)
      | Some (Inr buf, p) \<Rightarrow>
          (case find_header buf of
             None \<Rightarrow> Some (Fail AckHeaderNotFound, p)
           | Some headerIdx \<Rightarrow>
               let buf = drop headerIdx buf; cp = cap_at headerIdx in
               if length buf < 5 then
                 (case port_read (5 - length buf) p of
                    (Inl e, p) \<Rightarrow> Some (Fail (ReadRemainder e), p)
                  | (Inr chunk, p) \<Rightarrow> Some (decode_first5 cp (buf @ chunk), p))
               else Some (decode_first5 cp buf, p)))"

section \<open>Sending a request\<close>

text \<open>The attempts from number \<open>attempt\<close> on, \<open>left\<close> of them.\<close>

fun urpc_attempts :: "(nat \<Rightarrow> nat) \<Rightarrow> (nat \<Rightarrow> string option) \<Rightarrow> bytes \<Rightarrow> int \<Rightarrow> nat \<Rightarrow> nat \<Rightarrow> port
    \<Rightarrow> ((bridge_error, urpc_ack) go_result \<times> port) option" where
  "urpc_attempts cap_at ctx frame retry attempt 0 p =
     Some (Fail (ErrDeviceTimeout (''uRPC failed after '' @ itoa retry @ '' retries'')), p)"
| "urpc_attempts cap_at ctx frame retry attempt (Suc left) p =
     (case ctx attempt of
        Some e \<Rightarrow> Some (Fail (ContextCancelled e), p)
      | None \<Rightarrow>
          (case port_write frame p of
             (Some e, p) \<Rightarrow> Some (Fail (WriteSerial e), p)
           | (None, p) \<Rightarrow>
               (case readURPCAck cap_at p of
                  None \<Rightarrow> None
                | Some (Ret ack, p) \<Rightarrow> Some (Ret ack, p)
                | Some (Panic s, p) \<Rightarrow> Some (Panic s, p)
                | Some (Fail e, p) \<Rightarrow> urpc_attempts cap_at ctx frame retry (Suc attempt) left p)))"

definition SendURPC :: "(nat \<Rightarrow> nat) \<Rightarrow> (nat \<Rightarrow> string option) \<Rightarrow> urpc_request \<Rightarrow> serial_bridge
    \<Rightarrow> ((bridge_error, urpc_ack) go_result \<times> serial_bridge) option" where
  "SendURPC cap_at ctx req sb =
     (case EncodeRequest req of
        Inl e \<Rightarrow> Some (Fail (EncodeUrpcFailed e), sb)
      | Inr frame \<Rightarrow>
          (case sp_port (sb_port sb) of
             None \<Rightarrow>
               (case ctx 0 of
                  Some e \<Rightarrow> Some (Fail (ContextCancelled e), sb)
                | None \<Rightarrow> Some (Panic ''nil pointer dereference'', sb))
           | Some p \<Rightarrow>
               map_option (\<lambda>(r, p'). (r, sb\<lparr>sb_port := (sb_port sb)\<lparr>sp_port := Some p'\<rparr>\<rparr>))
                 (urpc_attempts cap_at ctx frame (sb_retry sb) 0 (nat (sb_retry sb)) p)))"

definition sb_SendDCP :: "serial_bridge \<Rightarrow> ((bridge_error, dcp_frame) go_result \<times> serial_bridge) option" where
  "sb_SendDCP sb = Some (Fail (UnsupportedTransport ''SerialBridge does not support DCP transport''), sb)"

section \<open>When a call returns\<close>

lemma port_write_frame:
  "port_write f p = (None, p') \<Longrightarrow> px_sent p' = px_sent p @ [f] \<and> px_script p' = px_script p \<and> px_pos p' = px_pos p"
  by (auto simp: port_write_def split: option.splits)

lemma port_write_fails: "port_write f p = (Some e, p') \<Longrightarrow> p' = p"
  by (auto simp: port_write_def split: option.splits)

lemma port_write_responsive: "responsive p \<Longrightarrow> port_write f p = (r, p') \<Longrightarrow> responsive p'"
  by (auto simp: port_write_def responsive_def split: option.splits)

lemma readURPCAck_responsive:
  assumes "responsive p"
  shows "\<exists>r p'. readURPCAck cap_at p = Some (r, p') \<and> responsive p' \<and> px_sent p' = px_sent p"
proof -
  obtain r p1 where rl: "read_loop p 5 [] = Some (r, p1)" and p1: "responsive p1"
    using read_loop_responsive [OF assms] by blast
  have s1: "px_sent p1 = px_sent p" using read_loop_frame [OF rl] by simp
  have chunk: "\<exists>q p2. port_read n p1 = (q, p2) \<and> responsive p2 \<and> px_sent p2 = px_sent p" for n
  proof -
    obtain q p2 where rd: "port_read n p1 = (q, p2)" by fastforce
    with port_read_err_responsive [OF p1 rd] port_read_frame [OF rd] s1 show ?thesis by auto
  qed
  show ?thesis
  proof (cases r)
    case (Inl e)
    with rl p1 s1 show ?thesis by (cases e) (simp add: readURPCAck_def)
  next
    case (Inr buf)
    show ?thesis
    proof (cases "find_header buf")
      case None
      with rl p1 s1 Inr show ?thesis by (simp add: readURPCAck_def)
    next
      case (Some h)
      obtain q p2 where "port_read (5 - length (drop h buf)) p1 = (q, p2)" "responsive p2" "px_sent p2 = px_sent p"
        using chunk by blast
      with rl p1 s1 Inr Some show ?thesis by (cases q) (auto simp: readURPCAck_def Let_def)
    qed
  qed
qed

lemma readURPCAck_silent: "silent p \<Longrightarrow> readURPCAck cap_at p = None"
  by (simp add: readURPCAck_def read_loop_silent)

lemma urpc_attempts_responsive:
  "responsive p \<Longrightarrow> \<exists>r p' k. urpc_attempts cap_at ctx f retry attempt left p = Some (r, p')
     \<and> k \<le> left \<and> px_sent p' = px_sent p @ replicate k f"
proof (induction left arbitrary: attempt p)
  case (Suc left)
  show ?case
  proof (cases "ctx attempt")
    case (Some e)
    then show ?thesis by (auto intro!: exI [of _ 0])
  next
    case None
    obtain w p1 where wr: "port_write f p = (w, p1)" by fastforce
    show ?thesis
    proof (cases w)
      case (Some e)
      with None wr port_write_fails [of f p e p1] show ?thesis by (auto intro!: exI [of _ 0])
    next
      case w: None
      have p1: "responsive p1" "px_sent p1 = px_sent p @ [f]"
        using port_write_responsive [OF Suc.prems wr] port_write_frame [of f p p1] wr w by simp_all
      obtain r p2 where rd: "readURPCAck cap_at p1 = Some (r, p2)" "responsive p2" "px_sent p2 = px_sent p1"
        using readURPCAck_responsive [OF p1(1)] by blast
      have one: "px_sent p2 = px_sent p @ replicate 1 f" using rd p1 by simp
      show ?thesis
      proof (cases r)
        case (Fail e)
        from Suc.IH [OF rd(2), of "Suc attempt"] obtain r' p' k where
          "urpc_attempts cap_at ctx f retry (Suc attempt) left p2 = Some (r', p')" "k \<le> left"
          "px_sent p' = px_sent p2 @ replicate k f" by blast
        with None wr w rd(1) Fail one show ?thesis by (auto intro!: exI [of _ "Suc k"])
      qed (use None wr w rd(1) one in \<open>auto intro!: exI [of _ "Suc 0"]\<close>)
    qed
  qed
qed simp

text \<open>C11: a uRPC call on a line that keeps answering always returns, and on the way it writes
  at most \<open>retry\<close> frames, all of them the one encoding of the request (so a retransmission
  carries the same sequence number and the firmware recognises it).\<close>

theorem urpc_call_returns:
  assumes "sp_port (sb_port sb) = Some p" and "responsive p" and "EncodeRequest req = Inr f"
  shows "\<exists>r sb' p' k. SendURPC cap_at ctx req sb = Some (r, sb') \<and> sp_port (sb_port sb') = Some p'
    \<and> int k \<le> max 0 (sb_retry sb) \<and> px_sent p' = px_sent p @ replicate k f"
proof -
  obtain r p' k where "urpc_attempts cap_at ctx f (sb_retry sb) 0 (nat (sb_retry sb)) p = Some (r, p')"
    "k \<le> nat (sb_retry sb)" "px_sent p' = px_sent p @ replicate k f"
    using urpc_attempts_responsive [OF assms(2)] by blast
  moreover from this have "int k \<le> max 0 (sb_retry sb)" by linarith
  ultimately show ?thesis using assms(1,3) by (auto simp: SendURPC_def)
qed

text \<open>C30: on a silent line a uRPC call never returns. When the driver's read timeout passes it
  reads no bytes and reports no error, so \<open>readURPCAck\<close> goes on waiting; neither the
  retries nor the context's deadline, which is looked at only between attempts, are reached. The
  documented device timeout is therefore never reported for a device that does not answer.\<close>

theorem silent_device_hangs:
  assumes "sp_port (sb_port sb) = Some p" and "silent p" and "EncodeRequest req = Inr f"
    and "px_write_err p (length (px_sent p)) = None" and "0 < sb_retry sb" and "ctx 0 = None"
  shows "SendURPC cap_at ctx req sb = None"
proof -
  obtain left where left: "nat (sb_retry sb) = Suc left" using assms(5) by (cases "nat (sb_retry sb)") auto
  have "silent (p\<lparr>px_sent := px_sent p @ [f]\<rparr>)" using assms(2) by (simp add: silent_def)
  then have "readURPCAck cap_at (p\<lparr>px_sent := px_sent p @ [f]\<rparr>) = None" by (rule readURPCAck_silent)
  with assms left show ?thesis by (simp add: SendURPC_def port_write_def)
qed

section \<open>What an answer means\<close>

lemma find_header_noise: "HeaderAck \<notin> set noise \<Longrightarrow> find_header (noise @ HeaderAck # xs) = Some (length noise)"
  by (induction noise) auto

text \<open>The five bytes come in any fragments, the rest of the frame after the noise in one.\<close>

lemma readURPCAck_after_noise:
  assumes "delivers frags p" and "\<forall>f \<in> set frags. f \<noteq> []" and "length (concat frags) = 5"
    and "concat frags = noise @ HeaderAck # front" and "HeaderAck \<notin> set noise"
    and "noise \<noteq> [] \<Longrightarrow> px_script p (px_pos p + length frags) = RData rest" and "length rest \<le> length noise"
  shows "\<exists>p'. readURPCAck cap_at p = Some (decode_first5 (cap_at (length noise)) (HeaderAck # front @ rest), p')
    \<and> px_sent p' = px_sent p"
proof -
  let ?p = "p\<lparr>px_pos := px_pos p + length frags\<rparr>"
  have rl: "read_loop p 5 [] = Some (Inr (noise @ HeaderAck # front), ?p)"
    using read_loop_delivers [OF assms(1) _ assms(2), of 5 "[]"] assms(3,4) by simp
  have len: "length noise + length front = 4" using assms(3,4) by simp
  have d: "drop (length noise) (noise @ HeaderAck # front) = HeaderAck # front" by simp
  show ?thesis
  proof (cases "noise = []")
    case True
    with rl len assms(7) show ?thesis by (simp add: readURPCAck_def)
  next
    case False
    have "take (4 - length front) rest = rest" using assms(7) len by simp
    moreover have "length front < 4" using len False by (cases noise) auto
    ultimately show ?thesis using rl len find_header_noise [OF assms(5), of front] assms(6) [OF False]
      by (simp add: readURPCAck_def Let_def d port_read_def)
  qed
qed

lemma SendURPC_first:
  assumes "sp_port (sb_port sb) = Some p" and "EncodeRequest req = Inr f" and "ctx 0 = None"
    and "0 < sb_retry sb" and "px_write_err p (length (px_sent p)) = None"
    and "readURPCAck cap_at (p\<lparr>px_sent := px_sent p @ [f]\<rparr>) = Some (r, p')" and "\<And>e. r \<noteq> Fail e"
  shows "map_option fst (SendURPC cap_at ctx req sb) = Some r"
proof -
  obtain left where "nat (sb_retry sb) = Suc left" using assms(4) by (cases "nat (sb_retry sb)") auto
  moreover from assms(7) have "(\<exists>a. r = Ret a) \<or> (\<exists>e. r = Panic e)" by (cases r) auto
  ultimately show ?thesis using assms(1-6) by (auto simp: SendURPC_def port_write_def)
qed

lemma delivers_sent [simp]: "delivers frags (p\<lparr>px_sent := x\<rparr>) = delivers frags p"
  by (simp add: delivers_def)

lemma decode_first5_EncodeAck: "decode_first5 cp (EncodeAck a) = Ret a"
proof -
  have "slice_to 5 cp (EncodeAck a) = Some (EncodeAck a)" by (simp add: slice_to_def EncodeAck_layout)
  then show ?thesis using DecodeAck_EncodeAck [of a] by (simp add: decode_first5_def)
qed

text \<open>C33: the bridge finds an acknowledgement behind a little line noise: with fewer than five
  stray bytes before the frame, none of them the header byte 0xBB, the first five bytes of noise
  and frame in any pieces, and, after noise, the rest of the frame in one piece, the first attempt
  of a call (not cancelled, written without error) returns exactly the acknowledgement the device
  encoded. Whatever its sequence number: the bridge never compares it with the request's. (A rest
  in two pieces is misread, \<open>broken_frame_read_as_ok\<close>.)\<close>

theorem ack_found_behind_noise:
  assumes "sp_port (sb_port sb) = Some p" and "EncodeRequest req = Inr f" and "ctx 0 = None"
    and "0 < sb_retry sb" and "px_write_err p (length (px_sent p)) = None"
    and "delivers frags p" and "\<forall>x \<in> set frags. x \<noteq> []" and "length (concat frags) = 5"
    and "HeaderAck \<notin> set noise" and "length noise < 5"
    and "concat frags @ rest = noise @ EncodeAck a"
    and "noise \<noteq> [] \<Longrightarrow> px_script p (px_pos p + length frags) = RData rest"
  shows "map_option fst (SendURPC cap_at ctx req sb) = Some (Ret a)"
proof -
  let ?p = "p\<lparr>px_sent := px_sent p @ [f]\<rparr>"
  obtain front where cf: "concat frags = noise @ HeaderAck # front" and fr: "EncodeAck a = HeaderAck # front @ rest"
  proof -
    from assms(11) obtain us where "(concat frags = noise @ us \<and> us @ rest = EncodeAck a)
        \<or> (concat frags @ us = noise \<and> rest = us @ EncodeAck a)" by (auto simp: append_eq_append_conv2)
    moreover have "length noise < length (concat frags)" using assms(8,10) by simp
    ultimately have "concat frags = noise @ us" "us @ rest = EncodeAck a" "us \<noteq> []"
      by auto
    then show thesis using that by (cases us) (auto simp: EncodeAck_layout)
  qed
  have "length (concat frags @ rest) = length (noise @ EncodeAck a)" using assms(11) by (rule arg_cong)
  then have lr: "length rest = length noise" using assms(8) by (simp add: EncodeAck_layout del: length_concat)
  obtain p' where "readURPCAck cap_at ?p = Some (decode_first5 (cap_at (length noise)) (HeaderAck # front @ rest), p')"
    using readURPCAck_after_noise [of frags ?p noise front rest] assms(6-9,12) cf lr by auto
  moreover have "decode_first5 (cap_at (length noise)) (HeaderAck # front @ rest) = Ret a"
    unfolding fr [symmetric] by (rule decode_first5_EncodeAck)
  ultimately show ?thesis using SendURPC_first [of sb p req f ctx cap_at] assms(1-5) by simp
qed

text \<open>A frame that breaks off is completed with zeroes. Three stray bytes, an
  acknowledgement header and a zero byte, then nothing until the read timeout: the single
  follow-up read gives no bytes, and \<open>buf[:5]\<close> uncovers zeroes, for which the checksum is
  right. The call reports \<open>OK\<close> from a device that never said so (or panics, if the runtime
  gave the slice less capacity).\<close>

theorem broken_frame_read_as_ok:
  assumes "sp_port (sb_port sb) = Some p" and "EncodeRequest req = Inr f" and "ctx 0 = None"
    and "0 < sb_retry sb" and "px_write_err p (length (px_sent p)) = None"
    and "delivers frags p" and "\<forall>x \<in> set frags. x \<noteq> []"
    and "concat frags = noise @ [HeaderAck, 0]" and "length noise = 3" and "HeaderAck \<notin> set noise"
    and "px_script p (px_pos p + length frags) = RData []"
  shows "map_option fst (SendURPC cap_at ctx req sb)
    = Some (if 5 \<le> cap_at 3 then Ret \<lparr>ack_seq = 0, ack_status = StatusOK, ack_queue_depth = 0\<rparr>
            else Panic ''slice bounds out of range'')"
proof -
  let ?p = "p\<lparr>px_sent := px_sent p @ [f]\<rparr>"
  obtain p' where "readURPCAck cap_at ?p = Some (decode_first5 (cap_at 3) [HeaderAck, 0], p')"
    using readURPCAck_after_noise [of frags ?p noise "[0]" "[]"] assms(6-11) by auto
  moreover have "crc8 [0, 0, 0] = 0" by (simp add: crc8_def crc8_byte_def crc8_bit_def numeral_eq_Suc)
  then have "decode_first5 (cap_at 3) [HeaderAck, 0]
    = (if 5 \<le> cap_at 3 then Ret \<lparr>ack_seq = 0, ack_status = StatusOK, ack_queue_depth = 0\<rparr>
            else Panic ''slice bounds out of range'')"
    by (simp add: decode_first5_def slice_to_def numeral_eq_Suc DecodeAck_five StatusOK_def)
  ultimately show ?thesis using SendURPC_first [of sb p req f ctx cap_at] assms(1-5) by simp
qed

section \<open>Concrete calls\<close>

definition port_of :: "(nat \<Rightarrow> read_event) \<Rightarrow> port" where
  "port_of script = \<lparr>px_script = script, px_pos = 0, px_write_err = \<lambda>_. None, px_sent = []\<rparr>"

definition bridge_on :: "port \<Rightarrow> serial_bridge" where
  "bridge_on p = NewSerialBridge\<lparr>sb_port := \<lparr>sp_port = Some p, sp_channel = ''/dev/ttyUSB0'',
     sp_baudrate = 115200, sp_connected = True\<rparr>\<rparr>"

definition relay_on :: urpc_request where
  "relay_on = \<lparr>req_seq = 7, req_cmd = 1, req_payload = [1, 1]\<rparr>"

definition relay_frame :: bytes where
  "relay_frame = [0xAA, 7, 1, 2, 1, 1] @ [crc8 [7, 1, 2, 1, 1]]"

lemma relay_encodes: "EncodeRequest relay_on = Inr relay_frame"
  by (simp add: EncodeRequest_layout relay_on_def relay_frame_def MaxPayloadSize_def HeaderRequest_def)

lemma bridge_on_simps [simp]:
  "sp_port (sb_port (bridge_on p)) = Some p" "sb_retry (bridge_on p) = 3"
  "px_script (port_of s) = s" "px_pos (port_of s) = 0" "px_write_err (port_of s) = (\<lambda>_. None)"
  "px_sent (port_of s) = []"
  by (simp_all add: bridge_on_def NewSerialBridge_def maxURPCRetries_def port_of_def)

theorem urpc_call_returns_witness:
  "\<exists>r sb' p' k. SendURPC (\<lambda>h. 8 - h) (\<lambda>_. None) relay_on (bridge_on (port_of (\<lambda>_. RErr ''unplugged''))) = Some (r, sb')
    \<and> sp_port (sb_port sb') = Some p' \<and> int k \<le> max 0 (sb_retry (bridge_on (port_of (\<lambda>_. RErr ''unplugged''))))
    \<and> px_sent p' = px_sent (port_of (\<lambda>_. RErr ''unplugged'')) @ replicate k relay_frame"
  by (rule urpc_call_returns [OF bridge_on_simps(1) _ relay_encodes]) (simp add: responsive_def)

theorem silent_device_hangs_witness:
  "SendURPC (\<lambda>h. 8 - h) (\<lambda>_. None) relay_on (bridge_on (port_of (\<lambda>_. RData []))) = None"
  using silent_device_hangs [of "bridge_on (port_of (\<lambda>_. RData []))" _ relay_on relay_frame]
  by (simp add: relay_encodes silent_def)

theorem ack_found_behind_noise_witness:
  "map_option fst (SendURPC (\<lambda>h. 8 - h) (\<lambda>_. None) relay_on
     (bridge_on (port_of (nth [RData [0x55], RData [0xBB, 9, 0, 0], RData [crc8 [9, 0, 0]]]))))
   = Some (Ret \<lparr>ack_seq = 9, ack_status = 0, ack_queue_depth = 0\<rparr>)"
  by (rule ack_found_behind_noise [where f = relay_frame and frags = "[[0x55], [0xBB, 9, 0, 0]]" and noise = "[0x55]"
        and rest = "[crc8 [9, 0, 0]]", OF bridge_on_simps(1)])
    (simp_all add: relay_encodes delivers_def EncodeAck_layout HeaderAck_def less_Suc_eq)

theorem broken_frame_read_as_ok_witness:
  "map_option fst (SendURPC (\<lambda>h. 8 - h) (\<lambda>_. None) relay_on
     (bridge_on (port_of (nth [RData [0x31, 0x32, 0x33, 0xBB, 0], RData []]))))
   = Some (Ret \<lparr>ack_seq = 0, ack_status = StatusOK, ack_queue_depth = 0\<rparr>)"
  using broken_frame_read_as_ok [OF bridge_on_simps(1), where f = relay_frame and req = relay_on and ctx = "\<lambda>_. None"
        and frags = "[[0x31, 0x32, 0x33, 0xBB, 0]]" and noise = "[0x31, 0x32, 0x33]" and cap_at = "\<lambda>h. 8 - h"
        and p = "port_of (nth [RData [0x31, 0x32, 0x33, 0xBB, 0], RData []])"]
  by (simp add: relay_encodes delivers_def HeaderAck_def)

end
