(* ===== verification/DcpBridge.thy ===== *)
theory DcpBridge
  imports Serial
begin

text \<open>
  The DCP bridge of the daemon, \<open>internal/daemon/dcp_bridge.go\<close>: signed calls and
  verified replies over the serial line. The CBOR library is the pair \<open>enc\<close>, \<open>dec\<close>
  as in \<open>Dcp\<close>; \<open>None\<close> is a call that never returns.
\<close>

definition maxDCPRetries :: int where "maxDCPRetries = 3"

record dcp_bridge =
  db_port :: serial_port
  db_hmacSecret :: "bytes option"
  db_retry :: int

definition NewDCPBridge :: dcp_bridge where
  "NewDCPBridge = \<lparr>db_port = new_serial, db_hmacSecret = None, db_retry = maxDCPRetries\<rparr>"

definition db_SetRetry :: "int \<Rightarrow> dcp_bridge \<Rightarrow> dcp_bridge" where
  "db_SetRetry n db = db\<lparr>db_retry := if n \<le> 0 then maxDCPRetries else n\<rparr>"

definition SetHMACSecret :: "bytes option \<Rightarrow> dcp_bridge \<Rightarrow> dcp_bridge" where
  "SetHMACSecret secret db = db\<lparr>db_hmacSecret := secret\<rparr>"

type_synonym cbor_enc = "params \<Rightarrow> string + bytes"
type_synonym cbor_dec = "bytes \<Rightarrow> string + params option"

section \<open>Reading a reply\<close>

text \<open>A reply is given with the bytes it was decoded from.\<close>

definition readDCPReply :: "cbor_dec \<Rightarrow> bytes option \<Rightarrow> port
    \<Rightarrow> ((bridge_error + dcp_frame \<times> bytes) \<times> port) option" where
  "readDCPReply dec hmacSecret p =
     (case ReadFull DCPHeaderSize p of
        None \<Rightarrow> None
      | Some (Inl e, p) \<Rightarrow> Some (Inl (ReadDcpHeader e), p)
      | Some (Inr headerBuf, p) \<Rightarrow>
          let payloadLen = unat (headerBuf ! 5);
              readLen = (if hmacSecret \<noteq> None then payloadLen + DCPHMACSize else payloadLen) in
          (case ReadFull readLen p of
             None \<Rightarrow> None
           | Some (Inl e, p) \<Rightarrow> Some (Inl (ReadDcpPayload e), p)
           | Some (Inr payloadBuf, p) \<Rightarrow>
               let rawFrame = headerBuf @ payloadBuf in
               (case DecodeDCPFrame dec rawFrame of
                  Inl e \<Rightarrow> Some (Inl (DecodeDcpFailed e), p)
                | Inr reply \<Rightarrow> Some (Inr (reply, rawFrame), p))))"

section \<open>Sending a call\<close>

definition sign :: "bytes option \<Rightarrow> bytes \<Rightarrow> bytes" where
  "sign secret frame = (case secret of None \<Rightarrow> frame | Some k \<Rightarrow> AppendDCPHMAC frame k)"

definition trusted :: "bytes option \<Rightarrow> dcp_frame \<Rightarrow> bytes \<Rightarrow> bool" where
  "trusted secret frame raw =
     (case secret of None \<Rightarrow> True | Some k \<Rightarrow> \<not> (df_hmac frame = [] \<or> \<not> VerifyDCPHMAC raw k))"

fun dcp_attempts :: "cbor_enc \<Rightarrow> cbor_dec \<Rightarrow> (nat \<Rightarrow> string option) \<Rightarrow> u8 \<Rightarrow> u16 \<Rightarrow> params \<Rightarrow> bytes option \<Rightarrow> int
    \<Rightarrow> nat \<Rightarrow> nat \<Rightarrow> port \<Rightarrow> ((bridge_error, dcp_frame) go_result \<times> port) option" where
  "dcp_attempts enc dec ctx seq intentID params secret retry attempt 0 p =
     Some (Fail (ErrDeviceTimeout (''DCP failed after '' @ itoa retry @ '' retries'')), p)"
| "dcp_attempts enc dec ctx seq intentID params secret retry attempt (Suc left) p =
     (case ctx attempt of
        Some e \<Rightarrow> Some (Fail (ContextCancelled e), p)
      | None \<Rightarrow>
          (case EncodeDCPCall enc seq intentID params of
             Inl e \<Rightarrow> Some (Fail (EncodeDcpFailed e), p)
           | Inr frame \<Rightarrow>
               (case port_write (sign secret frame) p of
                  (Some e, p) \<Rightarrow> Some (Fail (WriteSerial e), p)
                | (None, p) \<Rightarrow>
                    (case readDCPReply dec secret p of
                       None \<Rightarrow> None
                     | Some (Inl e, p) \<Rightarrow>
                         dcp_attempts enc dec ctx seq intentID params secret retry (Suc attempt) left p
                     | Some (Inr (reply, raw), p) \<Rightarrow>
                         if trusted secret reply raw then Some (Ret reply, p)
                         else dcp_attempts enc dec ctx seq intentID params secret retry (Suc attempt) left p))))"

definition SendDCP :: "cbor_enc \<Rightarrow> cbor_dec \<Rightarrow> (nat \<Rightarrow> string option) \<Rightarrow> u8 \<Rightarrow> u16 \<Rightarrow> params \<Rightarrow> dcp_bridge
    \<Rightarrow> ((bridge_error, dcp_frame) go_result \<times> dcp_bridge) option" where
  "SendDCP enc dec ctx seq intentID params db =
     (case sp_port (db_port db) of
        None \<Rightarrow>
          (case ctx 0 of
             Some e \<Rightarrow> Some (Fail (ContextCancelled e), db)
           | None \<Rightarrow>
               (case EncodeDCPCall enc seq intentID params of
                  Inl e \<Rightarrow> Some (Fail (EncodeDcpFailed e), db)
                | Inr _ \<Rightarrow> Some (Panic ''nil pointer dereference'', db)))
      | Some p \<Rightarrow>
          map_option (\<lambda>(r, p'). (r, db\<lparr>db_port := (db_port db)\<lparr>sp_port := Some p'\<rparr>\<rparr>))
            (dcp_attempts enc dec ctx seq intentID params (db_hmacSecret db) (db_retry db) 0 (nat (db_retry db)) p))"

definition db_SendURPC :: "dcp_bridge \<Rightarrow> ((bridge_error, urpc_ack) go_result \<times> dcp_bridge) option" where
  "db_SendURPC db = Some (Fail (UnsupportedTransport ''DCPBridge does not support uRPC transport''), db)"

section \<open>When a call returns\<close>

lemma ReadFull_responsive:
  "responsive p \<Longrightarrow> \<exists>r p'. ReadFull n p = Some (r, p') \<and> responsive p' \<and> px_sent p' = px_sent p"
proof -
  assume "responsive p"
  then obtain r p' where rl: "read_loop p n [] = Some (r, p')" "responsive p'" using read_loop_responsive by blast
  with read_loop_frame [OF rl(1)] show ?thesis by (auto simp: ReadFull_def split: sum.split)
qed

lemma readDCPReply_responsive:
  assumes "responsive p"
  shows "\<exists>r p'. readDCPReply dec secret p = Some (r, p') \<and> responsive p' \<and> px_sent p' = px_sent p"
proof -
  obtain r p1 where h: "ReadFull DCPHeaderSize p = Some (r, p1)" "responsive p1" "px_sent p1 = px_sent p"
    using ReadFull_responsive [OF assms] by blast
  have rest: "\<exists>r p'. ReadFull n p1 = Some (r, p') \<and> responsive p' \<and> px_sent p' = px_sent p" for n
    using ReadFull_responsive [OF h(2), of n] h(3) by simp
  show ?thesis
  proof (cases r)
    case (Inl e)
    with h show ?thesis by (simp add: readDCPReply_def)
  next
    case (Inr hd)
    define n where "n = (if secret \<noteq> None then unat (hd ! 5) + DCPHMACSize else unat (hd ! 5))"
    obtain r2 p2 where p2: "ReadFull n p1 = Some (r2, p2)" "responsive p2" "px_sent p2 = px_sent p"
      using rest by blast
    have eq: "readDCPReply dec secret p = (case r2 of Inl e \<Rightarrow> Some (Inl (ReadDcpPayload e), p2)
        | Inr pl \<Rightarrow> (case DecodeDCPFrame dec (hd @ pl) of Inl e \<Rightarrow> Some (Inl (DecodeDcpFailed e), p2)
            | Inr reply \<Rightarrow> Some (Inr (reply, hd @ pl), p2)))"
      using h(1) Inr p2(1) unfolding readDCPReply_def n_def by (cases r2) (simp_all add: Let_def split: if_splits)
    show ?thesis unfolding eq using p2 by (cases r2) (auto split: sum.split)
  qed
qed

text \<open>One attempt on such a line: it ends the loop at once, or writes one signed frame and then
  returns or goes to the next attempt.\<close>

lemma dcp_attempt_writes:
  assumes "responsive p" and "ctx attempt = None" and "EncodeDCPCall enc seq i ps = Inr f"
    and "port_write (sign secret f) p = (None, p1)"
  shows "\<exists>p2. responsive p2 \<and> px_sent p2 = px_sent p @ [sign secret f] \<and>
     ((\<exists>r. dcp_attempts enc dec ctx seq i ps secret retry attempt (Suc left) p = Some (r, p2)) \<or>
      dcp_attempts enc dec ctx seq i ps secret retry attempt (Suc left) p =
        dcp_attempts enc dec ctx seq i ps secret retry (Suc attempt) left p2)"
proof -
  from assms(1,4) have p1: "responsive p1" "px_sent p1 = px_sent p @ [sign secret f]"
    by (auto simp: port_write_def responsive_def split: option.splits)
  obtain r p2 where rd: "readDCPReply dec secret p1 = Some (r, p2)" "responsive p2" "px_sent p2 = px_sent p1"
    using readDCPReply_responsive [OF p1(1)] by blast
  with assms p1(2) show ?thesis by (intro exI [of _ p2]) (auto split: sum.split)
qed

lemma dcp_attempt_cases:
  assumes "responsive p"
  shows "(\<exists>r. dcp_attempts enc dec ctx seq i ps secret retry attempt (Suc left) p = Some (r, p)) \<or>
     (\<exists>f p2. EncodeDCPCall enc seq i ps = Inr f \<and> responsive p2 \<and> px_sent p2 = px_sent p @ [sign secret f] \<and>
     ((\<exists>r. dcp_attempts enc dec ctx seq i ps secret retry attempt (Suc left) p = Some (r, p2)) \<or>
      dcp_attempts enc dec ctx seq i ps secret retry attempt (Suc left) p =
        dcp_attempts enc dec ctx seq i ps secret retry (Suc attempt) left p2))"
proof (cases "\<exists>f p1. ctx attempt = None \<and> EncodeDCPCall enc seq i ps = Inr f \<and> port_write (sign secret f) p = (None, p1)")
  case True
  then show ?thesis using dcp_attempt_writes [OF assms] by blast
next
  case False
  then have "\<exists>r. dcp_attempts enc dec ctx seq i ps secret retry attempt (Suc left) p = Some (r, p)"
    by (auto simp: port_write_def split: option.split sum.split)
  then show ?thesis by blast
qed

lemma dcp_attempts_responsive:
  "responsive p \<Longrightarrow> \<exists>r p' fs. dcp_attempts enc dec ctx seq i ps secret retry attempt left p = Some (r, p')
     \<and> length fs \<le> left \<and> px_sent p' = px_sent p @ fs
     \<and> (\<forall>x \<in> set fs. \<exists>f. EncodeDCPCall enc seq i ps = Inr f \<and> x = sign secret f)"
proof (induction left arbitrary: attempt p)
  case (Suc left)
  from dcp_attempt_cases [OF Suc.prems, of enc dec ctx seq i ps secret retry attempt left] show ?case
  proof (elim disjE exE conjE)
    fix f p2 assume s: "EncodeDCPCall enc seq i ps = Inr f" "responsive p2" "px_sent p2 = px_sent p @ [sign secret f]"
      and eq: "dcp_attempts enc dec ctx seq i ps secret retry attempt (Suc left) p =
        dcp_attempts enc dec ctx seq i ps secret retry (Suc attempt) left p2"
    from Suc.IH [OF s(2), of "Suc attempt"] obtain r p' fs where
      "dcp_attempts enc dec ctx seq i ps secret retry (Suc attempt) left p2 = Some (r, p')" "length fs \<le> left"
      "px_sent p' = px_sent p2 @ fs" "\<forall>x \<in> set fs. \<exists>f. EncodeDCPCall enc seq i ps = Inr f \<and> x = sign secret f" by blast
    with s eq show ?thesis by (intro exI [of _ r] exI [of _ p'] exI [of _ "sign secret f # fs"]) (auto simp del: dcp_attempts.simps)
  next
    fix r assume "dcp_attempts enc dec ctx seq i ps secret retry attempt (Suc left) p = Some (r, p)"
    then show ?thesis by (intro exI [of _ r] exI [of _ p] exI [of _ "[]"]) (simp del: dcp_attempts.simps)
  next
    fix f p2 r assume "EncodeDCPCall enc seq i ps = Inr f" "px_sent p2 = px_sent p @ [sign secret f]"
      "dcp_attempts enc dec ctx seq i ps secret retry attempt (Suc left) p = Some (r, p2)"
    then show ?thesis by (intro exI [of _ r] exI [of _ p2] exI [of _ "[sign secret f]"]) (simp del: dcp_attempts.simps)
  qed
qed simp

text \<open>C12: a DCP call on a line that keeps answering always returns, after writing at most
  \<open>retry\<close> frames, each of them the encoding of the call, signed if a secret is set.\<close>

theorem dcp_call_returns:
  assumes "sp_port (db_port db) = Some p" and "responsive p"
  shows "\<exists>r db' p' fs. SendDCP enc dec ctx seq intent ps db = Some (r, db') \<and> sp_port (db_port db') = Some p'
    \<and> px_sent p' = px_sent p @ fs \<and> int (length fs) \<le> max 0 (db_retry db)
    \<and> (\<forall>x \<in> set fs. \<exists>f. EncodeDCPCall enc seq intent ps = Inr f \<and> x = sign (db_hmacSecret db) f)"
proof -
  obtain r p' fs where run:
    "dcp_attempts enc dec ctx seq intent ps (db_hmacSecret db) (db_retry db) 0 (nat (db_retry db)) p = Some (r, p')"
    "length fs \<le> nat (db_retry db)" "px_sent p' = px_sent p @ fs"
    "\<forall>x \<in> set fs. \<exists>f. EncodeDCPCall enc seq intent ps = Inr f \<and> x = sign (db_hmacSecret db) f"
    using dcp_attempts_responsive [OF assms(2)] by blast
  then have "int (length fs) \<le> max 0 (db_retry db)" by linarith
  with run assms(1) show ?thesis by (auto simp: SendDCP_def)
qed

section \<open>Which replies are believed\<close>

lemma ReadFull_frame: "ReadFull n p = Some (r, p') \<Longrightarrow> px_sent p' = px_sent p"
  by (auto simp: ReadFull_def split: option.splits sum.splits dest: read_loop_frame)

lemma readDCPReply_gives:
  "readDCPReply dec secret p = Some (Inr (reply, raw), p') \<Longrightarrow> DecodeDCPFrame dec raw = Inr reply"
  by (auto simp: readDCPReply_def Let_def split: option.splits sum.splits prod.splits if_splits)

lemma readDCPReply_frame: "readDCPReply dec secret p = Some (r, p') \<Longrightarrow> px_sent p' = px_sent p"
  by (auto simp: readDCPReply_def Let_def split: option.splits sum.splits dest!: ReadFull_frame)

lemma dcp_attempts_Ret:
  "dcp_attempts enc dec ctx seq i ps secret retry attempt left p = Some (Ret fr, p') \<Longrightarrow>
   \<exists>raw f n. DecodeDCPFrame dec raw = Inr fr \<and> trusted secret fr raw \<and> EncodeDCPCall enc seq i ps = Inr f
     \<and> 0 < n \<and> n \<le> left \<and> px_sent p' = px_sent p @ replicate n (sign secret f)"
proof (induction left arbitrary: attempt p)
  case (Suc left)
  from Suc.prems obtain f p1 r p2 where f: "EncodeDCPCall enc seq i ps = Inr f"
    and wr: "port_write (sign secret f) p = (None, p1)" and rd: "readDCPReply dec secret p1 = Some (r, p2)"
    and next': "(\<exists>raw. r = Inr (fr, raw) \<and> trusted secret fr raw \<and> p' = p2) \<or>
      dcp_attempts enc dec ctx seq i ps secret retry (Suc attempt) left p2 = Some (Ret fr, p')"
    by (auto split: option.splits sum.splits prod.splits if_splits)
  have sent: "px_sent p2 = px_sent p @ [sign secret f]"
    using wr readDCPReply_frame [OF rd] by (auto simp: port_write_def split: option.splits)
  from next' show ?case
  proof
    assume "\<exists>raw. r = Inr (fr, raw) \<and> trusted secret fr raw \<and> p' = p2"
    with f rd sent readDCPReply_gives show ?thesis by (fastforce intro: exI [of _ "Suc 0"])
  next
    assume "dcp_attempts enc dec ctx seq i ps secret retry (Suc attempt) left p2 = Some (Ret fr, p')"
    from Suc.IH [OF this] f obtain raw n where
      "DecodeDCPFrame dec raw = Inr fr" "trusted secret fr raw" "n \<le> left"
      "px_sent p' = px_sent p2 @ replicate n (sign secret f)" by auto
    with f sent show ?thesis by (intro exI [of _ raw] exI [of _ f] exI [of _ "Suc n"]) simp
  qed
qed simp

lemma SendDCP_Ret:
  assumes "SendDCP enc dec ctx seq intent ps db = Some (Ret fr, db')"
  shows "\<exists>raw f n p p'. DecodeDCPFrame dec raw = Inr fr \<and> trusted (db_hmacSecret db) fr raw
    \<and> EncodeDCPCall enc seq intent ps = Inr f \<and> 0 < n \<and> int n \<le> db_retry db
    \<and> sp_port (db_port db) = Some p \<and> db' = db\<lparr>db_port := (db_port db)\<lparr>sp_port := Some p'\<rparr>\<rparr>
    \<and> px_sent p' = px_sent p @ replicate n (sign (db_hmacSecret db) f)"
proof -
  from assms obtain p p' where p: "sp_port (db_port db) = Some p" "db' = db\<lparr>db_port := (db_port db)\<lparr>sp_port := Some p'\<rparr>\<rparr>"
    "dcp_attempts enc dec ctx seq intent ps (db_hmacSecret db) (db_retry db) 0 (nat (db_retry db)) p = Some (Ret fr, p')"
    by (auto simp: SendDCP_def split: option.splits sum.splits)
  from dcp_attempts_Ret [OF p(3)] obtain raw f n where r: "DecodeDCPFrame dec raw = Inr fr"
    "trusted (db_hmacSecret db) fr raw" "EncodeDCPCall enc seq intent ps = Inr f" "0 < n" "n \<le> nat (db_retry db)"
    "px_sent p' = px_sent p @ replicate n (sign (db_hmacSecret db) f)" by blast
  have "int n \<le> db_retry db" using r(4,5) by linarith
  with r p(1,2) show ?thesis by blast
qed

text \<open>C10: with a secret set, every frame \<open>SendDCP\<close> gives back carries a trailer and was
  decoded from bytes whose trailer is the HMAC of the rest under that secret; a forged or unsigned
  reply is never returned, whatever the line delivers.\<close>

theorem returned_reply_authentic:
  assumes "SendDCP enc dec ctx seq intent ps db = Some (Ret fr, db')" and "db_hmacSecret db = Some k"
  shows "df_hmac fr \<noteq> [] \<and> (\<exists>raw. DecodeDCPFrame dec raw = Inr fr \<and> VerifyDCPHMAC raw k)"
  using SendDCP_Ret [OF assms(1)] assms(2) by (auto simp: trusted_def)

lemma ReadFull_delivers:
  "delivers frags p \<Longrightarrow> n = length (concat frags) \<Longrightarrow> \<forall>f \<in> set frags. f \<noteq> [] \<Longrightarrow>
   ReadFull n p = Some (Inr (concat frags), p\<lparr>px_pos := px_pos p + length frags\<rparr>)"
  by (simp add: ReadFull_def read_loop_delivers del: length_concat)

lemma delivers_append:
  "delivers (xs @ ys) p \<longleftrightarrow> delivers xs p \<and> delivers ys (p\<lparr>px_pos := px_pos p + length xs\<rparr>)"
proof (induction xs arbitrary: p)
  case Nil
  then show ?case by (simp add: delivers_def)
next
  case (Cons x xs)
  then show ?case by (simp add: delivers_Cons)
qed

lemma sign_length: "length (sign secret f) = length f + (if secret \<noteq> None then DCPHMACSize else 0)"
  by (auto simp: sign_def AppendDCPHMAC_def DCPHMACSize_def)

text \<open>The reply a device makes: a header with an honest length byte, a payload, the trailer.\<close>

lemma readDCPReply_delivers:
  assumes "delivers (hf @ bf) p" and "\<forall>x \<in> set (hf @ bf). x \<noteq> []" and "length payload < 256"
    and "concat hf = dcp_header kind s i (length payload)"
    and "concat (hf @ bf) = sign secret (dcp_header kind s i (length payload) @ payload)"
    and "DecodeDCPFrame dec (concat (hf @ bf)) = Inr fr"
  shows "\<exists>p'. readDCPReply dec secret p = Some (Inr (fr, concat (hf @ bf)), p')"
proof -
  let ?h = "dcp_header kind s i (length payload)" and ?p = "p\<lparr>px_pos := px_pos p + length hf\<rparr>"
  have rh: "ReadFull DCPHeaderSize p = Some (Inr ?h, ?p)"
    using ReadFull_delivers [of hf p DCPHeaderSize] assms(1,2,4) by (simp add: delivers_append DCPHeaderSize_def)
  have n: "unat (?h ! 5) = length payload" using assms(3) by (simp add: header_list unat_of_nat)
  have "length (concat (hf @ bf)) = 6 + length payload + (if secret \<noteq> None then DCPHMACSize else 0)"
    unfolding assms(5) sign_length by simp
  then have lb: "(if secret \<noteq> None then unat (?h ! 5) + DCPHMACSize else unat (?h ! 5)) = length (concat bf)"
    using assms(4) n by (simp del: length_concat split: if_splits)
  have "ReadFull (length (concat bf)) ?p = Some (Inr (concat bf), ?p\<lparr>px_pos := px_pos ?p + length bf\<rparr>)"
    by (rule ReadFull_delivers) (use assms(1,2) in \<open>simp_all add: delivers_append\<close>)
  then show ?thesis using rh lb assms(4,6) unfolding readDCPReply_def by (simp add: Let_def del: length_concat)
qed

lemma signed_reply_trusted:
  assumes "length payload < 256"
    and "DecodeDCPFrame dec (sign secret (dcp_header kind s i (length payload) @ payload)) = Inr fr"
  shows "trusted secret fr (sign secret (dcp_header kind s i (length payload) @ payload))
    \<and> df_seq fr = s \<and> df_intent fr = i"
proof -
  let ?g = "dcp_header kind s i (length payload) @ payload"
  obtain tr where split: "sign secret ?g = dcp_header kind s i (length payload) @ payload @ tr"
    and tr: "\<And>k. secret = Some k \<Longrightarrow> tr = take DCPHMACSize (hmac_sha256 k ?g)"
    by (cases secret) (auto simp: sign_def AppendDCPHMAC_def)
  have fr: "df_seq fr = s" "df_intent fr = i" "df_hmac fr = tr"
    using assms(2) decode_framed [OF assms(1), of dec kind s i tr] unfolding split
    by (auto split: sum.splits)
  have "trusted secret fr (sign secret ?g)"
  proof (cases secret)
    case (Some k)
    have "length ?g = DCPHeaderSize + unat (?g ! 5)" using assms(1) by (simp add: header_list DCPHeaderSize_def unat_of_nat)
    then have v: "VerifyDCPHMAC (?g @ tr) k" using tr [OF Some] sealed_frame by blast
    have "length tr = 16" using tr [OF Some] by (simp add: DCPHMACSize_def)
    then have "df_hmac fr \<noteq> []" using fr(3) by auto
    with v Some show ?thesis unfolding split by (simp add: trusted_def)
  qed (simp add: trusted_def)
  with fr(1,2) show ?thesis by simp
qed

lemma SendDCP_first:
  assumes "sp_port (db_port db) = Some p" and "EncodeDCPCall enc seq intent ps = Inr f"
    and "ctx 0 = None" and "0 < db_retry db" and "px_write_err p (length (px_sent p)) = None"
    and "readDCPReply dec (db_hmacSecret db) (p\<lparr>px_sent := px_sent p @ [sign (db_hmacSecret db) f]\<rparr>)
      = Some (Inr (fr, raw), p')" and "trusted (db_hmacSecret db) fr raw"
  shows "\<exists>db'. SendDCP enc dec ctx seq intent ps db = Some (Ret fr, db')"
proof -
  obtain left where "nat (db_retry db) = Suc left" using assms(4) by (cases "nat (db_retry db)") auto
  with assms show ?thesis by (simp add: SendDCP_def port_write_def)
qed

text \<open>A well-formed reply that reaches the bridge, in any fragments, is returned as it was
  sent. Its sequence number and intent are not compared with the call's: a signed reply to an
  earlier call is accepted as the answer to this one.\<close>

theorem any_signed_reply_accepted:
  assumes "sp_port (db_port db) = Some p" and "EncodeDCPCall enc seq intent ps = Inr f"
    and "ctx 0 = None" and "0 < db_retry db" and "px_write_err p (length (px_sent p)) = None"
    and "delivers (hf @ bf) p" and "\<forall>x \<in> set (hf @ bf). x \<noteq> []" and "length payload < 256"
    and "concat hf = dcp_header kind s i (length payload)"
    and "concat (hf @ bf) = sign (db_hmacSecret db) (dcp_header kind s i (length payload) @ payload)"
    and "DecodeDCPFrame dec (concat (hf @ bf)) = Inr fr"
  shows "(\<exists>db'. SendDCP enc dec ctx seq intent ps db = Some (Ret fr, db')) \<and> df_seq fr = s \<and> df_intent fr = i"
proof -
  let ?k = "db_hmacSecret db"
  obtain p' where rd: "readDCPReply dec ?k (p\<lparr>px_sent := px_sent p @ [sign ?k f]\<rparr>) = Some (Inr (fr, concat (hf @ bf)), p')"
    using readDCPReply_delivers [of hf bf "p\<lparr>px_sent := px_sent p @ [sign ?k f]\<rparr>" payload kind s i ?k dec fr]
      assms(6-11) by (auto simp: delivers_def)
  have "trusted ?k fr (concat (hf @ bf)) \<and> df_seq fr = s \<and> df_intent fr = i"
    using signed_reply_trusted [OF assms(8)] assms(11) unfolding assms(10) by blast
  with SendDCP_first [of db p enc seq intent ps f ctx] assms(1-5) rd show ?thesis by blast
qed

section \<open>A concrete call\<close>

text \<open>A bridge with a secret, a call with no parameters and a signed reply to an older call.\<close>

definition old_reply :: bytes where
  "old_reply = dcp_header DCPReply 3 0xABCD 0"

definition dcp_demo_port :: port where
  "dcp_demo_port = \<lparr>px_script = nth [RData old_reply, RData (take DCPHMACSize (hmac_sha256 [1, 2, 3] old_reply))],
     px_pos = 0, px_write_err = \<lambda>_. None, px_sent = []\<rparr>"

definition dcp_demo_bridge :: dcp_bridge where
  "dcp_demo_bridge = \<lparr>db_port = \<lparr>sp_port = Some dcp_demo_port, sp_channel = ''/dev/ttyUSB1'', sp_baudrate = 115200,
     sp_connected = True\<rparr>, db_hmacSecret = Some [1, 2, 3], db_retry = 3\<rparr>"

definition old_frame :: dcp_frame where
  "old_frame = \<lparr>df_ver = DCPVersion, df_kind = DCPReply, df_seq = 3, df_intent = 0xABCD, df_payload = None,
     df_hmac = take DCPHMACSize (hmac_sha256 [1, 2, 3] old_reply)\<rparr>"

lemma tag_nonempty: "take DCPHMACSize (hmac_sha256 k f) \<noteq> []"
  by (metis DCPHMACSize_def length_hmac length_take list.size(3) min_def zero_neq_numeral)

lemma demo_delivers:
  "delivers [old_reply, take DCPHMACSize (hmac_sha256 [1, 2, 3] old_reply)] dcp_demo_port"
  by (simp add: delivers_def dcp_demo_port_def less_Suc_eq)

lemma demo_encodes: "EncodeDCPCall empty_map_enc 7 0x1234 [] = Inr [1, 1, 7, 0x12, 0x34, 1, 0xA0]"
  by (simp add: EncodeDCPCall_def empty_map_enc_def header_list DCPMaxPayload_def DCPVersion_def DCPCall_def)

lemma demo_signed: "old_reply @ take DCPHMACSize (hmac_sha256 [1, 2, 3] old_reply) = sign (Some [1, 2, 3]) old_reply"
  by (simp add: sign_def AppendDCPHMAC_def)

lemma demo_decodes: "DecodeDCPFrame empty_map_dec (sign (Some [1, 2, 3]) old_reply) = Inr old_frame"
  using decode_framed [of "[]" empty_map_dec DCPReply 3 "0xABCD" "take DCPHMACSize (hmac_sha256 [1, 2, 3] old_reply)"]
  by (simp add: sign_def AppendDCPHMAC_def old_reply_def old_frame_def)

theorem dcp_call_returns_witness:
  "\<exists>r db' p' fs. SendDCP empty_map_enc empty_map_dec (\<lambda>_. None) 7 0x1234 []
       (dcp_demo_bridge\<lparr>db_port := \<lparr>sp_port = Some (dcp_demo_port\<lparr>px_script := \<lambda>_. RErr ''unplugged''\<rparr>),
          sp_channel = ''x'', sp_baudrate = 1, sp_connected = True\<rparr>\<rparr>) = Some (r, db')
     \<and> sp_port (db_port db') = Some p' \<and> px_sent p' = fs \<and> length fs \<le> 3"
  using dcp_call_returns [of "dcp_demo_bridge\<lparr>db_port := \<lparr>sp_port = Some (dcp_demo_port\<lparr>px_script := \<lambda>_. RErr ''unplugged''\<rparr>),
      sp_channel = ''x'', sp_baudrate = 1, sp_connected = True\<rparr>\<rparr>" "dcp_demo_port\<lparr>px_script := \<lambda>_. RErr ''unplugged''\<rparr>"
      empty_map_enc empty_map_dec "\<lambda>_. None" 7 "0x1234" "[]"]
  by (auto simp: responsive_def dcp_demo_bridge_def dcp_demo_port_def)

theorem any_signed_reply_accepted_witness:
  "\<exists>db'. SendDCP empty_map_enc empty_map_dec (\<lambda>_. None) 7 0x1234 [] dcp_demo_bridge = Some (Ret old_frame, db')"
  using any_signed_reply_accepted [OF _ demo_encodes, where db = dcp_demo_bridge and p = dcp_demo_port and ctx = "\<lambda>_. None"
      and hf = "[old_reply]" and bf = "[take DCPHMACSize (hmac_sha256 [1, 2, 3] old_reply)]" and payload = "[]"
      and kind = DCPReply and s = 3 and i = "0xABCD" and dec = empty_map_dec and fr = old_frame]
    demo_delivers demo_signed demo_decodes tag_nonempty
  by (simp add: dcp_demo_bridge_def) (simp add: dcp_demo_port_def old_reply_def header_list)

theorem returned_reply_authentic_witness:
  "df_hmac old_frame \<noteq> [] \<and> (\<exists>raw. DecodeDCPFrame empty_map_dec raw = Inr old_frame \<and> VerifyDCPHMAC raw [1, 2, 3])"
proof -
  let ?raw = "sign (Some [1, 2, 3]) old_reply"
  have "\<exists>p'. readDCPReply empty_map_dec (Some [1, 2, 3]) (dcp_demo_port\<lparr>px_sent := [sign (Some [1, 2, 3]) f]\<rparr>)
      = Some (Inr (old_frame, ?raw), p')" for f
    using readDCPReply_delivers [of "[old_reply]" "[take DCPHMACSize (hmac_sha256 [1, 2, 3] old_reply)]"
        "dcp_demo_port\<lparr>px_sent := [sign (Some [1, 2, 3]) f]\<rparr>" "[]" DCPReply 3 "0xABCD"]
      demo_delivers demo_signed demo_decodes tag_nonempty
    by (simp add: old_reply_def [symmetric]) (simp add: delivers_def old_reply_def header_list)
  moreover have "trusted (Some [1, 2, 3]) old_frame ?raw"
    using signed_reply_trusted [of "[]" empty_map_dec "Some [1, 2, 3]" DCPReply 3 "0xABCD" old_frame] demo_decodes
    by (simp add: old_reply_def)
  ultimately obtain db' where
    "SendDCP empty_map_enc empty_map_dec (\<lambda>_. None) 7 0x1234 [] dcp_demo_bridge = Some (Ret old_frame, db')"
    using SendDCP_first [OF _ demo_encodes, where db = dcp_demo_bridge and p = dcp_demo_port and ctx = "\<lambda>_. None"
      and dec = empty_map_dec and fr = old_frame and raw = ?raw]
    by (auto simp: dcp_demo_bridge_def) (auto simp: dcp_demo_port_def)
  then show ?thesis by (rule returned_reply_authentic) (simp add: dcp_demo_bridge_def)
qed

end
