(* ===== verification/Hal.thy ===== *)
theory Hal
  imports UrpcBridge DcpBridge
begin

text \<open>
  The device interface of the daemon, \<open>internal/daemon/hal.go\<close>: the Go interface
  \<open>HAL\<close> is the datatype of its three implementations, with one dispatching function per
  method. What the daemon relies on is the locale \<open>hal_contract\<close>: a send neither changes
  the transport nor the connection state.
\<close>

datatype transport = TransportURP | TransportDCP | OtherTransport string

fun transport_name :: "transport \<Rightarrow> string" where
  "transport_name TransportURP = ''urpc''"
| "transport_name TransportDCP = ''dcp''"
| "transport_name (OtherTransport s) = s"

section \<open>The environment of a call\<close>

text \<open>
  What lies outside the program: the context, the runtime's slice capacities, the CBOR library,
  the driver.
\<close>

record hal_env =
  he_ctx :: "nat \<Rightarrow> string option"
  he_cap_at :: "nat \<Rightarrow> nat"
  he_enc :: cbor_enc
  he_dec :: cbor_dec

section \<open>The mock\<close>

record mock_hal =
  mh_OpenFn :: "(string \<Rightarrow> int \<Rightarrow> string option) option"
  mh_SendURFn :: "(urpc_request \<Rightarrow> (bridge_error, urpc_ack) go_result) option"
  mh_SendDFn :: "(u8 \<Rightarrow> u16 \<Rightarrow> params \<Rightarrow> (bridge_error, dcp_frame) go_result) option"
  mh_CloseFn :: "(unit \<Rightarrow> string option) option"
  mh_TType :: "transport option"

definition mock_Open :: "string \<Rightarrow> int \<Rightarrow> mock_hal \<Rightarrow> string option" where
  "mock_Open channel baudrate m = (case mh_OpenFn m of Some f \<Rightarrow> f channel baudrate | None \<Rightarrow> None)"

definition mock_SendURPC :: "urpc_request \<Rightarrow> mock_hal \<Rightarrow> (bridge_error, urpc_ack) go_result" where
  "mock_SendURPC req m =
     (case mh_SendURFn m of Some f \<Rightarrow> f req
      | None \<Rightarrow> Ret \<lparr>ack_seq = req_seq req, ack_status = StatusOK, ack_queue_depth = 0\<rparr>)"

definition mock_SendDCP :: "u8 \<Rightarrow> u16 \<Rightarrow> params \<Rightarrow> mock_hal \<Rightarrow> (bridge_error, dcp_frame) go_result" where
  "mock_SendDCP seq intentID ps m =
     (case mh_SendDFn m of Some f \<Rightarrow> f seq intentID ps
      | None \<Rightarrow> Ret \<lparr>df_ver = DCPVersion, df_kind = DCPReply, df_seq = seq, df_intent = intentID,
          df_payload = None, df_hmac = []\<rparr>)"

definition mock_Close :: "mock_hal \<Rightarrow> string option" where
  "mock_Close m = (case mh_CloseFn m of Some f \<Rightarrow> f () | None \<Rightarrow> None)"

definition mock_Transport :: "mock_hal \<Rightarrow> transport" where
  "mock_Transport m = (case mh_TType m of Some t \<Rightarrow> t | None \<Rightarrow> TransportURP)"

section \<open>The interface\<close>

datatype hal = HSerial serial_bridge | HDcp dcp_bridge | HMock mock_hal

fun hal_Transport :: "hal \<Rightarrow> transport" where
  "hal_Transport (HSerial sb) = TransportURP"
| "hal_Transport (HDcp db) = TransportDCP"
| "hal_Transport (HMock m) = mock_Transport m"

fun hal_IsConnected :: "hal \<Rightarrow> bool" where
  "hal_IsConnected (HSerial sb) = sp_IsConnected (sb_port sb)"
| "hal_IsConnected (HDcp db) = sp_IsConnected (db_port db)"
| "hal_IsConnected (HMock m) = True"

fun hal_Open :: "driver \<Rightarrow> string \<Rightarrow> int \<Rightarrow> hal \<Rightarrow> string option \<times> hal" where
  "hal_Open drv channel baudrate (HSerial sb) =
     (let (e, sp) = sp_Open drv channel baudrate (sb_port sb) in (e, HSerial (sb\<lparr>sb_port := sp\<rparr>)))"
| "hal_Open drv channel baudrate (HDcp db) =
     (let (e, sp) = sp_Open drv channel baudrate (db_port db) in (e, HDcp (db\<lparr>db_port := sp\<rparr>)))"
| "hal_Open drv channel baudrate (HMock m) = (mock_Open channel baudrate m, HMock m)"

fun hal_Close :: "closer \<Rightarrow> hal \<Rightarrow> string option \<times> hal" where
  "hal_Close cls (HSerial sb) = (let (e, sp) = sp_Close cls (sb_port sb) in (e, HSerial (sb\<lparr>sb_port := sp\<rparr>)))"
| "hal_Close cls (HDcp db) = (let (e, sp) = sp_Close cls (db_port db) in (e, HDcp (db\<lparr>db_port := sp\<rparr>)))"
| "hal_Close cls (HMock m) = (mock_Close m, HMock m)"

fun hal_Reconnect :: "driver \<Rightarrow> closer \<Rightarrow> hal \<Rightarrow> string option \<times> hal" where
  "hal_Reconnect drv cls (HSerial sb) =
     (let (e, sp) = sp_Reconnect drv cls (sb_port sb) in (e, HSerial (sb\<lparr>sb_port := sp\<rparr>)))"
| "hal_Reconnect drv cls (HDcp db) =
     (let (e, sp) = sp_Reconnect drv cls (db_port db) in (e, HDcp (db\<lparr>db_port := sp\<rparr>)))"
| "hal_Reconnect drv cls (HMock m) = (None, HMock m)"

fun hal_SendURPC :: "hal_env \<Rightarrow> urpc_request \<Rightarrow> hal \<Rightarrow> ((bridge_error, urpc_ack) go_result \<times> hal) option" where
  "hal_SendURPC env req (HSerial sb) =
     map_option (\<lambda>(r, sb'). (r, HSerial sb')) (SendURPC (he_cap_at env) (he_ctx env) req sb)"
| "hal_SendURPC env req (HDcp db) = map_option (\<lambda>(r, db'). (r, HDcp db')) (db_SendURPC db)"
| "hal_SendURPC env req (HMock m) = Some (mock_SendURPC req m, HMock m)"

fun hal_SendDCP :: "hal_env \<Rightarrow> u8 \<Rightarrow> u16 \<Rightarrow> params \<Rightarrow> hal \<Rightarrow> ((bridge_error, dcp_frame) go_result \<times> hal) option" where
  "hal_SendDCP env seq intentID ps (HSerial sb) = map_option (\<lambda>(r, sb'). (r, HSerial sb')) (sb_SendDCP sb)"
| "hal_SendDCP env seq intentID ps (HDcp db) =
     map_option (\<lambda>(r, db'). (r, HDcp db')) (SendDCP (he_enc env) (he_dec env) (he_ctx env) seq intentID ps db)"
| "hal_SendDCP env seq intentID ps (HMock m) = Some (mock_SendDCP seq intentID ps m, HMock m)"

section \<open>The contract of a send\<close>

locale hal_contract =
  fixes transport :: "'h \<Rightarrow> 't"
    and connected :: "'h \<Rightarrow> bool"
    and send :: "'q \<Rightarrow> 'h \<Rightarrow> ('r \<times> 'h) option"
  assumes send_transport: "send q h = Some (r, h') \<Longrightarrow> transport h' = transport h"
    and send_connected: "send q h = Some (r, h') \<Longrightarrow> connected h' = connected h"
begin

fun sends :: "'q list \<Rightarrow> 'h \<Rightarrow> ('r list \<times> 'h) option" where
  "sends [] h = Some ([], h)"
| "sends (q # qs) h =
     (case send q h of None \<Rightarrow> None
      | Some (r, h') \<Rightarrow> (case sends qs h' of None \<Rightarrow> None | Some (rs, h'') \<Rightarrow> Some (r # rs, h'')))"

lemma sends_keep: "sends qs h = Some (rs, h') \<Longrightarrow> transport h' = transport h \<and> connected h' = connected h \<and> length rs = length qs"
proof (induction qs arbitrary: h rs)
  case (Cons q qs)
  then show ?case by (auto split: option.splits prod.splits dest: send_transport send_connected)
qed simp

end

lemma SendURPC_port:
  "SendURPC cap_at ctx req sb = Some (r, sb') \<Longrightarrow> sp_connected (sb_port sb') = sp_connected (sb_port sb)"
  by (auto simp: SendURPC_def split: sum.splits option.splits)

lemma SendDCP_port:
  "SendDCP enc dec ctx seq i ps db = Some (r, db') \<Longrightarrow> sp_connected (db_port db') = sp_connected (db_port db)"
  by (auto simp: SendDCP_def split: sum.splits option.splits)

interpretation urpc_send: hal_contract hal_Transport hal_IsConnected "\<lambda>(env, req). hal_SendURPC env req"
proof unfold_locales
  fix q h r h'
  assume a: "(case q of (env, req) \<Rightarrow> hal_SendURPC env req) h = Some (r, h')"
  show "hal_Transport h' = hal_Transport h" using a by (cases q; cases h) auto
  show "hal_IsConnected h' = hal_IsConnected h"
    using a by (cases q; cases h) (auto simp: sp_IsConnected_def db_SendURPC_def dest: SendURPC_port)
qed

interpretation dcp_send: hal_contract hal_Transport hal_IsConnected "\<lambda>(env, seq, i, ps). hal_SendDCP env seq i ps"
proof unfold_locales
  fix q h r h'
  assume a: "(case q of (env, seq, i, ps) \<Rightarrow> hal_SendDCP env seq i ps) h = Some (r, h')"
  show "hal_Transport h' = hal_Transport h" using a by (cases q; cases h) auto
  show "hal_IsConnected h' = hal_IsConnected h"
    using a by (cases q; cases h) (auto simp: sp_IsConnected_def sb_SendDCP_def dest: SendDCP_port)
qed

end
