(* ===== verification/Format.thy ===== *)
theory Format
  imports Capability "HOL-Library.List_Lexorder" "HOL-Library.Char_ord"
begin

text \<open>
  The command templates of \<open>internal/daemon/server.go\<close> (\<open>formatURPCPayload\<close>,
  \<open>replacePlaceholder\<close>) and the functions of Go's \<open>strings\<close> package they and the
  shell handler use. Printing a fraction with \<open>%g\<close> is the argument \<open>show_g\<close>, the
  only part of \<open>fmt\<close> that is not written out.
\<close>

section \<open>Package strings\<close>

fun contains_str :: "string \<Rightarrow> string \<Rightarrow> bool" where
  "contains_str p [] = (p = [])"
| "contains_str p (c # s) = (prefix p (c # s) \<or> contains_str p s)"

lemma contains_str_sublist: "contains_str p s \<longleftrightarrow> sublist p s"
  by (induction s) (auto simp: sublist_Cons_right)

text \<open>\<open>strings.ReplaceAll\<close> for a non-empty \<open>old\<close>: leftmost matches, none overlapping.\<close>

fun replace_all :: "string \<Rightarrow> string \<Rightarrow> string \<Rightarrow> string" where
  "replace_all old new [] = []"
| "replace_all old new (c # s) =
     (if old \<noteq> [] \<and> prefix old (c # s) then new @ replace_all old new (drop (length old - 1) s)
      else c # replace_all old new s)"

text \<open>The white space of Unicode in UTF-8, which \<open>strings.TrimSpace\<close> takes off both ends.\<close>

definition space_seqs :: "string list" where
  "space_seqs = [[CHR 0x09], [CHR 0x0A], [CHR 0x0B], [CHR 0x0C], [CHR 0x0D], [CHR 0x20],
     [CHR 0xC2, CHR 0x85], [CHR 0xC2, CHR 0xA0], [CHR 0xE1, CHR 0x9A, CHR 0x80]]
     @ map (\<lambda>n. [CHR 0xE2, CHR 0x80, char_of n]) ([0x80..<0x8B] @ [0xA8, 0xA9, 0xAF])
     @ [[CHR 0xE2, CHR 0x81, CHR 0x9F], [CHR 0xE3, CHR 0x80, CHR 0x80]]"

fun drop_spaces :: "string list \<Rightarrow> nat \<Rightarrow> string \<Rightarrow> string" where
  "drop_spaces sps 0 s = s"
| "drop_spaces sps (Suc n) s =
     (case find (\<lambda>sp. prefix sp s) sps of None \<Rightarrow> s | Some sp \<Rightarrow> drop_spaces sps n (drop (length sp) s))"

definition TrimSpace :: "string \<Rightarrow> string" where
  "TrimSpace s =
     (let t = drop_spaces space_seqs (length s) s
      in rev (drop_spaces (map rev space_seqs) (length t) (rev t)))"

text \<open>\<open>strings.IndexAny\<close> for a set of ASCII characters.\<close>

fun index_any :: "string \<Rightarrow> char list \<Rightarrow> nat option" where
  "index_any [] cs = None"
| "index_any (c # s) cs = (if c \<in> set cs then Some 0 else map_option Suc (index_any s cs))"

fun join :: "string \<Rightarrow> string list \<Rightarrow> string" where
  "join sep [] = []"
| "join sep [x] = x"
| "join sep (x # xs) = x @ sep @ join sep xs"

section \<open>Printing values\<close>

text \<open>The verb \<open>%v\<close>; a map is printed in the order of its keys.\<close>

fun fmt_v :: "(rat \<Rightarrow> string) \<Rightarrow> goval \<Rightarrow> string" where
  "fmt_v g GNil = ''<nil>''"
| "fmt_v g (GBool b) = (if b then ''true'' else ''false'')"
| "fmt_v g (GInt i) = itoa i"
| "fmt_v g (GFloat q) = g q"
| "fmt_v g (GStr s) = s"
| "fmt_v g (GList vs) = ''['' @ join '' '' (map (fmt_v g) vs) @ '']''"
| "fmt_v g (GMap m) = ''map['' @ join '' '' (map (\<lambda>(k, t). k @ '':'' @ t)
      (sort_key fst (map (\<lambda>(k, v). (k, fmt_v g v)) m))) @ '']''"
| "fmt_v g GNilMap = ''map[]''"
| "fmt_v g (GStruct fs) = ''{'' @ join '' '' (map (\<lambda>(k, v). fmt_v g v) fs) @ ''}''"

text \<open>\<open>v == float64(int(v))\<close>: a whole number in the range of a 64-bit integer.\<close>

definition whole_int64 :: "rat \<Rightarrow> bool" where
  "whole_int64 q \<longleftrightarrow> q = of_int \<lfloor>q\<rfloor> \<and> - (2 ^ 63) \<le> \<lfloor>q\<rfloor> \<and> \<lfloor>q\<rfloor> < 2 ^ 63"

fun replacement :: "(rat \<Rightarrow> string) \<Rightarrow> goval \<Rightarrow> string" where
  "replacement g (GFloat q) = (if whole_int64 q then itoa \<lfloor>q\<rfloor> else g q)"
| "replacement g (GInt i) = itoa i"
| "replacement g (GBool b) = (if b then ''1'' else ''0'')"
| "replacement g (GStr s) = s"
| "replacement g v = fmt_v g v"

section \<open>Filling a template\<close>

definition replacePlaceholder :: "(rat \<Rightarrow> string) \<Rightarrow> string \<Rightarrow> string \<Rightarrow> goval \<Rightarrow> string" where
  "replacePlaceholder g s key val = replace_all (''{'' @ key @ ''}'') (replacement g val) s"

definition formatURPCPayload :: "(rat \<Rightarrow> string) \<Rightarrow> string \<Rightarrow> params \<Rightarrow> bytes" where
  "formatURPCPayload g fmtStr params =
     (if fmtStr = [] then []
      else bytes_of_string (foldl (\<lambda>result (k, v). replacePlaceholder g result k v) fmtStr params))"

section \<open>Simultaneous substitution\<close>

text \<open>A template as text and holes; \<open>render\<close> gives the string the code sees.\<close>

datatype seg = Txt string | Hole string

fun render1 :: "seg \<Rightarrow> string" where
  "render1 (Txt t) = t"
| "render1 (Hole k) = ''{'' @ k @ ''}''"

definition render :: "seg list \<Rightarrow> string" where
  "render segs = concat (map render1 segs)"

definition brace_free :: "string \<Rightarrow> bool" where
  "brace_free s \<longleftrightarrow> CHR ''{'' \<notin> set s \<and> CHR ''}'' \<notin> set s"

fun seg_ok :: "seg \<Rightarrow> bool" where
  "seg_ok (Txt t) = brace_free t"
| "seg_ok (Hole k) = brace_free k"

fun fill :: "(string \<Rightarrow> string option) \<Rightarrow> seg \<Rightarrow> seg" where
  "fill m (Txt t) = Txt t"
| "fill m (Hole k) = (case m k of Some r \<Rightarrow> Txt r | None \<Rightarrow> Hole k)"

lemma replace_all_text:
  "CHR ''{'' \<notin> set t \<Longrightarrow> replace_all (CHR ''{'' # k) r (t @ s) = t @ replace_all (CHR ''{'' # k) r s"
  by (induction t) auto

lemma brace_free_match:
  "brace_free k \<Longrightarrow> brace_free w \<Longrightarrow> prefix (k @ ''}'') (w @ ''}'' @ s) \<longleftrightarrow> k = w"
proof (induction k arbitrary: w)
  case Nil
  then show ?case by (cases w) (auto simp: brace_free_def)
next
  case (Cons c k)
  then show ?case by (cases w) (auto simp: brace_free_def)
qed

lemma replace_all_render:
  "brace_free k \<Longrightarrow> \<forall>x \<in> set segs. seg_ok x \<Longrightarrow>
   replace_all (''{'' @ k @ ''}'') r (render segs) = render (map (fill [k \<mapsto> r]) segs)"
proof (induction segs)
  case Nil
  then show ?case by (simp add: render_def)
next
  case (Cons x segs)
  define m where "m = [k \<mapsto> r]"
  have m: "m k = Some r" "\<And>w. w \<noteq> k \<Longrightarrow> m w = None" by (simp_all add: m_def)
  have IH: "replace_all (CHR ''{'' # k @ ''}'') r (render segs) = render (map (fill m) segs)"
    using Cons unfolding m_def by (simp del: fun_upd_apply)
  have r: "render (y # ys) = render1 y @ render ys" for y ys by (simp add: render_def)
  have "replace_all (''{'' @ k @ ''}'') r (render (x # segs)) = render (map (fill m) (x # segs))"
  proof (cases x)
    case (Txt t)
    with Cons.prems IH show ?thesis by (simp add: r replace_all_text brace_free_def)
  next
    case (Hole w)
    with Cons.prems have w: "brace_free w" by simp
    show ?thesis
    proof (cases "w = k")
      case True
      with Hole IH m show ?thesis by (simp add: r)
    next
      case False
      with brace_free_match [OF Cons.prems(1) w, of "render segs"]
      have "\<not> prefix (k @ ''}'') (w @ ''}'' @ render segs)" by simp
      moreover have "replace_all (CHR ''{'' # k @ ''}'') r ((w @ ''}'') @ render segs)
          = (w @ ''}'') @ replace_all (CHR ''{'' # k @ ''}'') r (render segs)"
        using w by (intro replace_all_text) (simp add: brace_free_def)
      ultimately show ?thesis using Hole False IH m by (simp add: r)
    qed
  qed
  then show ?case unfolding m_def .
qed

lemma fill_ok: "(\<And>k r. m k = Some r \<Longrightarrow> brace_free r) \<Longrightarrow> seg_ok x \<Longrightarrow> seg_ok (fill m x)"
  by (cases x) (auto split: option.split)

lemma fill_fill: "fill m2 (fill m1 x) = fill (m2 ++ m1) x"
  by (cases x) (auto simp: map_add_def split: option.split)

definition fillings :: "(rat \<Rightarrow> string) \<Rightarrow> params \<Rightarrow> string \<Rightarrow> string option" where
  "fillings g ps k = map_option (replacement g) (gm_get ps k)"

lemma foldl_fill:
  "\<forall>x \<in> set segs. seg_ok x \<Longrightarrow> \<forall>(k, v) \<in> set ps. brace_free k \<and> brace_free (replacement g v) \<Longrightarrow>
   foldl (\<lambda>result (k, v). replacePlaceholder g result k v) (render segs) ps = render (map (fill (fillings g ps)) segs)"
proof (induction ps arbitrary: segs)
  case Nil
  have "fill (fillings g []) x = x" for x by (cases x) (simp_all add: fillings_def)
  then show ?case by simp
next
  case (Cons kv ps)
  obtain k v where kv: "kv = (k, v)" by fastforce
  let ?segs = "map (fill [k \<mapsto> replacement g v]) segs"
  have "\<forall>x \<in> set ?segs. seg_ok x" using Cons.prems kv by (auto intro!: fill_ok split: if_splits)
  with Cons.IH [of ?segs] Cons.prems(2)
  have "foldl (\<lambda>result (k, v). replacePlaceholder g result k v) (render ?segs) ps
      = render (map (fill (fillings g ps)) ?segs)" by simp
  moreover have "fill (fillings g ps) \<circ> fill [k \<mapsto> replacement g v] = fill (fillings g (kv # ps))"
    unfolding o_def fill_fill by (rule ext, rule arg_cong [where f = "\<lambda>m. fill m x" for x])
      (auto simp: fillings_def kv gm_get_def map_add_def split: option.split)
  ultimately show ?case using replace_all_render [of k segs "replacement g v"] Cons.prems kv
    by (simp add: replacePlaceholder_def)
qed

text \<open>C38: filling a template is simultaneous substitution: if neither the text between the
  placeholders nor the parameter names and values contain braces, then \<open>formatURPCPayload\<close>
  puts for every placeholder the text of the parameter it names and leaves the others, whatever
  the order in which the loop visits the parameter map.\<close>

theorem format_is_substitution:
  assumes "\<forall>x \<in> set segs. seg_ok x"
    and "\<forall>(k, v) \<in> set ps. brace_free k \<and> brace_free (replacement g v)"
  shows "formatURPCPayload g (render segs) ps = bytes_of_string (render (map (fill (fillings g ps)) segs))"
proof (cases "render segs = []")
  case True
  then have "render (map (fill m) segs) = []" for m
    by (induction segs) (auto simp: render_def, (case_tac a; auto)+)
  with True show ?thesis by (simp add: formatURPCPayload_def bytes_of_string_def)
next
  case False
  with foldl_fill [OF assms] show ?thesis by (simp add: formatURPCPayload_def)
qed

theorem format_is_substitution_witness:
  "formatURPCPayload (\<lambda>_. []) ''relay {pin} {state}'' [(''pin'', GFloat 2), (''state'', GBool True)]
   = bytes_of_string ''relay 2 1''"
  using format_is_substitution [of "[Txt ''relay '', Hole ''pin'', Txt '' '', Hole ''state'']"
      "[(''pin'', GFloat 2), (''state'', GBool True)]" "\<lambda>_. []"]
  by (simp add: render_def brace_free_def whole_int64_def itoa_def nat_dec.simps digit_char_def fillings_def
      gm_get_def char_of_def bit_0)

text \<open>Without that restriction the visiting order of the map shows: a string parameter may
  carry the placeholder of another one, and the same arguments then give two different commands.\<close>

theorem placeholder_in_value_order:
  "formatURPCPayload g ''{a}'' [(''a'', GStr ''{b}''), (''b'', GStr ''x'')] = bytes_of_string ''x''
   \<and> formatURPCPayload g ''{a}'' [(''b'', GStr ''x''), (''a'', GStr ''{b}'')] = bytes_of_string ''{b}''"
  by (simp add: formatURPCPayload_def replacePlaceholder_def)

end
