(* ===== verification/Native.thy ===== *)
theory Native
  imports Format
begin

text \<open>
  Capabilities that run on the host, \<open>internal/daemon/native.go\<close>. The operating system is
  the argument \<open>run\<close>: what a process started with an argument vector and a time limit
  answers. Every result comes with the argument vector that was started, if any, so that the
  lemmas can say which commands are ever run.
\<close>

definition shellDangerousChars :: "string list" where
  "shellDangerousChars = ['';'', ''|'', ''&'', ''$('', [CHR 0x60], ''>'', ''<'', ''&&'', ''||'']"

record native_result =
  nr_status :: string
  nr_stdout :: string
  nr_stderr :: string
  nr_exit_code :: int

text \<open>How a started process ends: with code 0, with another code, or it could not be run.\<close>

datatype proc_exit = Exited | ExitError int string | RunError string

type_synonym os_run = "duration \<Rightarrow> string list \<Rightarrow> proc_exit \<times> string \<times> string"

section \<open>Operations\<close>

definition extractBaseCommand :: "string \<Rightarrow> string" where
  "extractBaseCommand cmdStr =
     (let cmdStr = TrimSpace cmdStr in
      case index_any cmdStr [CHR '' '', CHR 0x09] of
        Some idx \<Rightarrow> if idx > 0 then take idx cmdStr else cmdStr
      | None \<Rightarrow> cmdStr)"

definition validateCommandSafety :: "string \<Rightarrow> string option" where
  "validateCommandSafety cmdStr =
     map_option (\<lambda>d. ''command contains dangerous character sequence: \"'' @ d @ ''\"'')
       (find (\<lambda>d. contains_str d cmdStr) shellDangerousChars)"

definition shell_command :: "(rat \<Rightarrow> string) \<Rightarrow> capability \<Rightarrow> params \<Rightarrow> string option" where
  "shell_command g c ps =
     (case gm_get (im_cmd_map (cap_implementation c)) (cap_name c) of
        Some entry \<Rightarrow>
          if cm_fmt entry \<noteq> [] then Some (string_of_bytes (formatURPCPayload g (cm_fmt entry) ps))
          else (case gm_get ps ''command'' of Some (GStr s) \<Rightarrow> Some s | _ \<Rightarrow> None)
      | None \<Rightarrow> (case gm_get ps ''command'' of Some (GStr s) \<Rightarrow> Some s | _ \<Rightarrow> None))"

definition denied :: "string \<Rightarrow> string \<Rightarrow> native_result" where
  "denied status msg = \<lparr>nr_status = status, nr_stdout = [], nr_stderr = msg, nr_exit_code = -1\<rparr>"

definition shell_timeout :: "capability \<Rightarrow> duration" where
  "shell_timeout c =
     (if im_timeout_ms (cap_implementation c) > 0
      then signed_take_bit 63 (im_timeout_ms (cap_implementation c) * millisecond) else 30 * second)"

definition shell_argv :: "bool \<Rightarrow> string \<Rightarrow> string list" where
  "shell_argv windows cmdStr = (if windows then [''cmd'', ''/C'', cmdStr] else [''sh'', ''-c'', cmdStr])"

definition finish :: "proc_exit \<times> string \<times> string \<Rightarrow> native_result" where
  "finish out =
     (case out of
        (Exited, so, se) \<Rightarrow> \<lparr>nr_status = ''ok'', nr_stdout = so, nr_stderr = se, nr_exit_code = 0\<rparr>
      | (ExitError code msg, so, se) \<Rightarrow>
          \<lparr>nr_status = ''error'', nr_stdout = so, nr_stderr = (if se = [] then msg else se), nr_exit_code = code\<rparr>
      | (RunError msg, so, se) \<Rightarrow>
          \<lparr>nr_status = ''error'', nr_stdout = so, nr_stderr = (if se = [] then msg else se), nr_exit_code = -1\<rparr>)"

definition ShellExecute :: "(rat \<Rightarrow> string) \<Rightarrow> bool \<Rightarrow> os_run \<Rightarrow> capability \<Rightarrow> params
    \<Rightarrow> native_result \<times> string list option" where
  "ShellExecute g windows run c ps =
     (case shell_command g c ps of
        None \<Rightarrow> (denied ''error'' ''missing or invalid 'command' parameter'', None)
      | Some cmdStr \<Rightarrow>
          let allowed = im_allowed_commands (cap_implementation c); baseCmd = extractBaseCommand cmdStr in
          if allowed \<noteq> [] \<and> \<not> list_ex (\<lambda>a. baseCmd = a) allowed
          then (denied ''denied'' (''command '' @ [CHR 0x27] @ baseCmd @ [CHR 0x27] @ '' not in allowed list''), None)
          else (case validateCommandSafety cmdStr of
              Some err \<Rightarrow> (denied ''denied'' err, None)
            | None \<Rightarrow>
                let argv = shell_argv windows cmdStr in
                (finish (run (shell_timeout c) argv), Some argv)))"

datatype native_handler = ShellHandler

definition NewNativeHandlerRegistry :: "(string, native_handler) gomap" where
  "NewNativeHandlerRegistry = [(''shell'', ShellHandler)]"

definition ExecuteNative :: "(rat \<Rightarrow> string) \<Rightarrow> bool \<Rightarrow> os_run \<Rightarrow> (string, native_handler) gomap \<Rightarrow> string
    \<Rightarrow> capability \<Rightarrow> params \<Rightarrow> (string + native_result) \<times> string list option" where
  "ExecuteNative g windows run handlers nativeType c ps =
     (case gm_get handlers nativeType of
        None \<Rightarrow> (Inl (''native handler not found: '' @ nativeType), None)
      | Some ShellHandler \<Rightarrow> (case ShellExecute g windows run c ps of (r, started) \<Rightarrow> (Inr r, started)))"

section \<open>Which commands run\<close>

definition cmd_admitted :: "string list \<Rightarrow> string \<Rightarrow> bool" where
  "cmd_admitted allowed cmdStr \<longleftrightarrow>
     (allowed = [] \<or> extractBaseCommand cmdStr \<in> set allowed)
     \<and> (\<forall>d \<in> set shellDangerousChars. \<not> sublist d cmdStr)"

lemma validate_none: "validateCommandSafety s = None \<longleftrightarrow> (\<forall>d \<in> set shellDangerousChars. \<not> sublist d s)"
  unfolding validateCommandSafety_def by (auto simp: find_None_iff contains_str_sublist)

lemma ShellExecute_runs:
  "snd (ShellExecute g windows run c ps) = Some argv \<longleftrightarrow>
    (\<exists>cmd. shell_command g c ps = Some cmd \<and> cmd_admitted (im_allowed_commands (cap_implementation c)) cmd
       \<and> argv = shell_argv windows cmd)"
  unfolding ShellExecute_def cmd_admitted_def validate_none [symmetric]
  by (auto simp: Let_def list_ex_iff split: option.splits)

text \<open>C28: the shell handler starts a process exactly for the commands that pass both guards: the
  command line is the filled template or the \<open>command\<close> parameter, its first word is on the
  whitelist unless that is empty, and none of the nine character sequences occurs in it. Refused
  calls start nothing and answer with exit code -1.\<close>

theorem shell_runs_only_admitted:
  "snd (ShellExecute g windows run c ps) =
     (case shell_command g c ps of
        None \<Rightarrow> None
      | Some cmd \<Rightarrow> if cmd_admitted (im_allowed_commands (cap_implementation c)) cmd
          then Some (shell_argv windows cmd) else None)
   \<and> (snd (ShellExecute g windows run c ps) = None \<longrightarrow>
        nr_exit_code (fst (ShellExecute g windows run c ps)) = -1
        \<and> nr_status (fst (ShellExecute g windows run c ps)) \<in> {''error'', ''denied''})"
proof (intro conjI impI)
  show "snd (ShellExecute g windows run c ps) =
     (case shell_command g c ps of
        None \<Rightarrow> None
      | Some cmd \<Rightarrow> if cmd_admitted (im_allowed_commands (cap_implementation c)) cmd
          then Some (shell_argv windows cmd) else None)"
    unfolding ShellExecute_def cmd_admitted_def validate_none [symmetric]
    by (auto simp: Let_def list_ex_iff split: option.splits)
qed (auto simp: ShellExecute_def denied_def Let_def split: option.splits if_splits)

text \<open>The demonstration device of the repository, which may only \<open>echo\<close>.\<close>

definition echo_capability :: capability where
  "echo_capability = plain_capability ''run'' (zero_implementation\<lparr>im_native := ''shell'',
     im_allowed_commands := [''echo'']\<rparr>)"

definition two_lines :: string where
  "two_lines = ''echo hi'' @ [CHR 0x0A] @ ''rm -r data''"

lemma echo_command: "shell_command g echo_capability [(''command'', GStr s)] = Some s"
  by (simp add: echo_capability_def plain_capability_def zero_implementation_def shell_command_def gm_get_def)

lemma echo_allows: "im_allowed_commands (cap_implementation echo_capability) = [''echo'']"
  by (simp add: echo_capability_def plain_capability_def zero_implementation_def)

lemma rm_base: "extractBaseCommand ''rm -r data'' = ''rm''"
  by code_simp

theorem shell_runs_only_admitted_witness:
  "snd (ShellExecute (\<lambda>_. []) False (\<lambda>_ _. (Exited, [], [])) echo_capability [(''command'', GStr ''rm -r data'')]) = None
   \<and> nr_status (fst (ShellExecute (\<lambda>_. []) False (\<lambda>_ _. (Exited, [], [])) echo_capability [(''command'', GStr ''rm -r data'')])) \<in> {''error'', ''denied''}"
proof -
  let ?g = "\<lambda>_. []" and ?run = "\<lambda>_ _. (Exited, [], [])"
  have "snd (ShellExecute ?g False ?run echo_capability [(''command'', GStr ''rm -r data'')]) = None"
    using shell_runs_only_admitted [of ?g False ?run echo_capability "[(''command'', GStr ''rm -r data'')]"]
    unfolding echo_command by (simp add: cmd_admitted_def rm_base echo_allows)
  with shell_runs_only_admitted [of ?g False ?run echo_capability "[(''command'', GStr ''rm -r data'')]"]
  show ?thesis by simp
qed

text \<open>The guard against command chaining forgets the line break, which a shell reads like a
  semicolon: with \<open>echo\<close> the only allowed command, a command of two lines whose first is an
  \<open>echo\<close> is handed to the shell whole.\<close>

theorem newline_passes_guard:
  "snd (ShellExecute g False run echo_capability [(''command'', GStr two_lines)]) = Some [''sh'', ''-c'', two_lines]
   \<and> ''rm'' \<notin> set (im_allowed_commands (cap_implementation echo_capability))"
proof -
  have "extractBaseCommand two_lines = ''echo''" by code_simp
  moreover have "validateCommandSafety two_lines = None" by code_simp
  ultimately have "cmd_admitted [''echo''] two_lines" by (simp add: cmd_admitted_def validate_none)
  then show ?thesis
    by (simp add: ShellExecute_runs echo_command echo_allows shell_argv_def)
qed

end
