(* ===== verification/Json.thy ===== *)
theory Json
  imports Format
begin

text \<open>
  The part of Go's \<open>encoding/json\<close> the program uses: texts are read by a lexer and a
  stack machine (as the library's own scanner does), and written through their tokens. A number
  keeps its literal. Lengths bound every loop, so no fuel is needed; the library's limit of
  10000 nested brackets is not modelled.
\<close>

section \<open>Values and tokens\<close>

datatype json =
    JNull
  | JBool bool
  | JNum string
  | JStr string
  | JArr "json list"
  | JObj "(string \<times> json) list"

datatype token = TLBrack | TRBrack | TLBrace | TRBrace | TComma | TColon
  | TNull | TBool bool | TNum string | TStr string

definition code :: "char \<Rightarrow> nat" where
  "code c = of_char c"

section \<open>UTF-8\<close>

definition cont :: "char \<Rightarrow> bool" where
  "cont c \<longleftrightarrow> 0x80 \<le> code c \<and> code c \<le> 0xBF"

text \<open>The length of the valid sequence that starts a string, 0 if there is none.\<close>

fun utf8_size :: "string \<Rightarrow> nat" where
  "utf8_size [] = 0"
| "utf8_size (a # s) =
     (if code a < 0x80 then 1
      else case s of [] \<Rightarrow> 0 | b # s1 \<Rightarrow>
        if 0xC2 \<le> code a \<and> code a \<le> 0xDF then (if cont b then 2 else 0)
        else case s1 of [] \<Rightarrow> 0 | c # s2 \<Rightarrow>
          if 0xE0 \<le> code a \<and> code a \<le> 0xEF then
            (if cont b \<and> cont c \<and> (code a = 0xE0 \<longrightarrow> 0xA0 \<le> code b) \<and> (code a = 0xED \<longrightarrow> code b \<le> 0x9F) then 3 else 0)
          else case s2 of [] \<Rightarrow> 0 | d # _ \<Rightarrow>
            if 0xF0 \<le> code a \<and> code a \<le> 0xF4 \<and> cont b \<and> cont c \<and> cont d
               \<and> (code a = 0xF0 \<longrightarrow> 0x90 \<le> code b) \<and> (code a = 0xF4 \<longrightarrow> code b \<le> 0x8F) then 4 else 0)"

definition replacement_char :: string where
  "replacement_char = [CHR 0xEF, CHR 0xBF, CHR 0xBD]"

definition utf8_encode :: "nat \<Rightarrow> string" where
  "utf8_encode r =
     (if r < 0x80 then [char_of r]
      else if r < 0x800 then [char_of (0xC0 + r div 64), char_of (0x80 + r mod 64)]
      else if 0xD800 \<le> r \<and> r \<le> 0xDFFF \<or> 0x10FFFF < r then replacement_char
      else if r < 0x10000 then
        [char_of (0xE0 + r div 4096), char_of (0x80 + r div 64 mod 64), char_of (0x80 + r mod 64)]
      else [char_of (0xF0 + r div 262144), char_of (0x80 + r div 4096 mod 64),
        char_of (0x80 + r div 64 mod 64), char_of (0x80 + r mod 64)])"

section \<open>Reading\<close>

definition hex_val :: "char \<Rightarrow> nat option" where
  "hex_val c =
     (let n = code c in
      if 48 \<le> n \<and> n \<le> 57 then Some (n - 48)
      else if 97 \<le> n \<and> n \<le> 102 then Some (n - 87)
      else if 65 \<le> n \<and> n \<le> 70 then Some (n - 55)
      else None)"

fun hex4 :: "string \<Rightarrow> nat option" where
  "hex4 [a, b, c, d] =
     (case (hex_val a, hex_val b, hex_val c, hex_val d) of
        (Some w, Some x, Some y, Some z) \<Rightarrow> Some (((w * 16 + x) * 16 + y) * 16 + z)
      | _ \<Rightarrow> None)"
| "hex4 _ = None"

text \<open>The second half of a surrogate pair, if one follows.\<close>

definition low_surrogate :: "string \<Rightarrow> nat option" where
  "low_surrogate s =
     (if take 2 s = [CHR 0x5C, CHR ''u''] then
        (case hex4 (take 4 (drop 2 s)) of
           Some l \<Rightarrow> if 0xDC00 \<le> l \<and> l \<le> 0xDFFF then Some l else None
         | None \<Rightarrow> None)
      else None)"

definition simple_escape :: "char \<Rightarrow> char option" where
  "simple_escape c = map_of [(CHR 0x22, CHR 0x22), (CHR 0x5C, CHR 0x5C), (CHR ''/'', CHR ''/''),
     (CHR ''b'', CHR 0x08), (CHR ''f'', CHR 0x0C), (CHR ''n'', CHR 0x0A), (CHR ''r'', CHR 0x0D),
     (CHR ''t'', CHR 0x09)] c"

text \<open>From the inside of a string literal to the string.\<close>

function unquote :: "string \<Rightarrow> string option" where
  "unquote [] = Some []"
| "unquote (c # s) =
     (if c = CHR 0x5C then
        (case s of [] \<Rightarrow> None | e # s1 \<Rightarrow>
          if e = CHR ''u'' then
            (case hex4 (take 4 s1) of None \<Rightarrow> None
             | Some r \<Rightarrow>
                 if 0xD800 \<le> r \<and> r \<le> 0xDFFF then
                   (case low_surrogate (drop 4 s1) of
                      Some l \<Rightarrow> if r \<le> 0xDBFF
                        then map_option ((@) (utf8_encode (0x10000 + (r - 0xD800) * 0x400 + (l - 0xDC00)))) (unquote (drop 10 s1))
                        else map_option ((@) replacement_char) (unquote (drop 4 s1))
                    | None \<Rightarrow> map_option ((@) replacement_char) (unquote (drop 4 s1)))
                 else map_option ((@) (utf8_encode r)) (unquote (drop 4 s1)))
          else (case simple_escape e of None \<Rightarrow> None | Some x \<Rightarrow> map_option ((#) x) (unquote s1)))
      else if code c < 0x80 then map_option ((#) c) (unquote s)
      else (let n = utf8_size (c # s) in
        if n = 0 then map_option ((@) replacement_char) (unquote s)
        else map_option ((@) (take n (c # s))) (unquote (drop (n - 1) s))))"
  by pat_completeness auto
termination by (relation "measure length") auto

text \<open>The literal up to its closing quote, and what follows.\<close>

fun lex_string :: "string \<Rightarrow> (string \<times> string) option" where
  "lex_string [] = None"
| "lex_string (c # s) =
     (if c = CHR 0x22 then Some ([], s)
      else if c = CHR 0x5C then
        (case s of [] \<Rightarrow> None | e # s1 \<Rightarrow> map_option (\<lambda>(raw, t). (c # e # raw, t)) (lex_string s1))
      else if code c < 0x20 then None
      else map_option (\<lambda>(raw, t). (c # raw, t)) (lex_string s))"

definition digit :: "char \<Rightarrow> bool" where
  "digit c \<longleftrightarrow> 48 \<le> code c \<and> code c \<le> 57"

definition num_char :: "char \<Rightarrow> bool" where
  "num_char c \<longleftrightarrow> digit c \<or> c \<in> {CHR ''+'', CHR ''-'', CHR ''.'', CHR ''e'', CHR ''E''}"

definition letter :: "char \<Rightarrow> bool" where
  "letter c \<longleftrightarrow> 97 \<le> code c \<and> code c \<le> 122"

text \<open>The grammar of number literals.\<close>

definition valid_exp :: "string \<Rightarrow> bool" where
  "valid_exp s =
     (case s of [] \<Rightarrow> True
      | c # t \<Rightarrow> c \<in> {CHR ''e'', CHR ''E''} \<and>
          (let d = (case t of x # u \<Rightarrow> if x \<in> {CHR ''+'', CHR ''-''} then u else t | [] \<Rightarrow> [])
           in d \<noteq> [] \<and> list_all digit d))"

definition valid_frac :: "string \<Rightarrow> bool" where
  "valid_frac s =
     (case s of c # t \<Rightarrow> if c = CHR ''.'' then takeWhile digit t \<noteq> [] \<and> valid_exp (dropWhile digit t) else valid_exp s
      | [] \<Rightarrow> True)"

definition valid_number :: "string \<Rightarrow> bool" where
  "valid_number s =
     (let u = (case s of c # t \<Rightarrow> if c = CHR ''-'' then t else s | [] \<Rightarrow> []) in
      case u of [] \<Rightarrow> False
      | c # t \<Rightarrow> if c = CHR ''0'' then valid_frac t
          else digit c \<and> valid_frac (dropWhile digit t))"

definition punct :: "char \<Rightarrow> token option" where
  "punct c = map_of [(CHR ''['', TLBrack), (CHR '']'', TRBrack), (CHR ''{'', TLBrace), (CHR ''}'', TRBrace),
     (CHR '','', TComma), (CHR '':'', TColon)] c"

definition literal :: "string \<Rightarrow> token option" where
  "literal s = map_of [(''null'', TNull), (''true'', TBool True), (''false'', TBool False)] s"

lemma lex_string_shorter: "lex_string s = Some (raw, t) \<Longrightarrow> length t < length s"
  by (induction s arbitrary: raw t rule: lex_string.induct) (fastforce split: if_splits list.splits)+

function lex :: "string \<Rightarrow> token list option" where
  "lex [] = Some []"
| "lex (c # s) =
     (if c \<in> {CHR 0x20, CHR 0x09, CHR 0x0A, CHR 0x0D} then lex s
      else case punct c of Some t \<Rightarrow> map_option ((#) t) (lex s)
      | None \<Rightarrow>
        if c = CHR 0x22 then
          (case lex_string s of None \<Rightarrow> None
           | Some (raw, rest) \<Rightarrow>
               (case unquote raw of None \<Rightarrow> None
                | Some str \<Rightarrow> map_option ((#) (TStr str)) (lex rest)))
        else if num_char c then
          (if valid_number (c # takeWhile num_char s)
           then map_option ((#) (TNum (c # takeWhile num_char s))) (lex (dropWhile num_char s)) else None)
        else (case literal (c # takeWhile letter s) of None \<Rightarrow> None
              | Some t \<Rightarrow> map_option ((#) t) (lex (dropWhile letter s))))"
  by pat_completeness auto
termination by (relation "measure length") (auto simp: le_imp_less_Suc length_dropWhile_le dest: lex_string_shorter)

text \<open>The stack machine: open arrays and objects, and what the next token must be.\<close>

datatype frame = InArr "json list" | InObj "(string \<times> json) list" string

datatype mode =
    BeginValue
  | BeginValueOrEmpty
  | BeginStringOrEmpty
  | BeginString "(string \<times> json) list"
  | WantColon "(string \<times> json) list" string
  | EndValue json

fun begin_value :: "token \<Rightarrow> frame list \<Rightarrow> (mode \<times> frame list) option" where
  "begin_value TNull fs = Some (EndValue JNull, fs)"
| "begin_value (TBool b) fs = Some (EndValue (JBool b), fs)"
| "begin_value (TNum n) fs = Some (EndValue (JNum n), fs)"
| "begin_value (TStr s) fs = Some (EndValue (JStr s), fs)"
| "begin_value TLBrack fs = Some (BeginValueOrEmpty, fs)"
| "begin_value TLBrace fs = Some (BeginStringOrEmpty, fs)"
| "begin_value _ fs = None"

fun jstep :: "mode \<Rightarrow> frame list \<Rightarrow> token \<Rightarrow> (mode \<times> frame list) option" where
  "jstep BeginValue fs t = begin_value t fs"
| "jstep BeginValueOrEmpty fs t = (if t = TRBrack then Some (EndValue (JArr []), fs) else begin_value t (InArr [] # fs))"
| "jstep BeginStringOrEmpty fs t =
     (case t of TRBrace \<Rightarrow> Some (EndValue (JObj []), fs) | TStr k \<Rightarrow> Some (WantColon [] k, fs) | _ \<Rightarrow> None)"
| "jstep (BeginString kvs) fs t = (case t of TStr k \<Rightarrow> Some (WantColon kvs k, fs) | _ \<Rightarrow> None)"
| "jstep (WantColon kvs k) fs t = (if t = TColon then Some (BeginValue, InObj kvs k # fs) else None)"
| "jstep (EndValue v) fs t =
     (case fs of
        [] \<Rightarrow> None
      | InArr vs # fs \<Rightarrow>
          (case t of TComma \<Rightarrow> Some (BeginValue, InArr (vs @ [v]) # fs)
           | TRBrack \<Rightarrow> Some (EndValue (JArr (vs @ [v])), fs) | _ \<Rightarrow> None)
      | InObj kvs k # fs \<Rightarrow>
          (case t of TComma \<Rightarrow> Some (BeginString (kvs @ [(k, v)]), fs)
           | TRBrace \<Rightarrow> Some (EndValue (JObj (kvs @ [(k, v)])), fs) | _ \<Rightarrow> None))"

fun jrun :: "mode \<Rightarrow> frame list \<Rightarrow> token list \<Rightarrow> json option" where
  "jrun m fs [] = (case (m, fs) of (EndValue v, []) \<Rightarrow> Some v | _ \<Rightarrow> None)"
| "jrun m fs (t # ts) = (case jstep m fs t of None \<Rightarrow> None | Some (m', fs') \<Rightarrow> jrun m' fs' ts)"

definition jparse :: "string \<Rightarrow> json option" where
  "jparse s = (case lex s of None \<Rightarrow> None | Some ts \<Rightarrow> jrun BeginValue [] ts)"

section \<open>Writing\<close>

definition hex_lower :: "nat \<Rightarrow> char" where
  "hex_lower d = (if d < 10 then char_of (48 + d) else char_of (87 + d))"

text \<open>One ASCII character; \<open><\<close>, \<open>>\<close> and \<open>&\<close> are escaped as for HTML.\<close>

definition quote1 :: "char \<Rightarrow> string" where
  "quote1 c =
     (if c = CHR 0x22 \<or> c = CHR 0x5C then [CHR 0x5C, c]
      else if c = CHR 0x08 then [CHR 0x5C, CHR ''b'']
      else if c = CHR 0x0C then [CHR 0x5C, CHR ''f'']
      else if c = CHR 0x0A then [CHR 0x5C, CHR ''n'']
      else if c = CHR 0x0D then [CHR 0x5C, CHR ''r'']
      else if c = CHR 0x09 then [CHR 0x5C, CHR ''t'']
      else if code c < 0x20 \<or> c \<in> {CHR ''<'', CHR ''>'', CHR ''&''}
        then [CHR 0x5C, CHR ''u'', CHR ''0'', CHR ''0'', hex_lower (code c div 16), hex_lower (code c mod 16)]
      else [c])"

function quote_body :: "string \<Rightarrow> string" where
  "quote_body [] = []"
| "quote_body (c # s) =
     (if code c < 0x80 then quote1 c @ quote_body s
      else let n = utf8_size (c # s) in
        if n = 0 then [CHR 0x5C] @ ''ufffd'' @ quote_body s
        else (if take n (c # s) = [CHR 0xE2, CHR 0x80, CHR 0xA8] then [CHR 0x5C] @ ''u2028''
              else if take n (c # s) = [CHR 0xE2, CHR 0x80, CHR 0xA9] then [CHR 0x5C] @ ''u2029''
              else take n (c # s)) @ quote_body (drop (n - 1) s))"
  by pat_completeness auto
termination by (relation "measure length") auto

fun token_text :: "token \<Rightarrow> string" where
  "token_text TLBrack = ''[''"
| "token_text TRBrack = '']''"
| "token_text TLBrace = ''{''"
| "token_text TRBrace = ''}''"
| "token_text TComma = '',''"
| "token_text TColon = '':''"
| "token_text TNull = ''null''"
| "token_text (TBool b) = (if b then ''true'' else ''false'')"
| "token_text (TNum n) = n"
| "token_text (TStr s) = [CHR 0x22] @ quote_body s @ [CHR 0x22]"

fun commas :: "token list list \<Rightarrow> token list" where
  "commas [] = []"
| "commas [ts] = ts"
| "commas (ts # tss) = ts @ TComma # commas tss"

fun tokens :: "json \<Rightarrow> token list" where
  "tokens JNull = [TNull]"
| "tokens (JBool b) = [TBool b]"
| "tokens (JNum n) = [TNum n]"
| "tokens (JStr s) = [TStr s]"
| "tokens (JArr vs) = TLBrack # commas (map tokens vs) @ [TRBrack]"
| "tokens (JObj kvs) = TLBrace # commas (map (\<lambda>(k, v). TStr k # TColon # tokens v) kvs) @ [TRBrace]"

definition jprint :: "json \<Rightarrow> string" where
  "jprint v = concat (map token_text (tokens v))"

section \<open>What is written reads back\<close>

text \<open>\<open>utf8.ValidString\<close>\<close>

function valid_utf8 :: "string \<Rightarrow> bool" where
  "valid_utf8 [] = True"
| "valid_utf8 (c # s) = (utf8_size (c # s) \<noteq> 0 \<and> valid_utf8 (drop (utf8_size (c # s) - 1) s))"
  by pat_completeness auto
termination by (relation "measure length") auto

declare valid_utf8.simps(2) [simp del]

lemma valid_utf8_ascii: "code c < 0x80 \<Longrightarrow> valid_utf8 (c # s) = valid_utf8 s"
  by (simp add: valid_utf8.simps)

fun json_ok :: "json \<Rightarrow> bool" where
  "json_ok JNull = True"
| "json_ok (JBool b) = True"
| "json_ok (JNum n) = (valid_number n \<and> list_all num_char n)"
| "json_ok (JStr s) = valid_utf8 s"
| "json_ok (JArr vs) = list_all json_ok vs"
| "json_ok (JObj kvs) = list_all (\<lambda>(k, v). valid_utf8 k \<and> json_ok v) kvs"

lemma code_char_of [simp]: "n < 256 \<Longrightarrow> code (char_of n) = n"
  by (simp add: code_def)

lemma char_of_code [simp]: "char_of (code c) = c"
  by (simp add: code_def)

lemma code_less: "code c < 256"
  using of_char_less_256 [of c] by (simp add: code_def)

lemma code_inj: "code c = code d \<Longrightarrow> c = d"
  by (simp add: code_def)

lemma hex_val_lower: "d < 16 \<Longrightarrow> hex_val (hex_lower d) = Some d"
  by (auto simp: hex_val_def hex_lower_def Let_def)

lemma hex_val_zero: "hex_val (CHR ''0'') = Some 0"
  by (simp add: hex_val_def code_def)

lemma unquote_quote1: "code c < 0x80 \<Longrightarrow> unquote (quote1 c @ s) = map_option ((#) c) (unquote s)"
proof -
  assume a: "code c < 0x80"
  have cons: "(@) [c] = (#) c" by (rule ext) simp
  have "unquote ([CHR 0x5C, CHR ''u'', CHR ''0'', CHR ''0'', hex_lower (code c div 16), hex_lower (code c mod 16)] @ s)
      = map_option ((#) c) (unquote s)"
    using a cons by (simp add: hex_val_lower hex_val_zero utf8_encode_def)
  with a show ?thesis by (auto simp: quote1_def simple_escape_def)
qed

text \<open>A longer sequence: its bytes are not ASCII, and what follows does not change its length.\<close>

lemma utf8_size_sequence:
  assumes "utf8_size (c # s) = n" and "n \<noteq> 0" and "0x80 \<le> code c"
  shows "\<exists>q. s = q @ drop (n - 1) s \<and> length q = n - 1 \<and> (\<forall>x \<in> set q. 0x80 \<le> code x) \<and> (\<forall>t. utf8_size (c # q @ t) = n)"
proof -
  have len: "\<exists>q r. s = q @ r \<and> length q = n - 1 \<and> n \<le> 4 \<and> (\<forall>x \<in> set q. cont x) \<and> (\<forall>t. utf8_size (c # q @ t) = n)"
  proof (cases s)
    case Nil
    then show ?thesis using assms by simp
  next
    case s: (Cons b s1)
    show ?thesis
    proof (cases "0xC2 \<le> code c \<and> code c \<le> 0xDF")
      case True
      then show ?thesis using assms s by (intro exI [of _ "[b]"] exI [of _ s1]) (auto split: if_splits)
    next
      case two: False
      show ?thesis
      proof (cases s1)
        case Nil
        then show ?thesis using assms s two by (simp split: if_splits)
      next
        case s1: (Cons d s2)
        show ?thesis
        proof (cases "0xE0 \<le> code c \<and> code c \<le> 0xEF")
          case True
          then show ?thesis using assms s s1 two by (intro exI [of _ "[b, d]"] exI [of _ s2]) (simp split: if_splits)
        next
          case False
          then show ?thesis using assms s s1 two
            by (cases s2) (auto split: if_splits intro: exI [of _ "[b, d, x]" for x])
        qed
      qed
    qed
  qed
  then obtain q r where q: "s = q @ r" "length q = n - 1" "\<forall>x \<in> set q. cont x" "\<forall>t. utf8_size (c # q @ t) = n" by blast
  then have "drop (n - 1) s = r" by simp
  with q show ?thesis by (intro exI [of _ q]) (auto simp: cont_def)
qed

lemma not_backslash: "0x80 \<le> code c \<Longrightarrow> c \<noteq> CHR 0x5C \<and> c \<noteq> CHR 0x22"
  by (auto simp: code_def)

lemma unquote_sequence:
  assumes "0x80 \<le> code c" and "utf8_size (c # q @ t) = Suc (length q)"
  shows "unquote (c # q @ t) = map_option ((@) (c # q)) (unquote t)"
proof -
  have "(@) (c # q) = (\<lambda>x. c # q @ x)" by (rule ext) simp
  then show ?thesis using assms not_backslash [OF assms(1)] by (simp del: utf8_size.simps)
qed

lemma separator_bytes:
  "char_of (226 :: nat) = CHR 0xE2" "char_of (128 :: nat) = CHR 0x80" "char_of (168 :: nat) = CHR 0xA8"
  "char_of (169 :: nat) = CHR 0xA9"
  by code_simp+

lemma unquote_separator:
  "unquote ([CHR 0x5C] @ ''u2028'' @ t) = map_option ((@) [CHR 0xE2, CHR 0x80, CHR 0xA8]) (unquote t)"
  "unquote ([CHR 0x5C] @ ''u2029'' @ t) = map_option ((@) [CHR 0xE2, CHR 0x80, CHR 0xA9]) (unquote t)"
  by (simp_all add: hex_val_def code_def utf8_encode_def separator_bytes)

lemma lex_string_sequence:
  "\<forall>x \<in> set q. 0x80 \<le> code x \<Longrightarrow> lex_string (q @ t) = map_option (\<lambda>(raw, u). (q @ raw, u)) (lex_string t)"
proof (induction q)
  case Nil
  then show ?case by (simp add: option.map_ident_strong split_def)
next
  case (Cons c q)
  then show ?case using not_backslash [of c] by (simp add: option.map_comp o_def split_def)
qed

text \<open>What the writer makes of one sequence.\<close>

definition quote_sequence :: "string \<Rightarrow> string" where
  "quote_sequence q =
     (if q = [CHR 0xE2, CHR 0x80, CHR 0xA8] then [CHR 0x5C] @ ''u2028''
      else if q = [CHR 0xE2, CHR 0x80, CHR 0xA9] then [CHR 0x5C] @ ''u2029'' else q)"

lemma unquote_quote_sequence:
  "0x80 \<le> code c \<Longrightarrow> \<forall>t. utf8_size (c # q @ t) = Suc (length q) \<Longrightarrow>
   unquote (quote_sequence (c # q) @ t) = map_option ((@) (c # q)) (unquote t)"
  using unquote_sequence [of c q t] unquote_separator [of t] unfolding quote_sequence_def
  by (simp del: unquote.simps utf8_size.simps split: if_split)

lemma lex_string_quote_sequence:
  "\<forall>x \<in> set q. 0x80 \<le> code x \<Longrightarrow> lex_string (quote_sequence q @ t)
     = map_option (\<lambda>(raw, u). (quote_sequence q @ raw, u)) (lex_string t)"
  using lex_string_sequence [of q t]
  by (auto simp: quote_sequence_def option.map_comp o_def split_def code_def)

lemma quote_body_cases:
  assumes "valid_utf8 (c # s)"
  obtains (single) "code c < 0x80" "valid_utf8 s" "quote_body (c # s) = quote1 c @ quote_body s"
    | (sequence) q r where "s = q @ r" "valid_utf8 r" "length r < length (c # s)" "0x80 \<le> code c" "\<forall>x \<in> set (c # q). 0x80 \<le> code x"
        "\<forall>t. utf8_size (c # q @ t) = Suc (length q)" "quote_body (c # s) = quote_sequence (c # q) @ quote_body r"
proof (cases "code c < 0x80")
  case True
  then show ?thesis using assms single by (simp add: valid_utf8_ascii)
next
  case False
  define n where "n = utf8_size (c # s)"
  have n: "n \<noteq> 0" "valid_utf8 (drop (n - 1) s)" using assms by (simp_all add: valid_utf8.simps n_def del: utf8_size.simps)
  obtain q where q: "s = q @ drop (n - 1) s" "length q = n - 1" "\<forall>x \<in> set q. 0x80 \<le> code x" "\<forall>t. utf8_size (c # q @ t) = n"
    using utf8_size_sequence [of c s n] n(1) False by (auto simp: n_def simp del: utf8_size.simps)
  have t: "take n (c # s) = c # q" using q(1,2) n(1) by (cases n) (simp_all, metis append_eq_conv_conj)
  have "quote_body (c # s) = quote_sequence (c # q) @ quote_body (drop (n - 1) s)"
    unfolding quote_body.simps Let_def n_def [symmetric] t quote_sequence_def using False n(1) by (simp del: utf8_size.simps)
  moreover have "Suc (length q) = n" using q(2) n(1) by simp
  ultimately show ?thesis using sequence [of q "drop (n - 1) s"] q n(2) False by auto
qed

lemma unquote_quote: "valid_utf8 s \<Longrightarrow> unquote (quote_body s) = Some s"
proof (induction s rule: length_induct)
  case (1 s)
  show ?case
  proof (cases s)
    case (Cons c u)
    from 1(2) have "valid_utf8 (c # u)" by (simp add: Cons)
    then show ?thesis
    proof (cases rule: quote_body_cases)
      case single
      then show ?thesis using 1(1) Cons by (simp add: unquote_quote1 del: quote_body.simps)
    next
      case (sequence q r)
      then show ?thesis using 1(1) Cons by (simp add: unquote_quote_sequence del: quote_body.simps unquote.simps utf8_size.simps)
    qed
  qed simp
qed

lemma lex_string_quote1:
  "code c < 0x80 \<Longrightarrow> lex_string (quote1 c @ s) = map_option (\<lambda>(raw, t). (quote1 c @ raw, t)) (lex_string s)"
proof -
  assume a: "code c < 0x80"
  have h: "code (hex_lower d) \<ge> 48" "hex_lower d \<noteq> CHR 0x22" "hex_lower d \<noteq> CHR 0x5C" if "d < 16" for d
  proof -
    show ge: "code (hex_lower d) \<ge> 48" using that by (simp add: hex_lower_def)
    then show "hex_lower d \<noteq> CHR 0x22" by (auto simp: code_def)
    have "code (hex_lower d) \<noteq> 92" using that by (simp add: hex_lower_def)
    then show "hex_lower d \<noteq> CHR 0x5C" by (auto simp: code_def)
  qed
  have q: "code c div 16 < 16" "code c mod 16 < 16" using a by simp_all
  have z: "code (CHR ''0'') = 48" by (simp add: code_def)
  have o: "map_option f (map_option g x) = map_option (\<lambda>y. f (g y)) x" for f :: "'b \<Rightarrow> 'c" and g :: "'a \<Rightarrow> 'b" and x
    by (cases x) simp_all
  have "lex_string ([CHR 0x5C, CHR ''u'', CHR ''0'', CHR ''0'', hex_lower (code c div 16), hex_lower (code c mod 16)] @ s)
      = map_option (\<lambda>(raw, t). ([CHR 0x5C, CHR ''u'', CHR ''0'', CHR ''0'', hex_lower (code c div 16), hex_lower (code c mod 16)] @ raw, t)) (lex_string s)"
    using h [OF q(1)] h [OF q(2)] by (simp add: z o split_def)
  with a show ?thesis by (auto simp: quote1_def)
qed

lemma lex_string_quote: "valid_utf8 s \<Longrightarrow> lex_string (quote_body s @ CHR 0x22 # rest) = Some (quote_body s, rest)"
proof (induction s rule: length_induct)
  case (1 s)
  show ?case
  proof (cases s)
    case (Cons c u)
    from 1(2) have "valid_utf8 (c # u)" by (simp add: Cons)
    then show ?thesis
    proof (cases rule: quote_body_cases)
      case single
      then show ?thesis using 1(1) Cons by (simp add: lex_string_quote1 del: quote_body.simps)
    next
      case (sequence q r)
      then show ?thesis using 1(1) Cons by (simp add: lex_string_quote_sequence del: quote_body.simps lex_string.simps)
    qed
  qed simp
qed

text \<open>
  A token list is read back in front of any text that cannot lengthen its last token.
\<close>

definition stops :: "string \<Rightarrow> bool" where
  "stops s \<longleftrightarrow> (case s of [] \<Rightarrow> True | c # _ \<Rightarrow> \<not> num_char c \<and> \<not> letter c)"

definition reads :: "token list \<Rightarrow> bool" where
  "reads ts \<longleftrightarrow> (\<forall>s. stops s \<longrightarrow> lex (concat (map token_text ts) @ s) = map_option ((@) ts) (lex s))"

lemma map_option_append: "map_option ((@) a) (map_option ((@) b) x) = map_option ((@) (a @ b)) x"
  by (cases x) simp_all

lemma map_option_Cons: "map_option ((#) a) (map_option ((@) b) x) = map_option ((@) (a # b)) x"
  by (cases x) simp_all

declare lex.simps [simp del]

abbreviation blanks :: "char set" where
  "blanks \<equiv> {CHR 0x20, CHR 0x09, CHR 0x0A, CHR 0x0D}"

lemma punct_some: "punct c = Some t \<Longrightarrow> c \<in> {CHR ''['', CHR '']'', CHR ''{'', CHR ''}'', CHR '','', CHR '':''}"
  by (simp add: punct_def split: if_splits)

lemma lex_punct: "punct c = Some t \<Longrightarrow> lex (c # s) = map_option ((#) t) (lex s)"
proof -
  assume p: "punct c = Some t"
  then have "c \<notin> blanks" using punct_some [OF p] by fastforce
  with p show ?thesis by (simp add: lex.simps)
qed

lemma punct_text: "t \<in> {TLBrack, TRBrack, TLBrace, TRBrace, TComma, TColon} \<Longrightarrow>
    \<exists>c. token_text t = [c] \<and> punct c = Some t \<and> (\<forall>s. stops (c # s))"
  by (elim insertE emptyE) (simp_all add: punct_def stops_def num_char_def digit_def letter_def code_def)

lemma reads_Nil: "reads []"
proof -
  have "map_option ((@) []) x = x" for x :: "token list option" by (cases x) simp_all
  then show ?thesis by (simp add: reads_def)
qed

lemma reads_punct_append:
  assumes "t \<in> {TLBrack, TRBrack, TLBrace, TRBrace, TComma, TColon}" and "reads a" and "reads b"
  shows "reads (a @ t # b)"
  unfolding reads_def
proof (intro allI impI)
  fix s
  assume "stops s"
  obtain c where c: "token_text t = [c]" "punct c = Some t" "\<And>s. stops (c # s)"
    using punct_text [OF assms(1)] by blast
  let ?rest = "concat (map token_text b) @ s"
  have "lex (concat (map token_text a) @ c # ?rest) = map_option ((@) a) (lex (c # ?rest))"
    using assms(2) c(3) unfolding reads_def by blast
  also have "lex (c # ?rest) = map_option ((#) t) (lex ?rest)" by (rule lex_punct [OF c(2)])
  also have "lex ?rest = map_option ((@) b) (lex s)" using assms(3) \<open>stops s\<close> unfolding reads_def by blast
  finally show "lex (concat (map token_text (a @ t # b)) @ s) = map_option ((@) (a @ t # b)) (lex s)"
    using c(1) by (simp add: map_option_append map_option_Cons)
qed

lemma reads_TStr: "valid_utf8 s \<Longrightarrow> reads [TStr s]"
proof -
  assume a: "valid_utf8 s"
  have "punct (CHR 0x22) = None" by (simp add: punct_def)
  moreover have "(@) [TStr s] = (#) (TStr s)" by (rule ext) simp
  ultimately show ?thesis using lex_string_quote [OF a] unquote_quote [OF a] by (simp add: reads_def lex.simps)
qed

lemma not_num_chars:
  "\<not> num_char (CHR ''['')" "\<not> num_char (CHR '']'')" "\<not> num_char (CHR ''{'')" "\<not> num_char (CHR ''}'')"
  "\<not> num_char (CHR '','')" "\<not> num_char (CHR '':'')" "\<not> num_char (CHR 0x22)" "\<not> num_char (CHR 0x20)"
  "\<not> num_char (CHR 0x09)" "\<not> num_char (CHR 0x0A)" "\<not> num_char (CHR 0x0D)"
  by (simp_all add: num_char_def digit_def code_def)

lemma num_not_punct: "num_char c \<Longrightarrow> punct c = None \<and> c \<noteq> CHR 0x22 \<and> c \<notin> blanks"
proof -
  assume n: "num_char c"
  have "punct c = None" using punct_some [of c] n not_num_chars by (cases "punct c") fastforce+
  with n show ?thesis using not_num_chars by auto
qed

lemma takeWhile_stop:
  "list_all P n \<Longrightarrow> (case s of [] \<Rightarrow> True | c # _ \<Rightarrow> \<not> P c) \<Longrightarrow> takeWhile P (n @ s) = n \<and> dropWhile P (n @ s) = s"
  by (induction n) (auto split: list.splits)

lemma reads_TNum: "valid_number n \<Longrightarrow> list_all num_char n \<Longrightarrow> reads [TNum n]"
  unfolding reads_def
proof (intro allI impI)
  fix s
  assume n: "valid_number n" "list_all num_char n" and "stops s"
  then obtain c m where m: "n = c # m" by (cases n) (auto simp: valid_number_def)
  have "takeWhile num_char (m @ s) = m \<and> dropWhile num_char (m @ s) = s"
    using n m \<open>stops s\<close> by (intro takeWhile_stop) (auto simp: stops_def split: list.splits)
  moreover have "(@) [TNum n] = (#) (TNum n)" by (rule ext) simp
  ultimately show "lex (concat (map token_text [TNum n]) @ s) = map_option ((@) [TNum n]) (lex s)"
    using n m num_not_punct [of c] by (simp add: lex.simps)
qed

lemma reads_literal:
  assumes "literal w = Some t" and "token_text t = w"
  shows "reads [t]"
  unfolding reads_def
proof (intro allI impI)
  fix s
  assume s: "stops s"
  from assms(1) have "w = ''null'' \<or> w = ''true'' \<or> w = ''false''" by (auto simp: literal_def split: if_splits)
  then obtain c m where m: "w = c # m" "list_all letter m" "punct c = None" "\<not> num_char c"
      "c \<notin> {CHR 0x20, CHR 0x09, CHR 0x0A, CHR 0x0D, CHR 0x22}"
    by (elim disjE) (auto simp: letter_def code_def punct_def num_char_def digit_def)
  have "takeWhile letter (m @ s) = m \<and> dropWhile letter (m @ s) = s"
    using m s by (intro takeWhile_stop) (auto simp: stops_def split: list.splits)
  moreover have "(@) [t] = (#) t" by (rule ext) simp
  ultimately show "lex (concat (map token_text [t]) @ s) = map_option ((@) [t]) (lex s)"
    using m assms by (simp add: lex.simps)
qed

lemma reads_commas: "\<forall>ts \<in> set tss. reads ts \<Longrightarrow> reads (commas tss)"
  by (induction tss rule: commas.induct) (auto intro: reads_Nil reads_punct_append)

lemma reads_between:
  assumes "a \<in> {TLBrack, TLBrace}" "b \<in> {TRBrack, TRBrace}" "reads ts"
  shows "reads (a # ts @ [b])"
proof -
  have "reads (ts @ b # [])" using assms by (intro reads_punct_append reads_Nil) auto
  then show ?thesis using reads_punct_append [of a "[]" "ts @ [b]"] assms(1) reads_Nil by auto
qed

lemma reads_tokens: "json_ok v \<Longrightarrow> reads (tokens v)"
proof (induction v)
  case JNull
  show ?case by (simp add: reads_literal [of "''null''"] literal_def)
next
  case (JBool b)
  show ?case by (cases b) (simp_all add: reads_literal [of "''true''"] reads_literal [of "''false''"] literal_def)
next
  case (JArr vs)
  then show ?case by (auto simp: list_all_iff intro!: reads_between reads_commas)
next
  case (JObj kvs)
  have "reads (TStr k # TColon # tokens v)" if "(k, v) \<in> set kvs" for k v
  proof -
    have "reads (tokens v)" "valid_utf8 k" using JObj that by (fastforce simp: list_all_iff)+
    then show ?thesis using reads_punct_append [of TColon "[TStr k]" "tokens v"] reads_TStr by simp
  qed
  then show ?case by (auto intro!: reads_between reads_commas)
qed (simp_all add: reads_TNum reads_TStr)

text \<open>The stack machine rebuilds the value from its tokens.\<close>

lemma jrun_begin: "begin_value t fs = Some (m, fs') \<Longrightarrow> jrun BeginValue fs (t # ts) = jrun m fs' ts"
  by simp

lemma tokens_first: "\<exists>t ts. tokens v = t # ts \<and> t \<noteq> TRBrack"
  by (cases v) auto

lemma jrun_or_empty:
  "jrun BeginValueOrEmpty fs (tokens v @ ts) = jrun BeginValue (InArr [] # fs) (tokens v @ ts)"
  using tokens_first [of v] by auto

lemma jrun_array:
  "vs \<noteq> [] \<Longrightarrow> \<forall>v \<in> set vs. \<forall>fs ts. jrun BeginValue fs (tokens v @ ts) = jrun (EndValue v) fs ts \<Longrightarrow>
   jrun BeginValue (InArr us # fs) (commas (map tokens vs) @ TRBrack # ts) = jrun (EndValue (JArr (us @ vs))) fs ts"
proof (induction vs arbitrary: us)
  case (Cons v vs)
  then show ?case by (cases vs) auto
qed simp

lemma jrun_object:
  "kvs \<noteq> [] \<Longrightarrow> \<forall>(k, v) \<in> set kvs. \<forall>fs ts. jrun BeginValue fs (tokens v @ ts) = jrun (EndValue v) fs ts \<Longrightarrow>
   jrun (BeginString us) fs (commas (map (\<lambda>(k, v). TStr k # TColon # tokens v) kvs) @ TRBrace # ts)
     = jrun (EndValue (JObj (us @ kvs))) fs ts"
proof (induction kvs arbitrary: us)
  case (Cons kv kvs)
  then show ?case by (cases kv; cases kvs) auto
qed simp

lemma jrun_tokens: "jrun BeginValue fs (tokens v @ ts) = jrun (EndValue v) fs ts"
proof (induction v arbitrary: fs ts)
  case (JArr vs)
  show ?case
  proof (cases vs)
    case (Cons v ws)
    have "commas (map tokens vs) @ TRBrack # ts = tokens v @ (if ws = [] then [] else TComma # commas (map tokens ws)) @ TRBrack # ts"
      using Cons by (cases ws) simp_all
    then have "jrun BeginValueOrEmpty fs (commas (map tokens vs) @ TRBrack # ts)
        = jrun BeginValue (InArr [] # fs) (commas (map tokens vs) @ TRBrack # ts)"
      using jrun_or_empty by simp
    with Cons JArr jrun_array [of vs "[]" fs ts] show ?thesis by simp
  qed simp
next
  case (JObj kvs)
  show ?case
  proof (cases kvs)
    case (Cons kv ws)
    obtain k v where kv: "kv = (k, v)" by fastforce
    have "jrun BeginStringOrEmpty fs (commas (map (\<lambda>(k, v). TStr k # TColon # tokens v) kvs) @ TRBrace # ts)
        = jrun (BeginString []) fs (commas (map (\<lambda>(k, v). TStr k # TColon # tokens v) kvs) @ TRBrace # ts)"
      using Cons kv by (cases ws) simp_all
    moreover have "\<forall>(k, v) \<in> set kvs. \<forall>fs ts. jrun BeginValue fs (tokens v @ ts) = jrun (EndValue v) fs ts"
      using JObj by fastforce
    ultimately show ?thesis using Cons jrun_object [of kvs "[]" fs ts] by simp
  qed simp
qed simp_all

lemma jparse_jprint: "json_ok v \<Longrightarrow> jparse (jprint v) = Some v"
proof -
  assume "json_ok v"
  then have "\<forall>s. stops s \<longrightarrow> lex (jprint v @ s) = map_option ((@) (tokens v)) (lex s)"
    using reads_tokens [of v] unfolding reads_def jprint_def by blast
  then have "lex (jprint v @ []) = map_option ((@) (tokens v)) (lex [])"
    by (elim allE [of _ "[]"]) (simp add: stops_def)
  then have "lex (jprint v) = Some (tokens v)" by (simp add: lex.simps)
  then show ?thesis using jrun_tokens [of "[]" v "[]"] by (simp add: jparse_def)
qed

text \<open>\<open>Encode\<close> ends the text with a line break.\<close>

lemma jparse_line: "json_ok v \<Longrightarrow> jparse (jprint v @ [CHR 0x0A]) = Some v"
proof -
  assume "json_ok v"
  then have r: "\<forall>s. stops s \<longrightarrow> lex (jprint v @ s) = map_option ((@) (tokens v)) (lex s)"
    using reads_tokens [of v] unfolding reads_def jprint_def by blast
  have "lex (jprint v @ [CHR 0x0A]) = map_option ((@) (tokens v)) (lex [CHR 0x0A])"
    by (rule r [rule_format]) (simp add: stops_def num_char_def digit_def letter_def code_def)
  then have "lex (jprint v @ [CHR 0x0A]) = Some (tokens v)" by (simp add: lex.simps)
  then show ?thesis using jrun_tokens [of "[]" v "[]"] by (simp add: jparse_def)
qed

section \<open>Whole numbers\<close>

fun digits_val :: "nat \<Rightarrow> string \<Rightarrow> nat option" where
  "digits_val acc [] = Some acc"
| "digits_val acc (c # s) = (if digit c then digits_val (acc * 10 + (code c - 48)) s else None)"

text \<open>\<open>strconv.ParseInt(s, 10, 64)\<close> on the literals the lexer lets through.\<close>

definition parse_int64 :: "string \<Rightarrow> int option" where
  "parse_int64 s =
     (case (case s of c # t \<Rightarrow> if c = CHR ''-'' then map_option (\<lambda>n. - int n) (if t = [] then None else digits_val 0 t)
             else map_option int (digits_val 0 s) | [] \<Rightarrow> None) of
        Some i \<Rightarrow> if - (2 ^ 63) \<le> i \<and> i < 2 ^ 63 then Some i else None
      | None \<Rightarrow> None)"

lemma digits_val_append: "digits_val acc (s @ t) = (case digits_val acc s of None \<Rightarrow> None | Some n \<Rightarrow> digits_val n t)"
  by (induction s arbitrary: acc) simp_all

lemma code_digit: "d < 10 \<Longrightarrow> code (digit_char d) = 48 + d"
  by (simp add: digit_char_def)

lemma digit_digit_char: "d < 10 \<Longrightarrow> digit (digit_char d)"
  by (simp add: digit_def code_digit)

lemma digits_val_nat_dec: "digits_val 0 (nat_dec n) = Some n"
proof (induction n rule: nat_dec.induct)
  case (1 n)
  show ?case
  proof (cases "n < 10")
    case True
    then show ?thesis by (subst nat_dec.simps) (simp add: code_digit digit_digit_char)
  next
    case False
    have "n mod 10 < 10" by simp
    with False 1 show ?thesis
      by (subst nat_dec.simps) (simp add: digits_val_append code_digit digit_digit_char)
  qed
qed

lemma nat_dec_digits: "list_all digit (nat_dec n)"
proof (induction n rule: nat_dec.induct)
  case (1 n)
  then show ?case by (subst nat_dec.simps) (simp add: digit_digit_char)
qed

lemma nat_dec_first: "nat_dec n = c # s \<Longrightarrow> c = CHR ''0'' \<Longrightarrow> s = []"
proof (induction n arbitrary: s rule: nat_dec.induct)
  case (1 n)
  show ?case
  proof (cases "n < 10")
    case True
    with 1 show ?thesis by (simp add: nat_dec.simps [of n])
  next
    case False
    obtain c' t where t: "nat_dec (n div 10) = c' # t" by (cases "nat_dec (n div 10)") auto
    with 1(2) False have eq: "c' = c" "s = t @ [digit_char (n mod 10)]" by (simp_all add: nat_dec.simps [of n])
    with 1(1) [OF False t [unfolded eq]] 1(3) t have "nat_dec (n div 10) = ''0''" by simp
    then have "Some (n div 10) = Some 0" using digits_val_nat_dec [of "n div 10"] by (simp add: digit_def code_def)
    with False show ?thesis by simp
  qed
qed

lemma digit_facts: "digit c \<Longrightarrow> num_char c \<and> c \<noteq> CHR ''-'' \<and> c \<noteq> CHR ''.''"
  by (auto simp: num_char_def digit_def code_def)

lemma nat_dec_head: "\<exists>c s. nat_dec n = c # s \<and> digit c \<and> list_all digit s \<and> (c = CHR ''0'' \<longrightarrow> s = [])"
  using nat_dec_digits [of n] nat_dec_first [of n] by (cases "nat_dec n") auto

lemma valid_nat_dec: "valid_number (nat_dec n) \<and> valid_number (CHR ''-'' # nat_dec n)"
proof -
  obtain c s where cs: "nat_dec n = c # s" "digit c" "list_all digit s" "c = CHR ''0'' \<longrightarrow> s = []"
    using nat_dec_head by blast
  moreover have "dropWhile digit s = []" using cs(3) by (simp add: list_all_iff)
  moreover have "c \<noteq> CHR ''-''" using digit_facts [OF cs(2)] by simp
  ultimately show ?thesis by (simp add: valid_number_def valid_frac_def del: dropWhile_eq_Nil_conv)
qed

lemma itoa_number: "valid_number (itoa i) \<and> list_all num_char (itoa i)"
proof -
  have "list_all num_char (nat_dec n)" for n
    using nat_dec_digits [of n] digit_facts by (auto simp: list_all_iff)
  then show ?thesis by (simp add: itoa_def valid_nat_dec num_char_def)
qed

lemma parse_int64_itoa: "- (2 ^ 63) \<le> i \<Longrightarrow> i < 2 ^ 63 \<Longrightarrow> parse_int64 (itoa i) = Some i"
proof -
  assume i: "- (2 ^ 63) \<le> i" "i < 2 ^ 63"
  obtain c s where cs: "nat_dec (nat i) = c # s" "digit c" using nat_dec_head by blast
  then have "c \<noteq> CHR ''-''" using digit_facts by simp
  then have "\<not> i < 0 \<Longrightarrow> parse_int64 (nat_dec (nat i)) = Some i"
    using i cs(1) digits_val_nat_dec [of "nat i"] by (simp add: parse_int64_def)
  moreover have "i < 0 \<Longrightarrow> parse_int64 (CHR ''-'' # nat_dec (nat (- i))) = Some i"
    using i digits_val_nat_dec [of "nat (- i)"] by (simp add: parse_int64_def)
  ultimately show ?thesis by (simp add: itoa_def)
qed

end
