(* ===== verification/Auth.thy ===== *)
theory Auth
  imports Crypto Json
begin

text \<open>
  Capability tokens, \<open>internal/auth/token.go\<close> (both \<open>TokenManager\<close> aliases lead
  here): base64 of JSON claims, a dot, base64 of their HMAC. Hash, base64 and JSON are written
  out in \<open>Crypto\<close> and \<open>Json\<close>, so minting and verifying are closed functions of
  the secret, the clock and the token.
\<close>

section \<open>Claims and their JSON\<close>

text \<open>A nil slice of capabilities is \<open>None\<close>.\<close>

record token_claims =
  tc_caps :: "string list option"
  tc_exp :: int

definition claims_json :: "token_claims \<Rightarrow> json" where
  "claims_json c = JObj [(''caps'', case tc_caps c of None \<Rightarrow> JNull | Some cs \<Rightarrow> JArr (map JStr cs)),
     (''exp'', JNum (itoa (tc_exp c)))]"

text \<open>Field names are matched by the library's case folding.\<close>

fun fold_name :: "string \<Rightarrow> string" where
  "fold_name [] = []"
| "fold_name (a # s) =
     (if 97 \<le> code a \<and> code a \<le> 122 then char_of (code a - 32) # fold_name s
      else if a = CHR 0xC5 \<and> take 1 s = [CHR 0xBF] then CHR ''S'' # fold_name (drop 1 s)
      else if a = CHR 0xE2 \<and> take 2 s = [CHR 0x84, CHR 0xAA] then CHR ''K'' # fold_name (drop 2 s)
      else a # fold_name s)"

declare fold_name.simps [simp del]

fun decode_elems :: "string list \<Rightarrow> nat \<Rightarrow> json list \<Rightarrow> string list option" where
  "decode_elems old i [] = Some []"
| "decode_elems old i (JStr s # vs) = map_option ((#) s) (decode_elems old (Suc i) vs)"
| "decode_elems old i (JNull # vs) =
     map_option ((#) (if i < length old then old ! i else [])) (decode_elems old (Suc i) vs)"
| "decode_elems old i (_ # vs) = None"

fun decode_caps :: "json \<Rightarrow> string list option \<Rightarrow> string list option option" where
  "decode_caps JNull old = Some None"
| "decode_caps (JArr vs) old = map_option Some (decode_elems (case old of None \<Rightarrow> [] | Some cs \<Rightarrow> cs) 0 vs)"
| "decode_caps _ old = None"

fun decode_exp :: "json \<Rightarrow> int \<Rightarrow> int option" where
  "decode_exp JNull old = Some old"
| "decode_exp (JNum n) old = parse_int64 n"
| "decode_exp _ old = None"

definition decode_field :: "string \<times> json \<Rightarrow> token_claims \<Rightarrow> token_claims option" where
  "decode_field kv c =
     (if fold_name (fst kv) = ''CAPS'' then map_option (\<lambda>cs. c\<lparr>tc_caps := cs\<rparr>) (decode_caps (snd kv) (tc_caps c))
      else if fold_name (fst kv) = ''EXP'' then map_option (\<lambda>e. c\<lparr>tc_exp := e\<rparr>) (decode_exp (snd kv) (tc_exp c))
      else Some c)"

fun decode_fields :: "(string \<times> json) list \<Rightarrow> token_claims \<Rightarrow> token_claims option" where
  "decode_fields [] c = Some c"
| "decode_fields (kv # kvs) c = (case decode_field kv c of None \<Rightarrow> None | Some c' \<Rightarrow> decode_fields kvs c')"

definition unmarshal_claims :: "string \<Rightarrow> token_claims option" where
  "unmarshal_claims s =
     (let zero = \<lparr>tc_caps = None, tc_exp = 0\<rparr> in
      case jparse s of
        Some (JObj kvs) \<Rightarrow> decode_fields kvs zero
      | Some JNull \<Rightarrow> Some zero
      | _ \<Rightarrow> None)"

section \<open>The token manager\<close>

record token_manager =
  tm_secret :: bytes

definition NewTokenManager :: "string \<Rightarrow> token_manager" where
  "NewTokenManager secret = \<lparr>tm_secret = bytes_of_string secret\<rparr>"

text \<open>\<open>crypto/rand\<close> gives 32 bytes or fails.\<close>

definition GenerateSecret :: "bytes option \<Rightarrow> string" where
  "GenerateSecret rand =
     (case rand of Some b \<Rightarrow> b64_encode b
      | None \<Rightarrow> b64_encode (map (\<lambda>i. of_nat (i * 7 + 13)) [0..<32]))"

definition signature :: "token_manager \<Rightarrow> string \<Rightarrow> string" where
  "signature tm payloadB64 = b64_encode (hmac_sha256 (tm_secret tm) (bytes_of_string payloadB64))"

definition Mint :: "token_manager \<Rightarrow> string list option \<Rightarrow> duration \<Rightarrow> go_time \<Rightarrow> string" where
  "Mint tm caps ttl now =
     (let claims = \<lparr>tc_caps = caps, tc_exp = unix (now + ttl)\<rparr>;
          payloadB64 = b64_encode (bytes_of_string (jprint (claims_json claims)))
      in payloadB64 @ ''.'' @ signature tm payloadB64)"

text \<open>\<open>strings.SplitN(token, ".", 2)\<close> when there is a dot.\<close>

fun split_dot :: "string \<Rightarrow> (string \<times> string) option" where
  "split_dot [] = None"
| "split_dot (c # s) = (if c = CHR ''.'' then Some ([], s) else map_option (\<lambda>(a, b). (c # a, b)) (split_dot s))"

datatype token_error = InvalidFormat | InvalidSignature | DecodePayload | UnmarshalClaims | TokenExpired

fun token_error_text :: "token_error \<Rightarrow> string" where
  "token_error_text InvalidFormat = ''invalid token format''"
| "token_error_text InvalidSignature = ''invalid token signature''"
| "token_error_text DecodePayload = ''decode payload: illegal base64 data''"
| "token_error_text UnmarshalClaims = ''unmarshal claims: invalid JSON''"
| "token_error_text TokenExpired = ''token expired''"

definition Verify :: "token_manager \<Rightarrow> string \<Rightarrow> go_time \<Rightarrow> token_error + token_claims" where
  "Verify tm token now =
     (case split_dot token of
        None \<Rightarrow> Inl InvalidFormat
      | Some (p0, p1) \<Rightarrow>
          if p1 \<noteq> signature tm p0 then Inl InvalidSignature
          else (case b64_decode p0 of
              None \<Rightarrow> Inl DecodePayload
            | Some payload \<Rightarrow>
                (case unmarshal_claims (string_of_bytes payload) of
                   None \<Rightarrow> Inl UnmarshalClaims
                 | Some claims \<Rightarrow> if unix now > tc_exp claims then Inl TokenExpired else Inr claims)))"

fun any_cap :: "string \<Rightarrow> string list \<Rightarrow> bool" where
  "any_cap capability [] = False"
| "any_cap capability (c # cs) = (if c = capability \<or> c = ''*'' then True else any_cap capability cs)"

definition CheckCap :: "token_claims \<Rightarrow> string \<Rightarrow> bool" where
  "CheckCap claims capability = any_cap capability (case tc_caps claims of None \<Rightarrow> [] | Some cs \<Rightarrow> cs)"

section \<open>Claims read back\<close>

lemma decode_elems_strings: "decode_elems old i (map JStr cs) = Some cs"
  by (induction cs arbitrary: i) simp_all

lemma fold_names: "fold_name ''caps'' = ''CAPS''" "fold_name ''exp'' = ''EXP''"
  by code_simp+

definition claims_ok :: "token_claims \<Rightarrow> bool" where
  "claims_ok c \<longleftrightarrow> (case tc_caps c of None \<Rightarrow> True | Some cs \<Rightarrow> list_all valid_utf8 cs)
     \<and> - (2 ^ 63) \<le> tc_exp c \<and> tc_exp c < 2 ^ 63"

lemma unmarshal_marshal_claims: "claims_ok c \<Longrightarrow> unmarshal_claims (jprint (claims_json c)) = Some c"
proof -
  assume c: "claims_ok c"
  have "valid_utf8 ''caps''" "valid_utf8 ''exp''" by code_simp+
  then have "json_ok (claims_json c)"
    using c itoa_number by (auto simp: claims_json_def claims_ok_def list_all_iff split: option.splits)
  then have "unmarshal_claims (jprint (claims_json c)) = decode_fields
      [(''caps'', case tc_caps c of None \<Rightarrow> JNull | Some cs \<Rightarrow> JArr (map JStr cs)), (''exp'', JNum (itoa (tc_exp c)))]
      \<lparr>tc_caps = None, tc_exp = 0\<rparr>"
    using jparse_jprint by (simp add: unmarshal_claims_def claims_json_def)
  also have "\<dots> = Some \<lparr>tc_caps = tc_caps c, tc_exp = tc_exp c\<rparr>"
    using c parse_int64_itoa [of "tc_exp c"] fold_names
    by (cases "tc_caps c") (simp_all add: decode_field_def decode_elems_strings claims_ok_def)
  finally show ?thesis by simp
qed

lemma split_dot_append: "CHR ''.'' \<notin> set p \<Longrightarrow> split_dot (p @ CHR ''.'' # s) = Some (p, s)"
  by (induction p) auto

lemma split_dot_some: "split_dot t = Some (p, s) \<Longrightarrow> t = p @ CHR ''.'' # s \<and> CHR ''.'' \<notin> set p"
  by (induction t arbitrary: p) (auto split: if_splits)

lemma any_cap_iff: "any_cap capability cs \<longleftrightarrow> capability \<in> set cs \<or> ''*'' \<in> set cs"
  by (induction cs) auto

lemma Mint_accepted:
  assumes "claims_ok \<lparr>tc_caps = caps, tc_exp = unix (now + ttl)\<rparr>" and "unix later \<le> unix (now + ttl)"
  shows "Verify tm (Mint tm caps ttl now) later = Inr \<lparr>tc_caps = caps, tc_exp = unix (now + ttl)\<rparr>"
  using unmarshal_marshal_claims [OF assms(1)] b64_no_dot assms(2)
  by (auto simp: Verify_def Mint_def Let_def split_dot_append b64_decode_encode)

text \<open>C23: a minted token is good for exactly its lifetime: under the same secret \<open>Verify\<close>
  gives back the very capabilities and expiry it was minted with up to the second the lifetime
  ends, and \<open>token expired\<close> after it. The capability names are valid UTF-8 and the
  expiry fits 64 bits.\<close>

theorem minted_token_verifies:
  assumes "claims_ok \<lparr>tc_caps = caps, tc_exp = unix (now + ttl)\<rparr>"
  shows "Verify tm (Mint tm caps ttl now) later =
    (if unix later \<le> unix (now + ttl) then Inr \<lparr>tc_caps = caps, tc_exp = unix (now + ttl)\<rparr> else Inl TokenExpired)"
  using Mint_accepted [OF assms] unmarshal_marshal_claims [OF assms] b64_no_dot
  by (auto simp: Verify_def Mint_def Let_def split_dot_append b64_decode_encode)

theorem minted_token_verifies_witness:
  "Verify (NewTokenManager ''0123456789abcdef'') (Mint (NewTokenManager ''0123456789abcdef'') (Some [''*'']) (300 * second) 0) 0
     = Inr \<lparr>tc_caps = Some [''*''], tc_exp = 300\<rparr>"
proof -
  have "unix (0 + 300 * second) = 300" "unix 0 = 0" by (simp_all add: unix_def second_def)
  moreover have "claims_ok \<lparr>tc_caps = Some [''*''], tc_exp = 300\<rparr>" by (simp add: claims_ok_def valid_utf8.simps code_def)
  ultimately show ?thesis
    using minted_token_verifies [of "Some [''*'']" 0 "300 * second" "NewTokenManager ''0123456789abcdef''" 0] by simp
qed

text \<open>C24: only who can compute the HMAC gets a token accepted: a token that \<open>Verify\<close>
  accepts is a dot-free payload, a dot and the base64 HMAC of that payload under the manager's
  secret; it has not expired, and its payload holds the claims that are returned.\<close>

theorem accepted_token_signed:
  assumes "Verify tm token now = Inr claims"
  shows "\<exists>p payload. token = p @ ''.'' @ b64_encode (hmac_sha256 (tm_secret tm) (bytes_of_string p))
    \<and> CHR ''.'' \<notin> set p \<and> b64_decode p = Some payload
    \<and> unmarshal_claims (string_of_bytes payload) = Some claims \<and> unix now \<le> tc_exp claims"
  using assms by (auto simp: Verify_def signature_def split: option.splits if_splits dest!: split_dot_some)

theorem accepted_token_signed_witness:
  "\<exists>p payload. Mint (NewTokenManager ''s'') (Some []) (60 * second) 0
      = p @ ''.'' @ b64_encode (hmac_sha256 (tm_secret (NewTokenManager ''s'')) (bytes_of_string p))
    \<and> CHR ''.'' \<notin> set p \<and> b64_decode p = Some payload
    \<and> unmarshal_claims (string_of_bytes payload) = Some \<lparr>tc_caps = Some [], tc_exp = 60\<rparr>
    \<and> unix 0 \<le> tc_exp \<lparr>tc_caps = Some [], tc_exp = 60\<rparr>"
proof (rule accepted_token_signed)
  have "unix (0 + 60 * second) = 60" "unix 0 = 0" by (simp_all add: unix_def second_def)
  then show "Verify (NewTokenManager ''s'') (Mint (NewTokenManager ''s'') (Some []) (60 * second) 0) 0
      = Inr \<lparr>tc_caps = Some [], tc_exp = 60\<rparr>"
    using Mint_accepted [of "Some []" 0 "60 * second" 0] by (simp add: claims_ok_def)
qed

text \<open>\<open>CheckCap\<close> knows two grants only, the capability by its full name and the
  single star; a pattern over the capabilities of one device, as the documentation describes it,
  grants nothing.\<close>

theorem CheckCap_exact:
  "(CheckCap claims capability \<longleftrightarrow> (\<exists>cs. tc_caps claims = Some cs \<and> (capability \<in> set cs \<or> ''*'' \<in> set cs)))
   \<and> \<not> CheckCap \<lparr>tc_caps = Some [''shelf_01.*''], tc_exp = e\<rparr> ''shelf_01.set_relay''"
  by (cases "tc_caps claims") (simp_all add: CheckCap_def any_cap_iff)

end
