(* ===== verification/Message.thy ===== *)
theory Message
  imports Auth
begin

text \<open>
  The JSON envelope between sidecar and daemon, \<open>internal/protocol/message.go\<close>. Two
  functions of the number library are arguments: \<open>show_float\<close>, how \<open>encoding/json\<close>
  writes a \<open>float64\<close>, and \<open>float_of\<close>, the value of a number literal (nothing when it
  is out of range).
\<close>

section \<open>Values of type any\<close>

fun to_json :: "(rat \<Rightarrow> string) \<Rightarrow> goval \<Rightarrow> json" where
  "to_json sf GNil = JNull"
| "to_json sf (GBool b) = JBool b"
| "to_json sf (GInt i) = JNum (itoa i)"
| "to_json sf (GFloat q) = JNum (sf q)"
| "to_json sf (GStr s) = JStr s"
| "to_json sf (GList vs) = JArr (map (to_json sf) vs)"
| "to_json sf (GMap m) = JObj (sort_key fst (map (\<lambda>(k, v). (k, to_json sf v)) m))"
| "to_json sf GNilMap = JNull"
| "to_json sf (GStruct fs) = JObj (map (\<lambda>(k, v). (k, to_json sf v)) fs)"

fun from_json :: "(string \<Rightarrow> rat option) \<Rightarrow> json \<Rightarrow> goval option"
  and from_elems :: "(string \<Rightarrow> rat option) \<Rightarrow> json list \<Rightarrow> goval list option"
  and from_members :: "(string \<Rightarrow> rat option) \<Rightarrow> (string \<times> json) list \<Rightarrow> params \<Rightarrow> params option" where
  "from_json f JNull = Some GNil"
| "from_json f (JBool b) = Some (GBool b)"
| "from_json f (JNum n) = map_option GFloat (f n)"
| "from_json f (JStr s) = Some (GStr s)"
| "from_json f (JArr vs) = map_option GList (from_elems f vs)"
| "from_json f (JObj kvs) = map_option GMap (from_members f kvs [])"
| "from_elems f [] = Some []"
| "from_elems f (v # vs) =
     (case from_json f v of None \<Rightarrow> None | Some x \<Rightarrow> map_option ((#) x) (from_elems f vs))"
| "from_members f [] m = Some m"
| "from_members f ((k, v) # kvs) m =
     (case from_json f v of None \<Rightarrow> None | Some x \<Rightarrow> from_members f kvs (gm_put k x m))"

section \<open>The message\<close>

record sse_message =
  sm_type :: string
  sm_device_id :: string
  sm_capability :: string
  sm_request_id :: string
  sm_job_id :: string
  sm_params :: goval
  sm_status :: string
  sm_message :: string
  sm_result :: goval
  sm_timestamp :: int

definition zero_message :: sse_message where
  "zero_message = \<lparr>sm_type = [], sm_device_id = [], sm_capability = [], sm_request_id = [], sm_job_id = [],
     sm_params = GNil, sm_status = [], sm_message = [], sm_result = GNil, sm_timestamp = 0\<rparr>"

definition omit_empty :: "string \<Rightarrow> string \<Rightarrow> (string \<times> json) list" where
  "omit_empty name s = (if s = [] then [] else [(name, JStr s)])"

definition omit_nil :: "(rat \<Rightarrow> string) \<Rightarrow> string \<Rightarrow> goval \<Rightarrow> (string \<times> json) list" where
  "omit_nil sf name v = (if v = GNil then [] else [(name, to_json sf v)])"

definition message_json :: "(rat \<Rightarrow> string) \<Rightarrow> sse_message \<Rightarrow> json" where
  "message_json sf m = JObj (
     [(''type'', JStr (sm_type m))] @ omit_empty ''device_id'' (sm_device_id m)
     @ omit_empty ''capability'' (sm_capability m) @ omit_empty ''request_id'' (sm_request_id m)
     @ omit_empty ''job_id'' (sm_job_id m) @ omit_nil sf ''params'' (sm_params m)
     @ omit_empty ''status'' (sm_status m) @ omit_empty ''message'' (sm_message m)
     @ omit_nil sf ''result'' (sm_result m) @ [(''timestamp'', JNum (itoa (sm_timestamp m)))])"

definition msg_Marshal :: "(rat \<Rightarrow> string) \<Rightarrow> sse_message \<Rightarrow> string" where
  "msg_Marshal sf m = jprint (message_json sf m)"

fun decode_str :: "json \<Rightarrow> string \<Rightarrow> string option" where
  "decode_str (JStr s) old = Some s"
| "decode_str JNull old = Some old"
| "decode_str _ old = None"

definition message_field :: "(string \<Rightarrow> rat option) \<Rightarrow> string \<times> json \<Rightarrow> sse_message \<Rightarrow> sse_message option" where
  "message_field f kv m =
     (let name = fold_name (fst kv); v = snd kv in
      if name = ''TYPE'' then map_option (\<lambda>s. m\<lparr>sm_type := s\<rparr>) (decode_str v (sm_type m))
      else if name = ''DEVICE_ID'' then map_option (\<lambda>s. m\<lparr>sm_device_id := s\<rparr>) (decode_str v (sm_device_id m))
      else if name = ''CAPABILITY'' then map_option (\<lambda>s. m\<lparr>sm_capability := s\<rparr>) (decode_str v (sm_capability m))
      else if name = ''REQUEST_ID'' then map_option (\<lambda>s. m\<lparr>sm_request_id := s\<rparr>) (decode_str v (sm_request_id m))
      else if name = ''JOB_ID'' then map_option (\<lambda>s. m\<lparr>sm_job_id := s\<rparr>) (decode_str v (sm_job_id m))
      else if name = ''PARAMS'' then map_option (\<lambda>x. m\<lparr>sm_params := x\<rparr>) (from_json f v)
      else if name = ''STATUS'' then map_option (\<lambda>s. m\<lparr>sm_status := s\<rparr>) (decode_str v (sm_status m))
      else if name = ''MESSAGE'' then map_option (\<lambda>s. m\<lparr>sm_message := s\<rparr>) (decode_str v (sm_message m))
      else if name = ''RESULT'' then map_option (\<lambda>x. m\<lparr>sm_result := x\<rparr>) (from_json f v)
      else if name = ''TIMESTAMP'' then map_option (\<lambda>t. m\<lparr>sm_timestamp := t\<rparr>) (decode_exp v (sm_timestamp m))
      else Some m)"

fun message_fields :: "(string \<Rightarrow> rat option) \<Rightarrow> (string \<times> json) list \<Rightarrow> sse_message \<Rightarrow> sse_message option" where
  "message_fields f [] m = Some m"
| "message_fields f (kv # kvs) m =
     (case message_field f kv m of None \<Rightarrow> None | Some m' \<Rightarrow> message_fields f kvs m')"

definition ParseSSEMessage :: "(string \<Rightarrow> rat option) \<Rightarrow> string \<Rightarrow> sse_message option" where
  "ParseSSEMessage f s =
     (case jparse s of
        Some (JObj kvs) \<Rightarrow> message_fields f kvs zero_message
      | Some JNull \<Rightarrow> Some zero_message
      | _ \<Rightarrow> None)"

section \<open>The round trip\<close>

text \<open>
  What a value becomes on the way: a number is read as a \<open>float64\<close>, whatever it was
  written from, a map comes in the order of its keys, and a struct becomes a map of its fields. The number library is required to read
  back the numbers of the value as they were printed.
\<close>

fun read_back :: "goval \<Rightarrow> goval" where
  "read_back (GInt i) = GFloat (of_int i)"
| "read_back (GList vs) = GList (map read_back vs)"
| "read_back (GMap m) = GMap (sort_key fst (map (\<lambda>(k, v). (k, read_back v)) m))"
| "read_back GNilMap = GNil"
| "read_back (GStruct fs) = GMap (map (\<lambda>(k, v). (k, read_back v)) fs)"
| "read_back v = v"

fun any_ok :: "(rat \<Rightarrow> string) \<Rightarrow> (string \<Rightarrow> rat option) \<Rightarrow> goval \<Rightarrow> bool" where
  "any_ok sf f (GInt i) = (f (itoa i) = Some (of_int i))"
| "any_ok sf f (GFloat q) = (f (sf q) = Some q \<and> valid_number (sf q) \<and> list_all num_char (sf q))"
| "any_ok sf f (GStr s) = valid_utf8 s"
| "any_ok sf f (GList vs) = list_all (any_ok sf f) vs"
| "any_ok sf f (GMap m) = (distinct (map fst m) \<and> list_all (\<lambda>(k, v). valid_utf8 k \<and> any_ok sf f v) m)"
| "any_ok sf f (GStruct fs) = (distinct (map fst fs) \<and> list_all (\<lambda>(k, v). valid_utf8 k \<and> any_ok sf f v) fs)"
| "any_ok sf f v = True"

lemma insort_key_map: "insort_key f (g x) (map g xs) = map g (insort_key (f \<circ> g) x xs)"
  by (induction xs) simp_all

lemma sort_key_map_pairs:
  "sort_key fst (map (\<lambda>(k, v). (k, g v)) m) = map (\<lambda>(k, v). (k, g v)) (sort_key fst (m :: (string \<times> 'a) list))"
proof (induction m)
  case (Cons kv m)
  have f: "fst \<circ> (\<lambda>(k, v). (k, g v)) = (fst :: string \<times> 'a \<Rightarrow> string)" by auto
  have "insort_key fst ((\<lambda>(k, v). (k, g v)) kv) (map (\<lambda>(k, v). (k, g v)) (sort_key fst m))
      = map (\<lambda>(k, v). (k, g v)) (insort_key fst kv (sort_key fst m))"
    using insort_key_map [of fst "\<lambda>(k, v). (k, g v)" kv "sort_key fst m"] unfolding f .
  with Cons show ?case by simp
qed simp

lemma gm_put_new: "k \<notin> set (gm_keys m) \<Longrightarrow> gm_put k v m = m @ [(k, v)]"
  by (induction m) (auto simp: gm_put_def gm_keys_def)

lemma from_members_append:
  "\<forall>(k, v) \<in> set kvs. from_json f (g v) = Some (r v) \<Longrightarrow> distinct (gm_keys m @ map fst kvs) \<Longrightarrow>
   from_members f (map (\<lambda>(k, v). (k, g v)) kvs) m = Some (m @ map (\<lambda>(k, v). (k, r v)) kvs)"
proof (induction kvs arbitrary: m)
  case (Cons kv kvs)
  obtain k v where kv: "kv = (k, v)" by fastforce
  from Cons.prems(2) kv have "gm_put k (r v) m = m @ [(k, r v)]" by (auto intro: gm_put_new)
  moreover have "from_members f (map (\<lambda>(k, v). (k, g v)) kvs) (m @ [(k, r v)])
      = Some ((m @ [(k, r v)]) @ map (\<lambda>(k, v). (k, r v)) kvs)"
    using Cons.prems kv by (intro Cons.IH) (auto simp: gm_keys_def)
  ultimately show ?case using Cons.prems(1) kv by simp
qed simp

lemma from_elems_map: "\<forall>v \<in> set vs. from_json f (g v) = Some (r v) \<Longrightarrow> from_elems f (map g vs) = Some (map r vs)"
  by (induction vs) simp_all

lemma from_to_json: "any_ok sf f v \<Longrightarrow> from_json f (to_json sf v) = Some (read_back v) \<and> json_ok (to_json sf v)"
proof (induction v)
  case (GList vs)
  then have "\<forall>v \<in> set vs. from_json f (to_json sf v) = Some (read_back v) \<and> json_ok (to_json sf v)" by (auto simp: list_all_iff)
  then show ?case using from_elems_map [of vs f "to_json sf" read_back] by (simp add: list_all_iff)
next
  case (GMap m)
  let ?s = "sort_key fst m"
  have each: "from_json f (to_json sf v) = Some (read_back v) \<and> json_ok (to_json sf v) \<and> valid_utf8 k" if "(k, v) \<in> set m" for k v
    using GMap that by (fastforce simp: list_all_iff)
  have "distinct (map fst ?s)" using GMap.prems by (simp add: distinct_map)
  then have d: "distinct (gm_keys [] @ map fst ?s)" by (simp add: gm_keys_def)
  have "from_members f (map (\<lambda>(k, v). (k, to_json sf v)) ?s) [] = Some ([] @ map (\<lambda>(k, v). (k, read_back v)) ?s)"
    by (rule from_members_append [OF _ d]) (use each in auto)
  then show ?case using each by (auto simp: sort_key_map_pairs list_all_iff)
next
  case (GStruct fs)
  have each: "from_json f (to_json sf v) = Some (read_back v) \<and> json_ok (to_json sf v) \<and> valid_utf8 k" if "(k, v) \<in> set fs" for k v
    using GStruct that by (fastforce simp: list_all_iff)
  have d: "distinct (gm_keys [] @ map fst fs)" using GStruct.prems by (simp add: gm_keys_def)
  have "from_members f (map (\<lambda>(k, v). (k, to_json sf v)) fs) [] = Some ([] @ map (\<lambda>(k, v). (k, read_back v)) fs)"
    by (rule from_members_append [OF _ d]) (use each in auto)
  then show ?case using each by (auto simp: list_all_iff)
next
  case (GInt i)
  then show ?case by (simp add: itoa_number)
qed simp_all

lemma field_names:
  "fold_name ''type'' = ''TYPE''" "fold_name ''device_id'' = ''DEVICE_ID''" "fold_name ''capability'' = ''CAPABILITY''"
  "fold_name ''request_id'' = ''REQUEST_ID''" "fold_name ''job_id'' = ''JOB_ID''" "fold_name ''params'' = ''PARAMS''"
  "fold_name ''status'' = ''STATUS''" "fold_name ''message'' = ''MESSAGE''" "fold_name ''result'' = ''RESULT''"
  "fold_name ''timestamp'' = ''TIMESTAMP''"
  by code_simp+

text \<open>What each field of an object does to the message.\<close>

lemma message_field_simps:
  "message_field f (''type'', v) m = map_option (\<lambda>s. m\<lparr>sm_type := s\<rparr>) (decode_str v (sm_type m))"
  "message_field f (''device_id'', v) m = map_option (\<lambda>s. m\<lparr>sm_device_id := s\<rparr>) (decode_str v (sm_device_id m))"
  "message_field f (''capability'', v) m = map_option (\<lambda>s. m\<lparr>sm_capability := s\<rparr>) (decode_str v (sm_capability m))"
  "message_field f (''request_id'', v) m = map_option (\<lambda>s. m\<lparr>sm_request_id := s\<rparr>) (decode_str v (sm_request_id m))"
  "message_field f (''job_id'', v) m = map_option (\<lambda>s. m\<lparr>sm_job_id := s\<rparr>) (decode_str v (sm_job_id m))"
  "message_field f (''params'', v) m = map_option (\<lambda>x. m\<lparr>sm_params := x\<rparr>) (from_json f v)"
  "message_field f (''status'', v) m = map_option (\<lambda>s. m\<lparr>sm_status := s\<rparr>) (decode_str v (sm_status m))"
  "message_field f (''message'', v) m = map_option (\<lambda>s. m\<lparr>sm_message := s\<rparr>) (decode_str v (sm_message m))"
  "message_field f (''result'', v) m = map_option (\<lambda>x. m\<lparr>sm_result := x\<rparr>) (from_json f v)"
  "message_field f (''timestamp'', v) m = map_option (\<lambda>t. m\<lparr>sm_timestamp := t\<rparr>) (decode_exp v (sm_timestamp m))"
  by (simp_all add: message_field_def Let_def field_names)

lemma omit_empty_field:
  "message_field f (name, JStr s) m = Some m' \<Longrightarrow> (s = [] \<Longrightarrow> m' = m) \<Longrightarrow>
   message_fields f (omit_empty name s) m = Some m'"
  by (simp add: omit_empty_def)

lemma omit_nil_field:
  "message_field f (name, to_json sf v) m = Some m' \<Longrightarrow> (v = GNil \<Longrightarrow> m' = m) \<Longrightarrow>
   message_fields f (omit_nil sf name v) m = Some m'"
  by (simp add: omit_nil_def)

definition message_read :: "sse_message \<Rightarrow> sse_message" where
  "message_read m = m\<lparr>sm_params := read_back (sm_params m), sm_result := read_back (sm_result m)\<rparr>"

definition message_ok :: "(rat \<Rightarrow> string) \<Rightarrow> (string \<Rightarrow> rat option) \<Rightarrow> sse_message \<Rightarrow> bool" where
  "message_ok sf f m \<longleftrightarrow>
     valid_utf8 (sm_type m) \<and> valid_utf8 (sm_device_id m) \<and> valid_utf8 (sm_capability m) \<and> valid_utf8 (sm_request_id m)
     \<and> valid_utf8 (sm_job_id m) \<and> valid_utf8 (sm_status m) \<and> valid_utf8 (sm_message m)
     \<and> any_ok sf f (sm_params m) \<and> any_ok sf f (sm_result m)
     \<and> - (2 ^ 63) \<le> sm_timestamp m \<and> sm_timestamp m < 2 ^ 63"

lemma message_fields_append:
  "message_fields f (xs @ ys) m = (case message_fields f xs m of None \<Rightarrow> None | Some m' \<Rightarrow> message_fields f ys m')"
  by (induction xs arbitrary: m) (simp_all split: option.split)

lemma names_valid:
  "valid_utf8 ''type''" "valid_utf8 ''device_id''" "valid_utf8 ''capability''" "valid_utf8 ''request_id''" "valid_utf8 ''job_id''" "valid_utf8 ''params''"
  "valid_utf8 ''status''" "valid_utf8 ''message''" "valid_utf8 ''result''" "valid_utf8 ''timestamp''"
  by code_simp+

lemma message_json_ok: "message_ok sf f m \<Longrightarrow> json_ok (message_json sf m)"
  using from_to_json [of sf f "sm_params m"] from_to_json [of sf f "sm_result m"]
  by (simp add: message_ok_def message_json_def omit_empty_def omit_nil_def names_valid itoa_number)

lemma message_fields_json:
  assumes "message_ok sf f m"
  shows "\<exists>kvs. message_json sf m = JObj kvs \<and> message_fields f kvs zero_message = Some (message_read m)"
proof -
  have t: "parse_int64 (itoa (sm_timestamp m)) = Some (sm_timestamp m)"
    using assms parse_int64_itoa by (simp add: message_ok_def)
  have p: "from_json f (to_json sf (sm_params m)) = Some (read_back (sm_params m))"
    and r: "from_json f (to_json sf (sm_result m)) = Some (read_back (sm_result m))"
    using assms from_to_json by (simp_all add: message_ok_def)
  note step = message_fields_append message_field_simps
  let ?A = "[(''type'', JStr (sm_type m))] @ omit_empty ''device_id'' (sm_device_id m)
     @ omit_empty ''capability'' (sm_capability m) @ omit_empty ''request_id'' (sm_request_id m)
     @ omit_empty ''job_id'' (sm_job_id m)"
  let ?B = "omit_nil sf ''params'' (sm_params m)
     @ omit_empty ''status'' (sm_status m) @ omit_empty ''message'' (sm_message m)
     @ omit_nil sf ''result'' (sm_result m) @ [(''timestamp'', JNum (itoa (sm_timestamp m)))]"
  have "message_fields f ?A zero_message
     = Some \<lparr>sm_type = sm_type m, sm_device_id = sm_device_id m, sm_capability = sm_capability m,
         sm_request_id = sm_request_id m, sm_job_id = sm_job_id m, sm_params = GNil, sm_status = [], sm_message = [],
         sm_result = GNil, sm_timestamp = 0\<rparr>"
    by (simp add: step omit_empty_field zero_message_def)
  moreover have "message_fields f ?B
     \<lparr>sm_type = a, sm_device_id = b, sm_capability = c, sm_request_id = d, sm_job_id = e, sm_params = GNil,
        sm_status = [], sm_message = [], sm_result = GNil, sm_timestamp = 0\<rparr>
     = Some \<lparr>sm_type = a, sm_device_id = b, sm_capability = c, sm_request_id = d, sm_job_id = e,
        sm_params = read_back (sm_params m), sm_status = sm_status m, sm_message = sm_message m,
        sm_result = read_back (sm_result m), sm_timestamp = sm_timestamp m\<rparr>" for a b c d e
    by (simp add: step omit_empty_field omit_nil_field p r t)
  ultimately have "message_fields f (?A @ ?B) zero_message = Some (message_read m)"
    unfolding message_fields_append [of f ?A ?B] by (simp add: message_read_def)
  then show ?thesis unfolding message_json_def by simp
qed

lemma Parse_Marshal: "message_ok sf f m \<Longrightarrow> ParseSSEMessage f (msg_Marshal sf m) = Some (message_read m)"
  using message_fields_json [of sf f m] jparse_jprint [OF message_json_ok [of sf f m]]
  by (auto simp: ParseSSEMessage_def msg_Marshal_def)

lemma Parse_line: "message_ok sf f m \<Longrightarrow> ParseSSEMessage f (msg_Marshal sf m @ [CHR 0x0A]) = Some (message_read m)"
  using message_fields_json [of sf f m] jparse_line [OF message_json_ok [of sf f m]]
  by (auto simp: ParseSSEMessage_def msg_Marshal_def)

text \<open>C25: an envelope survives the trip between sidecar and daemon, with or without the final
  line break: parsing what \<open>Marshal\<close> wrote gives the same message, field for field, empty
  fields being left out on the way; only the numbers in \<open>params\<close> and \<open>result\<close> come
  back as floating point, maps in the order of their keys, structs as maps and a typed nil map as
  nil. The strings are valid UTF-8, and of the number library it is assumed that the numbers in the
  message read back as printed.\<close>

theorem message_round_trip:
  assumes "message_ok sf f m"
  shows "ParseSSEMessage f (msg_Marshal sf m) = Some (message_read m)
    \<and> ParseSSEMessage f (msg_Marshal sf m @ [CHR 0x0A]) = Some (message_read m)"
  using Parse_Marshal [OF assms] Parse_line [OF assms] by simp

definition sample_message :: sse_message where
  "sample_message = zero_message\<lparr>sm_type := ''invoke'', sm_device_id := ''shelf_01'', sm_capability := ''set_relay'',
     sm_params := GMap [(''state'', GBool True), (''pin'', GInt 1)], sm_timestamp := 1718600030\<rparr>"

theorem message_round_trip_witness:
  "ParseSSEMessage (map_option of_int \<circ> parse_int64) (msg_Marshal (\<lambda>q. itoa \<lfloor>q\<rfloor>) sample_message)
     = Some (sample_message\<lparr>sm_params := GMap [(''pin'', GFloat 1), (''state'', GBool True)]\<rparr>)"
proof -
  have "valid_utf8 ''invoke''" "valid_utf8 ''shelf_01''" "valid_utf8 ''set_relay''" "valid_utf8 ''pin''" "valid_utf8 ''state''" "valid_utf8 []"
    by code_simp+
  moreover have "parse_int64 (itoa 1) = Some 1" by (rule parse_int64_itoa) simp_all
  ultimately have "message_ok (\<lambda>q. itoa \<lfloor>q\<rfloor>) (map_option of_int \<circ> parse_int64) sample_message"
    by (simp add: message_ok_def sample_message_def zero_message_def)
  moreover have "sort_key fst [(''state'', GBool True), (''pin'', GFloat 1)] = [(''pin'', GFloat 1), (''state'', GBool True)]"
    by code_simp
  ultimately show ?thesis
    using message_round_trip [of "\<lambda>q. itoa \<lfloor>q\<rfloor>" "map_option of_int \<circ> parse_int64" sample_message]
    by (simp add: message_read_def sample_message_def zero_message_def)
qed

end
