(* ===== verification/RateLimiter.thy ===== *)
theory RateLimiter
  imports Stores
begin

text \<open>
  The per-client limiter of \<open>internal/daemon/rate_limiter.go\<close>: a token bucket per key that
  is refilled only after a whole idle window, and a sweep that forgets idle buckets. The
  lemmas show that no window ever holds more admitted requests than the rate, that the
  sweep cannot be observed, and when a request is admitted or refused.
\<close>

section \<open>State and operations\<close>

record bucket =
  bk_tokens :: int
  bk_last :: go_time

text \<open>\<open>rl_last_sweep\<close> is \<open>None\<close> for the zero time, before the first sweep.\<close>

record rate_limiter =
  rl_buckets :: "(string, bucket) gomap"
  rl_rate :: int
  rl_window :: duration
  rl_last_sweep :: "go_time option"

definition NewRateLimiter :: "int \<Rightarrow> duration \<Rightarrow> rate_limiter" where
  "NewRateLimiter rate window =
     \<lparr>rl_buckets = [], rl_rate = rate, rl_window = window, rl_last_sweep = None\<rparr>"

definition sweep :: "go_time \<Rightarrow> rate_limiter \<Rightarrow> rate_limiter" where
  "sweep now rl =
     (let cutoff = now + (- 2) * rl_window rl in
      rl\<lparr>rl_buckets := gm_prune (\<lambda>k b. bk_last b < cutoff) (rl_buckets rl)\<rparr>)"

definition sweep_if_due :: "go_time \<Rightarrow> rate_limiter \<Rightarrow> rate_limiter" where
  "sweep_if_due now rl =
     (if (case rl_last_sweep rl of None \<Rightarrow> True | Some t \<Rightarrow> now - t > rl_window rl)
      then (sweep now rl)\<lparr>rl_last_sweep := Some now\<rparr> else rl)"

definition take_token :: "go_time \<Rightarrow> string \<Rightarrow> rate_limiter \<Rightarrow> bool \<times> rate_limiter" where
  "take_token now key rl =
     (let set_bucket = (\<lambda>b. rl\<lparr>rl_buckets := gm_put key b (rl_buckets rl)\<rparr>) in
      case gm_get (rl_buckets rl) key of
        None \<Rightarrow> (True, set_bucket \<lparr>bk_tokens = rl_rate rl - 1, bk_last = now\<rparr>)
      | Some b \<Rightarrow>
          if now - bk_last b \<ge> rl_window rl
          then (True, set_bucket \<lparr>bk_tokens = rl_rate rl - 1, bk_last = now\<rparr>)
          else if bk_tokens b \<le> 0 then (False, rl)
          else (True, set_bucket \<lparr>bk_tokens = bk_tokens b - 1, bk_last = now\<rparr>))"

definition Allow :: "go_time \<Rightarrow> string \<Rightarrow> rate_limiter \<Rightarrow> bool \<times> rate_limiter" where
  "Allow now key rl = take_token now key (sweep_if_due now rl)"

section \<open>Frames of the operations\<close>

lemma sweep_frame [simp]:
  "rl_rate (sweep now rl) = rl_rate rl" "rl_window (sweep now rl) = rl_window rl"
  by (simp_all add: sweep_def Let_def)

lemma sweep_if_due_frame [simp]:
  "rl_rate (sweep_if_due now rl) = rl_rate rl" "rl_window (sweep_if_due now rl) = rl_window rl"
  by (simp_all add: sweep_if_due_def)

lemma take_token_frame [simp]:
  "rl_rate (snd (take_token now key rl)) = rl_rate rl"
  "rl_window (snd (take_token now key rl)) = rl_window rl"
  by (simp_all add: take_token_def Let_def split: option.split)

lemma Allow_frame [simp]:
  "rl_rate (snd (Allow now key rl)) = rl_rate rl"
  "rl_window (snd (Allow now key rl)) = rl_window rl"
  by (simp_all add: Allow_def)

lemma gm_ok_sweep_if_due: "gm_ok (rl_buckets rl) \<Longrightarrow> gm_ok (rl_buckets (sweep_if_due now rl))"
  by (simp add: sweep_if_due_def sweep_def Let_def)

lemma gm_ok_take_token: "gm_ok (rl_buckets rl) \<Longrightarrow> gm_ok (rl_buckets (snd (take_token now key rl)))"
  by (simp add: take_token_def Let_def split: option.split)

lemma gm_ok_Allow: "gm_ok (rl_buckets rl) \<Longrightarrow> gm_ok (rl_buckets (snd (Allow now key rl)))"
  by (simp add: Allow_def gm_ok_sweep_if_due gm_ok_take_token)

lemma get_sweep_if_due:
  "gm_ok (rl_buckets rl) \<Longrightarrow>
   gm_get (rl_buckets (sweep_if_due now rl)) key = gm_get (rl_buckets rl) key
   \<or> gm_get (rl_buckets (sweep_if_due now rl)) key = None
     \<and> (\<exists>b. gm_get (rl_buckets rl) key = Some b \<and> bk_last b < now - 2 * rl_window rl)"
  by (auto simp: sweep_if_due_def sweep_def Let_def gm_get_prune split: option.split)

lemma take_token_other:
  "k \<noteq> key \<Longrightarrow> gm_get (rl_buckets (snd (take_token now k rl))) key = gm_get (rl_buckets rl) key"
  by (simp add: take_token_def Let_def split: option.split)

section \<open>The sweep cannot be observed\<close>

text \<open>Two limiters are alike from time \<open>t\<close> on when they hold the same buckets younger than a window.\<close>

definition young :: "duration \<Rightarrow> go_time \<Rightarrow> bucket option \<Rightarrow> bucket option" where
  "young w t b = (case b of None \<Rightarrow> None | Some b \<Rightarrow> if t - bk_last b < w then Some b else None)"

definition limiter_good :: "rate_limiter \<Rightarrow> bool" where
  "limiter_good rl \<longleftrightarrow> gm_ok (rl_buckets rl) \<and> 0 \<le> rl_window rl"

definition limiter_like :: "go_time \<Rightarrow> rate_limiter \<Rightarrow> rate_limiter \<Rightarrow> bool" where
  "limiter_like t rl rl' \<longleftrightarrow> limiter_good rl \<and> limiter_good rl' \<and> rl_rate rl = rl_rate rl'
     \<and> rl_window rl = rl_window rl'
     \<and> (\<forall>k. young (rl_window rl) t (gm_get (rl_buckets rl) k)
            = young (rl_window rl) t (gm_get (rl_buckets rl') k))"

lemma young_later: "young w t b = young w t b' \<Longrightarrow> t \<le> t' \<Longrightarrow> young w t' b = young w t' b'"
  by (auto simp: young_def split: option.splits if_splits)

lemma take_token_young:
  "take_token now key rl =
     (case young (rl_window rl) now (gm_get (rl_buckets rl) key) of
        None \<Rightarrow> (True, rl\<lparr>rl_buckets := gm_put key \<lparr>bk_tokens = rl_rate rl - 1, bk_last = now\<rparr> (rl_buckets rl)\<rparr>)
      | Some b \<Rightarrow> if bk_tokens b \<le> 0 then (False, rl)
          else (True, rl\<lparr>rl_buckets := gm_put key \<lparr>bk_tokens = bk_tokens b - 1, bk_last = now\<rparr> (rl_buckets rl)\<rparr>))"
  by (auto simp: take_token_def young_def Let_def split: option.split)

lemma limiter_like_verdict:
  "limiter_like t rl rl' \<Longrightarrow> fst (take_token t k rl) = fst (take_token t k rl')"
  by (auto simp: take_token_young limiter_like_def split: option.split)

lemma limiter_like_next:
  assumes "limiter_like t rl rl'"
  shows "limiter_like t (snd (take_token t k rl)) (snd (take_token t k rl'))"
proof -
  from assms have "young (rl_window rl) t (gm_get (rl_buckets rl) k)
      = young (rl_window rl') t (gm_get (rl_buckets rl') k)"
    unfolding limiter_like_def by metis
  with assms show ?thesis
    by (auto simp: take_token_young limiter_like_def limiter_good_def split: option.split)
qed

lemma young_swept:
  "gm_ok (rl_buckets rl) \<Longrightarrow> 0 \<le> rl_window rl \<Longrightarrow>
   young (rl_window rl) t (gm_get (rl_buckets (sweep t rl)) k) = young (rl_window rl) t (gm_get (rl_buckets rl) k)"
  by (auto simp: sweep_def Let_def gm_get_prune young_def split: option.split)

lemma limiter_good_sweep: "limiter_good rl \<Longrightarrow> limiter_good (sweep t rl)"
  by (simp add: limiter_good_def sweep_def Let_def)

lemma limiter_like_sweep: "limiter_like t rl rl' \<Longrightarrow> limiter_like t rl (sweep t rl')"
  unfolding limiter_like_def
  by (metis limiter_good_def limiter_good_sweep sweep_frame young_swept)

interpretation limiter_gate: gate take_token sweep limiter_good limiter_like
proof unfold_locales
  fix s s' :: rate_limiter and t t' :: go_time
  assume "limiter_like t s s'" and "t \<le> t'"
  then show "limiter_like t' s s'" unfolding limiter_like_def by (metis young_later)
qed (auto simp: limiter_like_verdict limiter_like_next limiter_like_sweep, simp add: limiter_like_def)

section \<open>Running a limiter\<close>

fun limiter_run :: "rate_limiter \<Rightarrow> (go_time \<times> string) list \<Rightarrow> bool list" where
  "limiter_run rl [] = []"
| "limiter_run rl ((t, key) # evs) = fst (Allow t key rl) # limiter_run (snd (Allow t key rl)) evs"

text \<open>The specification: token buckets that are never forgotten.\<close>

fun bucket_run :: "rate_limiter \<Rightarrow> (go_time \<times> string) list \<Rightarrow> bool list" where
  "bucket_run rl [] = []"
| "bucket_run rl ((t, key) # evs) = fst (take_token t key rl) # bucket_run (snd (take_token t key rl)) evs"

lemma limiter_like_stamp [simp]:
  "limiter_like t rl (rl'\<lparr>rl_last_sweep := x\<rparr>) = limiter_like t rl rl'"
  by (simp add: limiter_like_def limiter_good_def)

lemma limiter_like_due: "limiter_like t rl rl' \<Longrightarrow> limiter_like t rl (sweep_if_due t rl')"
  by (simp add: sweep_if_due_def limiter_like_sweep)

lemma limiter_run_like:
  "limiter_like t0 rl rl' \<Longrightarrow> sorted (t0 # map fst evs) \<Longrightarrow> limiter_run rl' evs = bucket_run rl evs"
proof (induction evs arbitrary: t0 rl rl')
  case Nil
  then show ?case by simp
next
  case (Cons e evs)
  obtain t k where e: "e = (t, k)" by fastforce
  with Cons.prems have "limiter_like t rl rl'" and rest: "sorted (t # map fst evs)"
    by (auto intro: limiter_gate.like_later)
  then have like: "limiter_like t rl (sweep_if_due t rl')" by (intro limiter_like_due)
  from Cons.IH [OF limiter_like_next [OF like] rest] limiter_like_verdict [OF like, of k]
  show ?case by (simp add: e Allow_def)
qed

lemma limiter_good_new: "0 \<le> window \<Longrightarrow> limiter_good (NewRateLimiter rate window)"
  by (simp add: limiter_good_def NewRateLimiter_def)

lemma limiter_run_buckets:
  assumes "limiter_good rl" and "sorted (map fst evs)"
  shows "limiter_run rl evs = bucket_run rl evs"
proof (cases evs)
  case Nil
  then show ?thesis by simp
next
  case (Cons e es)
  from assms(1) have "limiter_like (fst e) rl rl" by (rule limiter_gate.like_refl)
  then show ?thesis using assms(2) Cons by (intro limiter_run_like [of "fst e"]) simp_all
qed

text \<open>C14: the sweep that bounds the limiter's memory never changes a verdict: on every
  sequence of requests at non-decreasing times, the limiter of the code admits exactly the
  requests that token buckets which are never forgotten would admit.\<close>

theorem limiter_refines_buckets:
  assumes "0 \<le> window" and "sorted (map fst evs)"
  shows "limiter_run (NewRateLimiter rate window) evs = bucket_run (NewRateLimiter rate window) evs"
  using assms by (intro limiter_run_buckets limiter_good_new)

theorem limiter_refines_buckets_witness:
  "limiter_run (NewRateLimiter 1 10) [(0, ''a''), (5, ''a''), (40, ''b''), (41, ''a'')]
     = bucket_run (NewRateLimiter 1 10) [(0, ''a''), (5, ''a''), (40, ''b''), (41, ''a'')]"
  by (rule limiter_refines_buckets) simp_all

section \<open>No window holds more than the rate\<close>

text \<open>The times at which requests with a given key were admitted, in order.\<close>

definition admitted :: "string \<Rightarrow> (go_time \<times> string) list \<Rightarrow> bool list \<Rightarrow> go_time list" where
  "admitted key evs vs = map (\<lambda>e. fst (fst e)) (filter (\<lambda>e. snd e \<and> snd (fst e) = key) (zip evs vs))"

definition in_window :: "go_time \<Rightarrow> duration \<Rightarrow> go_time list \<Rightarrow> nat" where
  "in_window a w ts = length (filter (\<lambda>x. a \<le> x \<and> x < a + w) ts)"

lemma in_window_snoc:
  "in_window a w (ts @ [t]) = in_window a w ts + (if a \<le> t \<and> t < a + w then 1 else 0)"
  by (simp add: in_window_def)

lemma in_window_none: "\<forall>x \<in> set ts. x < a \<Longrightarrow> in_window a w ts = 0"
  by (auto simp: in_window_def filter_empty_conv)

lemma admitted_Cons:
  "admitted key ((t, k) # evs) (b # vs) = (if b \<and> k = key then [t] else []) @ admitted key evs vs"
  by (simp add: admitted_def)

text \<open>
  What the bucket of a key knows of its admitted times: a window that reaches the latest of
  them holds at most as many as the tokens spent since the refill.
\<close>

definition spent :: "string \<Rightarrow> rate_limiter \<Rightarrow> go_time list \<Rightarrow> bool" where
  "spent key rl ts \<longleftrightarrow> (\<forall>a. int (in_window a (rl_window rl) ts) \<le> rl_rate rl) \<and>
     (case gm_get (rl_buckets rl) key of
        None \<Rightarrow> ts = []
      | Some b \<Rightarrow> (\<forall>x \<in> set ts. x \<le> bk_last b) \<and> 0 \<le> bk_tokens b \<and> bk_tokens b < rl_rate rl \<and>
          (\<forall>a. a \<le> bk_last b \<and> bk_last b < a + rl_window rl \<longrightarrow>
             int (in_window a (rl_window rl) ts) + bk_tokens b \<le> rl_rate rl))"

definition not_after :: "string \<Rightarrow> rate_limiter \<Rightarrow> go_time \<Rightarrow> bool" where
  "not_after key rl t \<longleftrightarrow> (\<forall>b. gm_get (rl_buckets rl) key = Some b \<longrightarrow> bk_last b \<le> t)"

lemma spent_other:
  "k \<noteq> key \<Longrightarrow> spent key (snd (take_token t k rl)) ts = spent key rl ts"
  by (simp add: spent_def take_token_other cong: option.case_cong)

lemma not_after_take: "not_after key rl t \<Longrightarrow> not_after key (snd (take_token t k rl)) t"
  by (auto simp: not_after_def take_token_def Let_def split: option.split)

lemma spent_refill:
  assumes sp: "spent key rl ts" and rate: "1 \<le> rl_rate rl"
    and w: "0 \<le> rl_window rl" and far: "\<forall>x \<in> set ts. x + rl_window rl \<le> t"
  shows "spent key (rl\<lparr>rl_buckets := gm_put key \<lparr>bk_tokens = rl_rate rl - 1, bk_last = t\<rparr> (rl_buckets rl)\<rparr>) (ts @ [t])"
proof -
  have "in_window a (rl_window rl) ts = 0" if "a \<le> t" "t < a + rl_window rl" for a
  proof (rule in_window_none)
    from far that show "\<forall>x \<in> set ts. x < a" by force
  qed
  moreover from far w have "\<forall>x \<in> set ts. x \<le> t" by force
  ultimately show ?thesis
    using sp rate by (auto simp: spent_def in_window_snoc split: option.splits)
qed

lemma spent_decrement:
  assumes sp: "spent key rl ts" and b: "gm_get (rl_buckets rl) key = Some b"
    and tokens: "0 < bk_tokens b" and later: "bk_last b \<le> t"
  shows "spent key (rl\<lparr>rl_buckets := gm_put key \<lparr>bk_tokens = bk_tokens b - 1, bk_last = t\<rparr> (rl_buckets rl)\<rparr>) (ts @ [t])"
proof -
  have "int (in_window a (rl_window rl) ts) + bk_tokens b \<le> rl_rate rl"
    if "a \<le> t" "t < a + rl_window rl" for a
  proof (cases "a \<le> bk_last b")
    case True
    with that later sp b show ?thesis by (simp add: spent_def)
  next
    case False
    with sp b have "in_window a (rl_window rl) ts = 0"
      by (intro in_window_none) (force simp: spent_def)
    with sp b show ?thesis by (simp add: spent_def)
  qed
  with sp b tokens later show ?thesis by (force simp: spent_def in_window_snoc)
qed

lemma spent_take:
  assumes sp: "spent key rl ts" and rate: "1 \<le> rl_rate rl" and w: "0 \<le> rl_window rl"
    and later: "not_after key rl t"
  shows "spent key (snd (take_token t key rl)) (if fst (take_token t key rl) then ts @ [t] else ts)"
proof (cases "gm_get (rl_buckets rl) key")
  case None
  with sp have "ts = []" by (simp add: spent_def)
  with None spent_refill [OF sp rate w, of t] show ?thesis by (simp add: take_token_def Let_def)
next
  case (Some b)
  show ?thesis
  proof (cases "t - bk_last b \<ge> rl_window rl")
    case True
    with sp Some have "\<forall>x \<in> set ts. x + rl_window rl \<le> t" by (force simp: spent_def)
    with True Some spent_refill [OF sp rate w] show ?thesis by (simp add: take_token_def Let_def)
  next
    case False
    from later Some have "bk_last b \<le> t" by (simp add: not_after_def)
    with False Some sp spent_decrement [OF sp Some] show ?thesis by (simp add: take_token_def Let_def)
  qed
qed

lemma spent_run:
  "spent key rl ts \<Longrightarrow> 1 \<le> rl_rate rl \<Longrightarrow> 0 \<le> rl_window rl \<Longrightarrow> not_after key rl t0 \<Longrightarrow>
   sorted (t0 # map fst evs) \<Longrightarrow>
   int (in_window a (rl_window rl) (ts @ admitted key evs (bucket_run rl evs))) \<le> rl_rate rl"
proof (induction evs arbitrary: rl ts t0)
  case Nil
  then show ?case by (simp add: spent_def admitted_def)
next
  case (Cons e evs)
  obtain t k where e: "e = (t, k)" by fastforce
  let ?rl = "snd (take_token t k rl)"
  let ?ts = "if fst (take_token t k rl) \<and> k = key then ts @ [t] else ts"
  from Cons.prems e have t: "not_after key rl t" by (force simp: not_after_def)
  have "spent key ?rl ?ts"
    using Cons.prems(1-3) t spent_take [of key rl ts t] spent_other [of k key t rl ts]
    by (cases "k = key") auto
  moreover from Cons.prems e have "sorted (t # map fst evs)" by simp
  ultimately have "int (in_window a (rl_window ?rl) (?ts @ admitted key evs (bucket_run ?rl evs))) \<le> rl_rate ?rl"
    using Cons.prems(2,3) not_after_take [OF t] by (intro Cons.IH [where ?t0.0 = t]) simp_all
  then show ?case by (auto simp: e admitted_Cons split: if_splits)
qed

text \<open>C15: a client is never admitted more than \<open>rate\<close> times within any interval of one
  window, wherever the interval starts and whatever the other clients do.\<close>

theorem rate_never_exceeded:
  assumes "1 \<le> rate" and "0 \<le> window" and "sorted (map fst evs)"
  shows "int (in_window a window (admitted key evs (limiter_run (NewRateLimiter rate window) evs))) \<le> rate"
proof (cases evs)
  case Nil
  with assms(1) show ?thesis by (simp add: admitted_def in_window_def)
next
  case (Cons e es)
  let ?rl = "NewRateLimiter rate window"
  have "limiter_run ?rl evs = bucket_run ?rl evs"
    using assms by (intro limiter_run_buckets limiter_good_new)
  moreover have "spent key ?rl []" and "not_after key ?rl (fst e)"
    using assms(1) by (simp_all add: spent_def not_after_def NewRateLimiter_def in_window_def)
  ultimately show ?thesis
    using spent_run [of key ?rl "[]" "fst e" evs a] assms Cons by (simp add: NewRateLimiter_def)
qed

theorem rate_never_exceeded_witness:
  "int (in_window 0 10 (admitted ''a'' [(0, ''a''), (1, ''a''), (2, ''a''), (13, ''a'')]
     (limiter_run (NewRateLimiter 2 10) [(0, ''a''), (1, ''a''), (2, ''a''), (13, ''a'')]))) \<le> 2"
  by (rule rate_never_exceeded) simp_all

section \<open>When a request is refused\<close>

text \<open>A request is refused exactly when its client has spent its tokens and its last
  admitted request is less than a window old; a client that stays silent for a window is
  always admitted again, and a refusal changes no bucket.\<close>

theorem refused_iff_spent:
  assumes "limiter_good rl"
  shows "(\<not> fst (Allow now key rl) \<longleftrightarrow>
      (\<exists>b. gm_get (rl_buckets rl) key = Some b \<and> now - bk_last b < rl_window rl \<and> bk_tokens b \<le> 0))
    \<and> (\<not> fst (Allow now key rl) \<longrightarrow> snd (Allow now key rl) = sweep_if_due now rl)"
proof -
  from assms have ok: "gm_ok (rl_buckets rl)" and w: "0 \<le> rl_window rl"
    by (simp_all add: limiter_good_def)
  have "young (rl_window rl) now (gm_get (rl_buckets (sweep_if_due now rl)) key)
      = young (rl_window rl) now (gm_get (rl_buckets rl) key)"
    using young_swept [OF ok w] by (simp add: sweep_if_due_def)
  then show ?thesis
    by (auto simp: Allow_def take_token_young young_def split: option.splits if_splits)
qed

theorem refused_iff_spent_witness:
  "\<not> fst (Allow 5 ''a'' (snd (Allow 0 ''a'' (NewRateLimiter 1 10))))"
proof -
  let ?rl = "snd (Allow 0 ''a'' (NewRateLimiter 1 10))"
  have "limiter_good ?rl"
    by (simp add: limiter_good_def gm_ok_Allow NewRateLimiter_def)
  from refused_iff_spent [OF this, of 5 "''a''"] show ?thesis
    by (simp add: Allow_def take_token_def sweep_if_due_def sweep_def NewRateLimiter_def gm_prune_def)
qed

text \<open>The limiter is not a rate of 30 requests per second: with the daemon's setting of 30
  tokens and a one-second window, a client that sends two requests per second has its 31st
  request refused, because only a whole idle second refills the bucket.\<close>

theorem slow_client_refused:
  "limiter_run (NewRateLimiter 30 second) (map (\<lambda>i. (int i * 500 * millisecond, ''10.0.0.7:4711'')) [0..<31])
     = replicate 30 True @ [False]"
  by code_simp

end
