(* ===== verification/Registry.thy ===== *)
theory Registry
  imports Capability
begin

text \<open>
  The daemon's device registry, \<open>internal/daemon/device_registry.go\<close>: devices by id,
  heartbeats, removal of stale devices, and the snapshot file. The JSON text of a snapshot is
  written and read by \<open>encoding/json\<close>, here the two functions \<open>marshal\<close> and
  \<open>unmarshal\<close>; files are a map from paths to contents, and \<open>write_err\<close> is the error
  that \<open>os.WriteFile\<close> may give.
\<close>

section \<open>State\<close>

record registered_device =
  rd_config :: device_config
  rd_last_seen :: go_time
  rd_static :: bool

record device_registry =
  rg_devices :: "(string, registered_device) gomap"
  rg_state_path :: string

type_synonym files = "(string, string) gomap"

datatype registry_error =
    ReadFailed string
  | WriteFailed string
  | MarshalFailed string
  | UnmarshalFailed string

section \<open>Operations\<close>

definition NewDeviceRegistry :: device_registry where
  "NewDeviceRegistry = \<lparr>rg_devices = [], rg_state_path = []\<rparr>"

definition SetStatePath :: "string \<Rightarrow> device_registry \<Rightarrow> device_registry" where
  "SetStatePath path reg = reg\<lparr>rg_state_path := path\<rparr>"

definition put_device :: "go_time \<Rightarrow> device_config \<Rightarrow> device_registry \<Rightarrow> device_registry" where
  "put_device now cfg reg = reg\<lparr>rg_devices :=
     gm_put (dev_id (dc_device cfg)) \<lparr>rd_config = cfg, rd_last_seen = now, rd_static = True\<rparr> (rg_devices reg)\<rparr>"

definition reg_Register :: "go_time \<Rightarrow> device_config \<Rightarrow> device_registry \<Rightarrow> device_registry" where
  "reg_Register now cfg reg = put_device now cfg reg"

definition GetDevice :: "string \<Rightarrow> device_registry \<Rightarrow> registered_device option" where
  "GetDevice d reg = gm_get (rg_devices reg) d"

definition Heartbeat :: "go_time \<Rightarrow> string \<Rightarrow> device_registry \<Rightarrow> device_registry" where
  "Heartbeat now d reg =
     (case gm_get (rg_devices reg) d of
        None \<Rightarrow> reg
      | Some r \<Rightarrow> reg\<lparr>rg_devices := gm_put d (r\<lparr>rd_last_seen := now\<rparr>) (rg_devices reg)\<rparr>)"

definition ListDevices :: "device_registry \<Rightarrow> registered_device list" where
  "ListDevices reg = map snd (rg_devices reg)"

definition stale :: "go_time \<Rightarrow> duration \<Rightarrow> string \<Rightarrow> registered_device \<Rightarrow> bool" where
  "stale now timeout d r = (if rd_static r then False else now - rd_last_seen r > timeout)"

definition RemoveStale :: "go_time \<Rightarrow> duration \<Rightarrow> device_registry \<Rightarrow> string list \<times> device_registry" where
  "RemoveStale now timeout reg =
     (map fst (filter (\<lambda>(d, r). stale now timeout d r) (rg_devices reg)),
      reg\<lparr>rg_devices := gm_prune (stale now timeout) (rg_devices reg)\<rparr>)"

definition Snapshot :: "(device_config list \<Rightarrow> string + string) \<Rightarrow> string option \<Rightarrow> device_registry \<Rightarrow>
    files \<Rightarrow> registry_error option \<times> files" where
  "Snapshot marshal write_err reg fs =
     (if rg_state_path reg = [] then (None, fs)
      else case marshal (map rd_config (ListDevices reg)) of
        Inl e \<Rightarrow> (Some (MarshalFailed e), fs)
      | Inr data \<Rightarrow> (case write_err of
            Some e \<Rightarrow> (Some (WriteFailed e), fs)
          | None \<Rightarrow> (None, gm_put (rg_state_path reg) data fs)))"

definition Restore :: "(string \<Rightarrow> string + device_config list) \<Rightarrow> go_time \<Rightarrow> files \<Rightarrow> device_registry \<Rightarrow>
    registry_error option \<times> device_registry" where
  "Restore unmarshal now fs reg =
     (if rg_state_path reg = [] then (None, reg)
      else case gm_get fs (rg_state_path reg) of
        None \<Rightarrow> (Some (ReadFailed (rg_state_path reg)), reg)
      | Some data \<Rightarrow> (case unmarshal data of
            Inl e \<Rightarrow> (Some (UnmarshalFailed e), reg)
          | Inr cfgs \<Rightarrow> (None, fold (put_device now) cfgs reg)))"

section \<open>Invariant: every device is static and filed under its own id\<close>

definition registry_ok :: "device_registry \<Rightarrow> bool" where
  "registry_ok reg \<longleftrightarrow> gm_ok (rg_devices reg)
     \<and> (\<forall>d r. gm_get (rg_devices reg) d = Some r \<longrightarrow> rd_static r \<and> dev_id (dc_device (rd_config r)) = d)"

lemma registry_ok_new: "registry_ok NewDeviceRegistry"
  by (simp add: registry_ok_def NewDeviceRegistry_def)

lemma registry_ok_path: "registry_ok reg \<Longrightarrow> registry_ok (SetStatePath p reg)"
  by (simp add: registry_ok_def SetStatePath_def)

lemma registry_ok_put: "registry_ok reg \<Longrightarrow> registry_ok (put_device now cfg reg)"
  by (auto simp: registry_ok_def put_device_def)

lemma registry_ok_puts: "registry_ok reg \<Longrightarrow> registry_ok (fold (put_device now) cfgs reg)"
  by (induction cfgs arbitrary: reg) (simp_all add: registry_ok_put)

lemma registry_ok_heartbeat: "registry_ok reg \<Longrightarrow> registry_ok (Heartbeat now d reg)"
  by (auto simp: registry_ok_def Heartbeat_def split: option.splits)

lemma registry_ok_prune: "registry_ok reg \<Longrightarrow> registry_ok (snd (RemoveStale now timeout reg))"
  by (auto simp: registry_ok_def RemoveStale_def gm_get_prune split: option.splits if_splits)

lemma registry_ok_restore: "registry_ok reg \<Longrightarrow> registry_ok (snd (Restore unmarshal now fs reg))"
  by (simp add: Restore_def registry_ok_puts split: option.split sum.split)

text \<open>The steps of a registry in a running daemon, at arbitrary clock readings.\<close>

inductive registry_reachable :: "device_registry \<Rightarrow> bool" where
  new: "registry_reachable NewDeviceRegistry"
| path: "registry_reachable reg \<Longrightarrow> registry_reachable (SetStatePath p reg)"
| register: "registry_reachable reg \<Longrightarrow> registry_reachable (reg_Register now cfg reg)"
| heartbeat: "registry_reachable reg \<Longrightarrow> registry_reachable (Heartbeat now d reg)"
| remove: "registry_reachable reg \<Longrightarrow> registry_reachable (snd (RemoveStale now timeout reg))"
| restore: "registry_reachable reg \<Longrightarrow> registry_reachable (snd (Restore unmarshal now fs reg))"

lemma reachable_registry_ok: "registry_reachable reg \<Longrightarrow> registry_ok reg"
  by (induction rule: registry_reachable.induct)
    (auto simp: registry_ok_new registry_ok_path registry_ok_put registry_ok_heartbeat
      registry_ok_prune registry_ok_restore reg_Register_def)

lemma prune_none: "\<forall>(k, v) \<in> set m. \<not> P k v \<Longrightarrow> gm_prune P m = m"
  by (auto simp: gm_prune_def filter_id_conv)

lemma registry_ok_static: "registry_ok reg \<Longrightarrow> (d, r) \<in> set (rg_devices reg) \<Longrightarrow> rd_static r"
  using gm_get_iff [of "rg_devices reg" d r] by (auto simp: registry_ok_def)

text \<open>The heartbeat monitor never drops a device: in every registry a daemon can reach, all
  devices are static, so \<open>RemoveStale\<close> removes nothing, whatever the clock and the timeout.\<close>

theorem monitor_never_drops:
  assumes "registry_reachable reg"
  shows "RemoveStale now timeout reg = ([], reg)"
proof -
  have "\<forall>(d, r) \<in> set (rg_devices reg). \<not> stale now timeout d r"
    using registry_ok_static [OF reachable_registry_ok [OF assms]] by (auto simp: stale_def)
  then show ?thesis by (auto simp: RemoveStale_def prune_none filter_empty_conv)
qed

theorem monitor_never_drops_witness:
  "RemoveStale 1000000000000 second (reg_Register 0 \<lparr>dc_device = \<lparr>dev_id = ''shelf_01'', dev_name = [], dev_type = [],
      dev_capabilities = []\<rparr>, dc_capabilities = []\<rparr> NewDeviceRegistry)
    = ([], reg_Register 0 \<lparr>dc_device = \<lparr>dev_id = ''shelf_01'', dev_name = [], dev_type = [],
      dev_capabilities = []\<rparr>, dc_capabilities = []\<rparr> NewDeviceRegistry)"
  by (rule monitor_never_drops) (intro registry_reachable.intros)

section \<open>Snapshot and restore\<close>

lemma get_put_device:
  "GetDevice d (put_device now cfg reg) =
     (if d = dev_id (dc_device cfg) then Some \<lparr>rd_config = cfg, rd_last_seen = now, rd_static = True\<rparr> else GetDevice d reg)"
  by (simp add: GetDevice_def put_device_def)

lemma put_devices_fold:
  "rg_devices (fold (put_device now) cfgs reg) =
   fold (\<lambda>c. gm_put (dev_id (dc_device c)) \<lparr>rd_config = c, rd_last_seen = now, rd_static = True\<rparr>) cfgs (rg_devices reg)"
  by (induction cfgs arbitrary: reg) (simp_all add: put_device_def)

lemma find_unique:
  assumes "distinct (map f xs)" and "x \<in> set xs"
  shows "find (\<lambda>y. f y = f x) (rev xs) = Some x"
proof (cases "find (\<lambda>y. f y = f x) (rev xs)")
  case None
  with assms(2) show ?thesis by (auto simp: find_None_iff)
next
  case (Some y)
  then obtain i where "i < length (rev xs)" "y = rev xs ! i" and fy: "f y = f x"
    by (auto simp: find_Some_iff)
  then have "y \<in> set xs" using nth_mem [of i "rev xs"] by simp
  with fy assms have "y = x" by (auto simp: distinct_map inj_on_def)
  with Some show ?thesis by simp
qed

text \<open>Restoring the configurations of a good registry into any other gives each device back.\<close>

lemma restored_device:
  assumes ok: "registry_ok reg" and target: "gm_ok (rg_devices reg')"
    and d: "GetDevice d reg = Some r"
  shows "GetDevice d (fold (put_device now) (map rd_config (ListDevices reg)) reg')
    = Some \<lparr>rd_config = rd_config r, rd_last_seen = now, rd_static = True\<rparr>"
proof -
  let ?cfgs = "map rd_config (ListDevices reg)" and ?id = "\<lambda>c. dev_id (dc_device c)"
  have ids: "map ?id ?cfgs = map fst (rg_devices reg)"
    using ok gm_get_iff [of "rg_devices reg"] by (force simp: ListDevices_def registry_ok_def)
  from d ok have d_id: "?id (rd_config r) = d" by (simp add: GetDevice_def registry_ok_def)
  from d have "(d, r) \<in> set (rg_devices reg)" by (simp add: GetDevice_def gm_get_in_set)
  then have r: "rd_config r \<in> set ?cfgs" by (force simp: ListDevices_def)
  have "distinct (map ?id ?cfgs)" using ok ids by (simp add: registry_ok_def gm_ok_def)
  from find_unique [OF this r] d_id
    gm.get_put_all [OF target, where key = ?id and val = "\<lambda>c. \<lparr>rd_config = c, rd_last_seen = now, rd_static = True\<rparr>", of ?cfgs d]
  show ?thesis by (simp add: GetDevice_def put_devices_fold)
qed

text \<open>C35: a snapshot restores what it saved: when a daemon's registry is written to its state
  file and another daemon with that path restores it, every device of the first is present in
  the second with its configuration, and so is counted as static and just seen. The JSON text
  is only required to read back as what was written.\<close>

theorem snapshot_restore:
  assumes "registry_reachable reg" and "rg_state_path reg \<noteq> []"
    and "marshal (map rd_config (ListDevices reg)) = Inr data"
    and "unmarshal data = Inr (map rd_config (ListDevices reg))"
    and "registry_reachable reg'" and "rg_state_path reg' = rg_state_path reg"
    and "GetDevice d reg = Some r"
  shows "\<exists>fs'. Snapshot marshal None reg fs = (None, fs')
    \<and> fst (Restore unmarshal now fs' reg') = None
    \<and> GetDevice d (snd (Restore unmarshal now fs' reg')) = Some \<lparr>rd_config = rd_config r, rd_last_seen = now, rd_static = True\<rparr>"
proof -
  have ok: "registry_ok reg" and ok': "registry_ok reg'" using assms(1,5) by (auto intro: reachable_registry_ok)
  have "GetDevice d (fold (put_device now) (map rd_config (ListDevices reg)) reg')
    = Some \<lparr>rd_config = rd_config r, rd_last_seen = now, rd_static = True\<rparr>"
    using ok' by (intro restored_device [OF ok _ assms(7)]) (simp add: registry_ok_def)
  with assms(2-4,6) show ?thesis by (simp add: Snapshot_def Restore_def)
qed

theorem snapshot_restore_witness:
  "\<exists>fs'. Snapshot (\<lambda>_. Inr ''snapshot'') None (reg_Register 5 (\<lparr>dc_device = \<lparr>dev_id = ''shelf_01'', dev_name = [],
        dev_type = [], dev_capabilities = []\<rparr>, dc_capabilities = []\<rparr>) (SetStatePath ''p'' NewDeviceRegistry)) [] = (None, fs')
    \<and> GetDevice ''shelf_01'' (snd (Restore (\<lambda>_. Inr [\<lparr>dc_device = \<lparr>dev_id = ''shelf_01'', dev_name = [],
        dev_type = [], dev_capabilities = []\<rparr>, dc_capabilities = []\<rparr>]) 9 fs' (SetStatePath ''p'' NewDeviceRegistry))) \<noteq> None"
proof -
  let ?cfg = "\<lparr>dc_device = \<lparr>dev_id = ''shelf_01'', dev_name = [], dev_type = [], dev_capabilities = []\<rparr>, dc_capabilities = []\<rparr>"
  let ?empty = "SetStatePath ''p'' NewDeviceRegistry"
  have "registry_reachable ?empty" by (intro registry_reachable.intros)
  moreover from this have "registry_reachable (reg_Register 5 ?cfg ?empty)" by (rule registry_reachable.register)
  ultimately show ?thesis
    using snapshot_restore [of "reg_Register 5 ?cfg ?empty" "\<lambda>_. Inr ''snapshot''" "''snapshot''"
        "\<lambda>_. Inr [?cfg]" ?empty "''shelf_01''" "\<lparr>rd_config = ?cfg, rd_last_seen = 5, rd_static = True\<rparr>" "[]" 9]
    by (auto simp: reg_Register_def put_device_def SetStatePath_def NewDeviceRegistry_def ListDevices_def
        GetDevice_def gm_put_def gm_get_def)
qed

end
