(* ===== verification/Config.thy ===== *)
theory Config
  imports Prelude
begin

text \<open>
  The global configuration, \<open>internal/config/config.go\<close>. The YAML library is the argument
  \<open>yaml\<close>: what unmarshalling a text into a configuration that already holds values gives.
\<close>

section \<open>Data\<close>

record tls_config =
  tls_cert :: string
  tls_key :: string

record static_gateway =
  sg_id :: string
  sg_url :: string

record sidecar_config =
  sc_mdns_interval :: duration
  sc_dedup_ttl :: duration
  sc_health_check_interval :: duration
  sc_maintenance_timeout :: duration
  sc_heartbeat_timeout :: duration
  sc_static_gateways :: "static_gateway list"

record daemon_config =
  dm_heartbeat_interval :: duration
  dm_heartbeat_timeout :: duration
  dm_state_path :: string

record token_config =
  tk_secret :: string
  tk_default_ttl :: duration

record global_config =
  gc_sidecar :: sidecar_config
  gc_daemon :: daemon_config
  gc_log_level :: string
  gc_token :: token_config
  gc_tls :: tls_config

definition DefaultGlobalConfig :: global_config where
  "DefaultGlobalConfig = \<lparr>
     gc_sidecar = \<lparr>sc_mdns_interval = 10 * second, sc_dedup_ttl = 3 * second,
       sc_health_check_interval = 30 * second, sc_maintenance_timeout = 60 * second,
       sc_heartbeat_timeout = 90 * second, sc_static_gateways = []\<rparr>,
     gc_daemon = \<lparr>dm_heartbeat_interval = 30 * second, dm_heartbeat_timeout = 60 * second, dm_state_path = []\<rparr>,
     gc_log_level = ''info'',
     gc_token = \<lparr>tk_secret = [], tk_default_ttl = 3600 * second\<rparr>,
     gc_tls = \<lparr>tls_cert = [], tls_key = []\<rparr>\<rparr>"

section \<open>Operations\<close>

datatype config_error =
    ReadConfig string
  | ParseConfig string
  | SecretTooShort
  | DedupTtlNotPositive
  | HeartbeatTimeoutTooShort
  | InvalidLogLevel string

text \<open>\<open>env name\<close> is \<open>os.Getenv(name)\<close>, empty if unset.\<close>

definition override :: "string \<Rightarrow> (string \<Rightarrow> 'c \<Rightarrow> 'c) \<Rightarrow> 'c \<Rightarrow> 'c" where
  "override v upd cfg = (if v \<noteq> [] then upd v cfg else cfg)"

definition applyEnvOverrides :: "(string \<Rightarrow> string) \<Rightarrow> global_config \<Rightarrow> global_config" where
  "applyEnvOverrides env cfg =
     (let cfg = override (env ''DEVAGENT_TOKEN_SECRET'') (\<lambda>v c. c\<lparr>gc_token := (gc_token c)\<lparr>tk_secret := v\<rparr>\<rparr>) cfg;
          cfg = override (env ''DEVAGENT_LOG_LEVEL'') (\<lambda>v c. c\<lparr>gc_log_level := v\<rparr>) cfg;
          cfg = override (env ''DEVAGENT_TLS_CERT'') (\<lambda>v c. c\<lparr>gc_tls := (gc_tls c)\<lparr>tls_cert := v\<rparr>\<rparr>) cfg;
          cfg = override (env ''DEVAGENT_TLS_KEY'') (\<lambda>v c. c\<lparr>gc_tls := (gc_tls c)\<lparr>tls_key := v\<rparr>\<rparr>) cfg;
          cfg = override (env ''DEVAGENT_STATE_PATH'') (\<lambda>v c. c\<lparr>gc_daemon := (gc_daemon c)\<lparr>dm_state_path := v\<rparr>\<rparr>) cfg
      in cfg)"

definition Validate :: "global_config \<Rightarrow> config_error option" where
  "Validate c =
     (if tk_secret (gc_token c) \<noteq> [] \<and> length (tk_secret (gc_token c)) < 16 then Some SecretTooShort
      else if sc_dedup_ttl (gc_sidecar c) \<le> 0 then Some DedupTtlNotPositive
      else if dm_heartbeat_timeout (gc_daemon c) \<le> dm_heartbeat_interval (gc_daemon c) then Some HeartbeatTimeoutTooShort
      else if gc_log_level c \<in> {''debug'', ''info'', ''warn'', ''error''} then None
      else Some (InvalidLogLevel (gc_log_level c)))"

definition Load :: "(string \<Rightarrow> string + string) \<Rightarrow> (string \<Rightarrow> global_config \<Rightarrow> string + global_config)
    \<Rightarrow> (string \<Rightarrow> string) \<Rightarrow> string \<Rightarrow> config_error + global_config" where
  "Load read_file yaml env path =
     (let cfg = DefaultGlobalConfig in
      if path = [] then Inr cfg
      else case read_file path of
        Inl e \<Rightarrow> Inl (ReadConfig e)
      | Inr data \<Rightarrow>
          (case yaml data cfg of
             Inl e \<Rightarrow> Inl (ParseConfig e)
           | Inr cfg \<Rightarrow>
               let cfg = applyEnvOverrides env cfg in
               (case Validate cfg of Some e \<Rightarrow> Inl e | None \<Rightarrow> Inr cfg)))"

section \<open>What a loaded configuration satisfies\<close>

lemma Validate_ok_iff:
  "Validate c = None \<longleftrightarrow>
     (tk_secret (gc_token c) = [] \<or> 16 \<le> length (tk_secret (gc_token c)))
     \<and> 0 < sc_dedup_ttl (gc_sidecar c)
     \<and> dm_heartbeat_interval (gc_daemon c) < dm_heartbeat_timeout (gc_daemon c)
     \<and> gc_log_level c \<in> {''debug'', ''info'', ''warn'', ''error''}"
  by (auto simp: Validate_def)

lemma Validate_default: "Validate DefaultGlobalConfig = None"
  by (simp add: Validate_ok_iff DefaultGlobalConfig_def second_def)

lemma env_secret: "tk_secret (gc_token (applyEnvOverrides env c))
    = (if env ''DEVAGENT_TOKEN_SECRET'' = [] then tk_secret (gc_token c) else env ''DEVAGENT_TOKEN_SECRET'')"
  by (simp add: applyEnvOverrides_def override_def Let_def)

lemma Load_cases:
  "Load read_file yaml env path = Inr cfg \<Longrightarrow>
   (path = [] \<and> cfg = DefaultGlobalConfig) \<or> (\<exists>c. cfg = applyEnvOverrides env c \<and> Validate cfg = None)"
  unfolding Load_def Let_def by (auto split: if_splits sum.splits option.splits)

text \<open>C39: a configuration that \<open>Load\<close> gives has passed every check of \<open>Validate\<close>,
  whatever the file and the environment hold: an empty secret or one of at least 16 bytes, a
  positive dedup window, a heartbeat timeout above the interval and a known log level; and with a
  file, a secret in the environment overrides the file's. (More is not checked: an interval of zero
  passes, \<open>valid_config_crashes\<close>.)\<close>

theorem loaded_config_valid:
  assumes "Load read_file yaml env path = Inr cfg"
  shows "(tk_secret (gc_token cfg) = [] \<or> 16 \<le> length (tk_secret (gc_token cfg)))
    \<and> 0 < sc_dedup_ttl (gc_sidecar cfg)
    \<and> dm_heartbeat_interval (gc_daemon cfg) < dm_heartbeat_timeout (gc_daemon cfg)
    \<and> gc_log_level cfg \<in> {''debug'', ''info'', ''warn'', ''error''}
    \<and> (path \<noteq> [] \<and> env ''DEVAGENT_TOKEN_SECRET'' \<noteq> [] \<longrightarrow> tk_secret (gc_token cfg) = env ''DEVAGENT_TOKEN_SECRET'')"
proof -
  from Load_cases [OF assms] have "Validate cfg = None" using Validate_default by blast
  moreover from Load_cases [OF assms]
  have "path \<noteq> [] \<and> env ''DEVAGENT_TOKEN_SECRET'' \<noteq> [] \<longrightarrow> tk_secret (gc_token cfg) = env ''DEVAGENT_TOKEN_SECRET''"
    using env_secret by metis
  ultimately show ?thesis unfolding Validate_ok_iff by blast
qed

lemma override_simps: "override [] upd cfg = cfg" "override (x # v) upd cfg = upd (x # v) cfg"
  by (simp_all add: override_def)

definition demo_env :: "string \<Rightarrow> string" where
  "demo_env name = (if name = ''DEVAGENT_TOKEN_SECRET'' then ''0123456789abcdef'' else [])"

definition demo_config :: global_config where
  "demo_config = DefaultGlobalConfig\<lparr>gc_token := \<lparr>tk_secret = ''0123456789abcdef'', tk_default_ttl = 3600 * second\<rparr>\<rparr>"

lemma demo_overrides: "applyEnvOverrides demo_env DefaultGlobalConfig = demo_config"
proof -
  have e: "demo_env ''DEVAGENT_TOKEN_SECRET'' = ''0123456789abcdef''" "demo_env ''DEVAGENT_LOG_LEVEL'' = []"
    "demo_env ''DEVAGENT_TLS_CERT'' = []" "demo_env ''DEVAGENT_TLS_KEY'' = []" "demo_env ''DEVAGENT_STATE_PATH'' = []"
    by code_simp+
  have "gc_token DefaultGlobalConfig = \<lparr>tk_secret = [], tk_default_ttl = 3600 * second\<rparr>" by (simp add: DefaultGlobalConfig_def)
  then show ?thesis by (simp add: applyEnvOverrides_def Let_def e override_simps demo_config_def)
qed

lemma demo_valid: "Validate demo_config = None"
  using Validate_default unfolding Validate_ok_iff by (simp add: demo_config_def)

theorem loaded_config_valid_witness:
  "tk_secret (gc_token demo_config) = ''0123456789abcdef'' \<and> 0 < sc_dedup_ttl (gc_sidecar demo_config)"
proof -
  have "demo_env ''DEVAGENT_TOKEN_SECRET'' = ''0123456789abcdef''" by code_simp
  moreover have "Load (\<lambda>_. Inr []) (\<lambda>_ c. Inr c) demo_env ''devagent.yaml'' = Inr demo_config"
    by (simp add: Load_def Let_def demo_overrides demo_valid)
  ultimately show ?thesis using loaded_config_valid [of "\<lambda>_. Inr []" "\<lambda>_ c. Inr c" demo_env "''devagent.yaml''" demo_config]
    by (elim meta_impE) simp_all
qed

text \<open>Without a configuration file the environment is not looked at: a secret set there for a
  deployment that has no file leaves authentication off.\<close>

theorem no_file_ignores_environment:
  "Load read_file yaml env [] = Inr DefaultGlobalConfig \<and> tk_secret (gc_token DefaultGlobalConfig) = []"
  by (simp add: Load_def DefaultGlobalConfig_def)

end
