(* ===== verification/Daemon.thy ===== *)
theory Daemon
  imports Hal Native Message RateLimiter Registry Config
begin

text \<open>
  The daemon server, \<open>internal/daemon/server.go\<close> and \<open>status.go\<close>: loading a device
  configuration, the one path every invocation takes (\<open>invokeCore\<close>), the HTTP and MCP entry
  points to it, and one turn of each background loop. The clock is read once per request. The
  process a native capability starts is part of the result, so that the lemmas can speak of it.
\<close>

section \<open>Status strings\<close>

definition busyQueueDepthThreshold :: u8 where "busyQueueDepthThreshold = 8"
definition StatusRateLimited :: string where "StatusRateLimited = ''rate_limited''"
definition StatusUnauthorized :: string where "StatusUnauthorized = ''unauthorized''"
definition StatusForbidden :: string where "StatusForbidden = ''forbidden''"
definition StatusDeviceNotFound :: string where "StatusDeviceNotFound = ''device_not_found''"
definition StatusCapabilityNotFound :: string where "StatusCapabilityNotFound = ''capability_not_found''"
definition StatusHalNotAvailable :: string where "StatusHalNotAvailable = ''hal_not_available''"
definition StatusCmdMapNotFound :: string where "StatusCmdMapNotFound = ''cmd_map_not_found''"
definition StatusDCPError :: string where "StatusDCPError = ''dcp_error''"
definition StatusDeviceBusy :: string where "StatusDeviceBusy = ''device_busy''"
definition StatusTimeout :: string where "StatusTimeout = ''timeout''"

section \<open>The server\<close>

text \<open>What lies outside: the HAL's environment, the operating system, number printing and parsing.\<close>

record world = hal_env +
  wd_show_g :: "rat \<Rightarrow> string"
  wd_windows :: bool
  wd_run :: os_run
  wd_float_of :: "string \<Rightarrow> rat option"

text \<open>The tools of the MCP server are kept by name, with the device and capability of their handler.\<close>

record daemon_server =
  ds_registry :: device_registry
  ds_gatewayID :: string
  ds_port :: int
  ds_configPath :: string
  ds_hal :: "hal option"
  ds_nativeHandlers :: "(string, native_handler) gomap"
  ds_cfg :: global_config
  ds_seqCounter :: "32 word"
  ds_tokenManager :: "token_manager option"
  ds_rateLimiter :: rate_limiter
  ds_tools :: "(string, string \<times> capability) gomap"

definition NewDaemonServer :: "string \<Rightarrow> int \<Rightarrow> string \<Rightarrow> global_config option \<Rightarrow> daemon_server" where
  "NewDaemonServer gatewayID port configPath cfg0 =
     (let cfg = (case cfg0 of None \<Rightarrow> DefaultGlobalConfig | Some c \<Rightarrow> c) in
      \<lparr>ds_registry = NewDeviceRegistry, ds_gatewayID = gatewayID, ds_port = port, ds_configPath = configPath,
       ds_hal = None, ds_nativeHandlers = NewNativeHandlerRegistry, ds_cfg = cfg, ds_seqCounter = 0,
       ds_tokenManager = (if tk_secret (gc_token cfg) \<noteq> [] then Some (NewTokenManager (tk_secret (gc_token cfg))) else None),
       ds_rateLimiter = NewRateLimiter 30 second, ds_tools = []\<rparr>)"

section \<open>Loading a device configuration\<close>

definition registerDeviceTools :: "device_config \<Rightarrow> daemon_server \<Rightarrow> daemon_server" where
  "registerDeviceTools cfg ds =
     (let d = dev_id (dc_device cfg) in
      fold (\<lambda>c ds. ds\<lparr>ds_tools := gm_put (d @ ''.'' @ cap_name c) (d, c) (ds_tools ds)\<rparr>) (dc_capabilities cfg) ds)"

text \<open>The bridge that the first capability asks for.\<close>

definition make_hal :: "implementation \<Rightarrow> hal" where
  "make_hal impl =
     (if im_protocol impl = ''DCP'' \<or> im_protocol impl = ''dcp'' then
        (let b = NewDCPBridge;
             b = (if im_hmac_secret impl \<noteq> [] then SetHMACSecret (Some (bytes_of_string (im_hmac_secret impl))) b else b)
         in HDcp (db_SetRetry (im_retry impl) b))
      else HSerial (sb_SetRetry (im_retry impl) NewSerialBridge))"

definition init_hal :: "driver \<Rightarrow> device_config \<Rightarrow> daemon_server \<Rightarrow> daemon_server" where
  "init_hal drv cfg ds =
     (if dev_type (dc_device cfg) = ''mcu_proxy'' then
        (case dc_capabilities cfg of
           [] \<Rightarrow> ds
         | c # _ \<Rightarrow>
             let impl = cap_implementation c; h = make_hal impl in
             if im_channel impl = [] then ds\<lparr>ds_hal := Some h\<rparr>
             else let baudrate = (if im_baudrate impl = 0 then 115200 else im_baudrate impl)
                  in ds\<lparr>ds_hal := Some (snd (hal_Open drv (im_channel impl) baudrate h))\<rparr>)
      else ds)"

definition loadConfig :: "(string \<Rightarrow> string + string) \<Rightarrow> (string \<Rightarrow> string + device_config) \<Rightarrow> driver \<Rightarrow> go_time
    \<Rightarrow> string \<Rightarrow> daemon_server \<Rightarrow> string option \<times> daemon_server" where
  "loadConfig read_file yaml drv now path ds =
     (case read_file path of
        Inl e \<Rightarrow> (Some e, ds)
      | Inr data \<Rightarrow>
          (case yaml data of
             Inl e \<Rightarrow> (Some e, ds)
           | Inr cfg \<Rightarrow>
               let ds = ds\<lparr>ds_registry := reg_Register now cfg (ds_registry ds)\<rparr>;
                   ds = registerDeviceTools cfg ds
               in (None, init_hal drv cfg ds)))"

section \<open>Invoking a capability\<close>

datatype result_value = NoResult | NativeResult native_result | MapResult "params option"

record invoke_result =
  ir_status :: string
  ir_protocol :: string
  ir_result :: result_value
  ir_intent :: u16

datatype invoke_error = NativeError string | DcpSendFailed bridge_error | UrpcSendFailed bridge_error

fun invoke_error_text :: "invoke_error \<Rightarrow> string" where
  "invoke_error_text (NativeError e) = e"
| "invoke_error_text (DcpSendFailed e) = ''DCP send failed: '' @ bridge_error_text e"
| "invoke_error_text (UrpcSendFailed e) = ''uRPC send failed: '' @ bridge_error_text e"

text \<open>\<open>errors.Is(err, ErrDeviceTimeout)\<close>\<close>

fun is_timeout :: "invoke_error \<Rightarrow> bool" where
  "is_timeout (DcpSendFailed (ErrDeviceTimeout _)) = True"
| "is_timeout (UrpcSendFailed (ErrDeviceTimeout _)) = True"
| "is_timeout _ = False"

definition next_seq :: "daemon_server \<Rightarrow> u8 \<times> daemon_server" where
  "next_seq ds = (let n = ds_seqCounter ds + 1 in (ucast (n mod 256), ds\<lparr>ds_seqCounter := n\<rparr>))"

definition plain_result :: "string \<Rightarrow> invoke_result" where
  "plain_result status = \<lparr>ir_status = status, ir_protocol = [], ir_result = NoResult, ir_intent = 0\<rparr>"

definition dcp_result :: "u16 \<Rightarrow> dcp_frame \<Rightarrow> invoke_result" where
  "dcp_result intentID reply =
     (if df_kind reply = DCPError then
        (let errMsg = (case df_payload reply of
             Some p \<Rightarrow> (case gm_get p ''error'' of Some (GStr msg) \<Rightarrow> msg | _ \<Rightarrow> ''unknown dcp error'')
           | None \<Rightarrow> ''unknown dcp error'')
         in \<lparr>ir_status = StatusDCPError, ir_protocol = ''dcp'',
              ir_result = MapResult (Some [(''error'', GStr errMsg), (''intent_id'', GInt (uint intentID))]),
              ir_intent = intentID\<rparr>)
      else
        (let status = (case df_payload reply of
             Some p \<Rightarrow> (case gm_get p ''status'' of Some (GStr s) \<Rightarrow> s | _ \<Rightarrow> ''ok'')
           | None \<Rightarrow> ''ok'')
         in \<lparr>ir_status = status, ir_protocol = ''dcp'', ir_result = MapResult (df_payload reply), ir_intent = intentID\<rparr>))"

definition urpc_result :: "urpc_ack \<Rightarrow> invoke_result" where
  "urpc_result ack =
     (let depth = (''queue_depth'', GInt (uint (ack_queue_depth ack))) in
      if ack_status ack = StatusBusy \<or> ack_queue_depth ack \<ge> busyQueueDepthThreshold
      then \<lparr>ir_status = StatusDeviceBusy, ir_protocol = ''urpc'',
             ir_result = MapResult (Some [depth, (''retry_after_ms'', GInt 2000)]), ir_intent = 0\<rparr>
      else \<lparr>ir_status = StatusString (ack_status ack), ir_protocol = ''urpc'',
             ir_result = MapResult (Some [depth]), ir_intent = 0\<rparr>)"

type_synonym invoke_outcome =
  "(invoke_error, invoke_result) go_result \<times> string list option \<times> daemon_server"

definition invoke_dcp :: "world \<Rightarrow> hal \<Rightarrow> string \<Rightarrow> capability \<Rightarrow> params \<Rightarrow> daemon_server \<Rightarrow> invoke_outcome option" where
  "invoke_dcp w h deviceID c ps ds =
     (let intentID = (if cap_intent_id c = 0 then IntentID (deviceID @ ''.'' @ cap_name c) else cap_intent_id c);
          (seq, ds) = next_seq ds in
      case hal_SendDCP (hal_env.truncate w) seq intentID ps h of
        None \<Rightarrow> None
      | Some (r, h') \<Rightarrow>
          let ds = ds\<lparr>ds_hal := Some h'\<rparr> in
          Some (case r of
              Fail e \<Rightarrow> (Fail (DcpSendFailed e), None, ds)
            | Panic s \<Rightarrow> (Panic s, None, ds)
            | Ret reply \<Rightarrow> (Ret (dcp_result intentID reply), None, ds)))"

definition invoke_urpc :: "world \<Rightarrow> hal \<Rightarrow> capability \<Rightarrow> params \<Rightarrow> daemon_server \<Rightarrow> invoke_outcome option" where
  "invoke_urpc w h c ps ds =
     (case gm_get (im_cmd_map (cap_implementation c)) (cap_name c) of
        None \<Rightarrow> Some (Ret (plain_result StatusCmdMapNotFound), None, ds)
      | Some cmdEntry \<Rightarrow>
          let payload = formatURPCPayload (wd_show_g w) (cm_fmt cmdEntry) ps;
              (seq, ds) = next_seq ds;
              req = \<lparr>req_seq = seq, req_cmd = of_int (cm_cmd cmdEntry), req_payload = payload\<rparr> in
          case hal_SendURPC (hal_env.truncate w) req h of
            None \<Rightarrow> None
          | Some (r, h') \<Rightarrow>
              let ds = ds\<lparr>ds_hal := Some h'\<rparr> in
              Some (case r of
                  Fail e \<Rightarrow> (Fail (UrpcSendFailed e), None, ds)
                | Panic s \<Rightarrow> (Panic s, None, ds)
                | Ret ack \<Rightarrow> (Ret (urpc_result ack), None, ds)))"

definition invokeCore :: "world \<Rightarrow> string \<Rightarrow> capability \<Rightarrow> params \<Rightarrow> daemon_server \<Rightarrow> invoke_outcome option" where
  "invokeCore w deviceID c ps ds =
     (let impl = cap_implementation c in
      if im_native impl \<noteq> [] then
        (case ExecuteNative (wd_show_g w) (wd_windows w) (wd_run w) (ds_nativeHandlers ds) (im_native impl) c ps of
           (Inl e, started) \<Rightarrow> Some (Fail (NativeError e), started, ds)
         | (Inr r, started) \<Rightarrow>
             Some (Ret \<lparr>ir_status = nr_status r, ir_protocol = [], ir_result = NativeResult r, ir_intent = 0\<rparr>, started, ds))
      else case ds_hal ds of
        None \<Rightarrow> Some (Ret (plain_result StatusHalNotAvailable), None, ds)
      | Some h \<Rightarrow>
          if \<not> hal_IsConnected h then Some (Ret (plain_result StatusHalNotAvailable), None, ds)
          else if hal_Transport h = TransportDCP then invoke_dcp w h deviceID c ps ds
          else invoke_urpc w h c ps ds)"

section \<open>The MCP entry point\<close>

datatype tool_result = ToolError string | ToolJSON invoke_result | ToolPanic string

definition makeInvokeHandler :: "world \<Rightarrow> string \<Rightarrow> capability \<Rightarrow> params \<Rightarrow> daemon_server
    \<Rightarrow> (tool_result \<times> string list option \<times> daemon_server) option" where
  "makeInvokeHandler w deviceID c ps ds =
     (case invokeCore w deviceID c ps ds of
        None \<Rightarrow> None
      | Some (r, started, ds) \<Rightarrow>
          Some (case r of
              Fail e \<Rightarrow> ToolError (invoke_error_text e)
            | Panic s \<Rightarrow> ToolPanic s
            | Ret res \<Rightarrow>
                if ir_status res = StatusHalNotAvailable then ToolError ''HAL not available''
                else if ir_status res = StatusCmdMapNotFound
                  then ToolError (''cmd_map entry not found for '' @ cap_name c)
                else ToolJSON res, started, ds))"

section \<open>The HTTP entry points\<close>

record http_request =
  hr_method :: string
  hr_remote_addr :: string
  hr_authorization :: string
  hr_body :: "string + string"

datatype body = BText string | BMessage sse_message | BDevices "device_config list" | BInfo "(string \<times> goval) list"

text \<open>A reply, or a panic that the HTTP server turns into a dropped connection.\<close>

datatype http_outcome = Replied nat body | Aborted string

fun result_goval :: "result_value \<Rightarrow> goval" where
  "result_goval NoResult = GNil"
| "result_goval (NativeResult r) = GStruct [(''status'', GStr (nr_status r)), (''stdout'', GStr (nr_stdout r)),
     (''stderr'', GStr (nr_stderr r)), (''exit_code'', GInt (nr_exit_code r))]"
| "result_goval (MapResult None) = GNilMap"
| "result_goval (MapResult (Some m)) = GMap m"

definition result_message :: "go_time \<Rightarrow> string \<Rightarrow> string \<Rightarrow> sse_message" where
  "result_message now status msg = zero_message\<lparr>sm_type := ''invoke_result'', sm_status := status, sm_message := msg,
     sm_timestamp := unix now\<rparr>"

definition trim_bearer :: "string \<Rightarrow> string" where
  "trim_bearer h = (if prefix ''Bearer '' h then drop 7 h else h)"

text \<open>Steps of \<open>handleHTTPInvoke\<close> that may answer at once: the token check.\<close>

definition check_token :: "go_time \<Rightarrow> http_request \<Rightarrow> sse_message \<Rightarrow> daemon_server \<Rightarrow> http_outcome option" where
  "check_token now req msg ds =
     (case ds_tokenManager ds of
        None \<Rightarrow> None
      | Some tm \<Rightarrow>
          let tokenHeader = trim_bearer (hr_authorization req) in
          if tokenHeader = [] then Some (Replied 200 (BMessage (result_message now StatusUnauthorized ''missing token'')))
          else (case Verify tm tokenHeader now of
              Inl e \<Rightarrow> Some (Replied 200 (BMessage (result_message now StatusUnauthorized (token_error_text e))))
            | Inr claims \<Rightarrow>
                if CheckCap claims (sm_device_id msg @ ''.'' @ sm_capability msg) then None
                else Some (Replied 200 (BMessage (result_message now StatusForbidden
                  (''capability '' @ sm_device_id msg @ ''.'' @ sm_capability msg @ '' not allowed''))))))"

definition reply_message :: "go_time \<Rightarrow> sse_message \<Rightarrow> sse_message" where
  "reply_message now msg = zero_message\<lparr>sm_type := ''invoke_result'', sm_request_id := sm_request_id msg,
     sm_device_id := sm_device_id msg, sm_capability := sm_capability msg, sm_timestamp := unix now\<rparr>"

definition timeout_text :: string where
  "timeout_text = map char_of [0xE8::nat,0xAE,0xBE,0xE5,0xA4,0x87,0xE6,0x97,0xA0,0xE5,0x93,0x8D,0xE5,0xBA,0x94,0xEF,0xBC,0x88,
     0xE9,0x87,0x8D,0xE8,0xAF,0x95,0xE6,0xAC,0xA1,0xE6,0x95,0xB0,0xE8,0x80,0x97,0xE5,0xB0,0xBD,0xEF,0xBC,0x89]"

definition invoke_reply :: "go_time \<Rightarrow> sse_message \<Rightarrow> (invoke_error, invoke_result) go_result \<Rightarrow> http_outcome" where
  "invoke_reply now msg r =
     (let resp = reply_message now msg in
      case r of
        Panic s \<Rightarrow> Aborted s
      | Fail e \<Rightarrow>
          if is_timeout e then Replied 200 (BMessage (resp\<lparr>sm_status := StatusTimeout, sm_message := timeout_text\<rparr>))
          else Replied 200 (BMessage (resp\<lparr>sm_status := ''error'', sm_message := invoke_error_text e\<rparr>))
      | Ret res \<Rightarrow> Replied 200 (BMessage (resp\<lparr>sm_status := ir_status res, sm_result := result_goval (ir_result res)\<rparr>)))"

definition request_params :: "sse_message \<Rightarrow> params" where
  "request_params msg = (case sm_params msg of GMap m \<Rightarrow> m | _ \<Rightarrow> [])"

definition dispatch_invoke :: "world \<Rightarrow> go_time \<Rightarrow> sse_message \<Rightarrow> daemon_server
    \<Rightarrow> (http_outcome \<times> string list option \<times> daemon_server) option" where
  "dispatch_invoke w now msg ds =
     (case GetDevice (sm_device_id msg) (ds_registry ds) of
        None \<Rightarrow> Some (Replied 200 (BMessage ((reply_message now msg)\<lparr>sm_capability := [], sm_status := StatusDeviceNotFound\<rparr>)), None, ds)
      | Some dev \<Rightarrow>
          (case find (\<lambda>c. cap_name c = sm_capability msg) (dc_capabilities (rd_config dev)) of
             None \<Rightarrow> Some (Replied 200 (BMessage ((reply_message now msg)\<lparr>sm_status := StatusCapabilityNotFound\<rparr>)), None, ds)
           | Some targetCap \<Rightarrow>
               map_option (\<lambda>(r, started, ds). (invoke_reply now msg r, started, ds))
                 (invokeCore w (sm_device_id msg) targetCap (request_params msg) ds)))"

definition handleHTTPInvoke :: "world \<Rightarrow> go_time \<Rightarrow> http_request \<Rightarrow> daemon_server
    \<Rightarrow> (http_outcome \<times> string list option \<times> daemon_server) option" where
  "handleHTTPInvoke w now req ds =
     (if hr_method req \<noteq> ''POST'' then Some (Replied 405 (BText ''method not allowed''), None, ds)
      else let (ok, rl) = Allow now (hr_remote_addr req) (ds_rateLimiter ds); ds = ds\<lparr>ds_rateLimiter := rl\<rparr> in
        if \<not> ok then Some (Replied 429 (BMessage (result_message now StatusRateLimited ''too many requests'')), None, ds)
        else case hr_body req of
          Inl _ \<Rightarrow> Some (Replied 400 (BText ''read body failed''), None, ds)
        | Inr data \<Rightarrow>
            (case ParseSSEMessage (wd_float_of w) data of
               None \<Rightarrow> Some (Replied 400 (BText ''invalid json''), None, ds)
             | Some msg \<Rightarrow>
                 (case check_token now req msg ds of
                    Some refusal \<Rightarrow> Some (refusal, None, ds)
                  | None \<Rightarrow> dispatch_invoke w now msg ds)))"

definition authorized :: "go_time \<Rightarrow> http_request \<Rightarrow> daemon_server \<Rightarrow> bool" where
  "authorized now req ds =
     (case ds_tokenManager ds of
        None \<Rightarrow> True
      | Some tm \<Rightarrow>
          let tokenHeader = trim_bearer (hr_authorization req) in
          if tokenHeader = [] then False
          else (case Verify tm tokenHeader now of Inl _ \<Rightarrow> False | Inr _ \<Rightarrow> True))"

definition handleHTTPDevices :: "go_time \<Rightarrow> http_request \<Rightarrow> daemon_server \<Rightarrow> http_outcome" where
  "handleHTTPDevices now req ds =
     (if hr_method req \<noteq> ''GET'' then Replied 405 (BText ''method not allowed'')
      else if \<not> authorized now req ds
        then Replied 401 (BMessage (result_message now StatusUnauthorized ''missing or invalid token''))
      else Replied 200 (BDevices (map (\<lambda>d. Sanitized (rd_config d)) (ListDevices (ds_registry ds)))))"

definition handleHealthz :: "daemon_server \<Rightarrow> http_outcome" where
  "handleHealthz ds = Replied 200 (BInfo [(''status'', GStr ''ok'')])"

definition handleReadyz :: "daemon_server \<Rightarrow> http_outcome" where
  "handleReadyz ds =
     (let serialConnected = (case ds_hal ds of None \<Rightarrow> False | Some h \<Rightarrow> hal_IsConnected h);
          deviceCount = length (ListDevices (ds_registry ds));
          ready = deviceCount > 0 \<and> (ds_hal ds = None \<or> serialConnected);
          info = (\<lambda>s. [(''status'', GStr s), (''serial_connected'', GBool serialConnected), (''device_count'', GInt (int deviceCount))]) in
      if ready then Replied 200 (BInfo (info ''ok'')) else Replied 503 (BInfo (info ''not_ready'')))"

section \<open>Starting, background loops, shutting down\<close>

definition daemon_boot :: "(string \<Rightarrow> string + string) \<Rightarrow> (string \<Rightarrow> string + device_config) \<Rightarrow> driver
    \<Rightarrow> (string \<Rightarrow> string + device_config list) \<Rightarrow> files \<Rightarrow> go_time \<Rightarrow> daemon_server \<Rightarrow> string + daemon_server" where
  "daemon_boot read_file yaml drv unmarshal fs now ds =
     (case (if ds_configPath ds \<noteq> [] then loadConfig read_file yaml drv now (ds_configPath ds) ds else (None, ds)) of
        (Some e, ds) \<Rightarrow> Inl (''load config: '' @ e)
      | (None, ds) \<Rightarrow>
          let path = dm_state_path (gc_daemon (ds_cfg ds)) in
          if path \<noteq> [] then
            Inr (ds\<lparr>ds_registry := snd (Restore unmarshal now fs (SetStatePath path (ds_registry ds)))\<rparr>)
          else Inr ds)"

text \<open>\<open>time.NewTicker\<close> panics on an interval that is not positive.\<close>

definition NewTicker :: "duration \<Rightarrow> (unit, duration) go_result" where
  "NewTicker d = (if d \<le> 0 then Panic ''non-positive interval for NewTicker'' else Ret d)"

definition startHeartbeatMonitor :: "daemon_server \<Rightarrow> (unit, duration) go_result" where
  "startHeartbeatMonitor ds = NewTicker (dm_heartbeat_interval (gc_daemon (ds_cfg ds)))"

definition heartbeat_tick :: "go_time \<Rightarrow> daemon_server \<Rightarrow> string list \<times> daemon_server" where
  "heartbeat_tick now ds =
     (let (removed, reg) = RemoveStale now (dm_heartbeat_timeout (gc_daemon (ds_cfg ds))) (ds_registry ds)
      in (removed, ds\<lparr>ds_registry := reg\<rparr>))"

definition snapshot_tick :: "(device_config list \<Rightarrow> string + string) \<Rightarrow> string option \<Rightarrow> daemon_server \<Rightarrow> files
    \<Rightarrow> registry_error option \<times> files" where
  "snapshot_tick marshal write_err ds fs = Snapshot marshal write_err (ds_registry ds) fs"

definition reconnect_tick :: "driver \<Rightarrow> closer \<Rightarrow> daemon_server \<Rightarrow> daemon_server" where
  "reconnect_tick drv cls ds =
     (case ds_hal ds of
        None \<Rightarrow> ds
      | Some h \<Rightarrow> if \<not> hal_IsConnected h then ds\<lparr>ds_hal := Some (snd (hal_Reconnect drv cls h))\<rparr> else ds)"

definition shutdown :: "closer \<Rightarrow> daemon_server \<Rightarrow> daemon_server" where
  "shutdown cls ds = (case ds_hal ds of None \<Rightarrow> ds | Some h \<Rightarrow> ds\<lparr>ds_hal := Some (snd (hal_Close cls h))\<rparr>)"

text \<open>The records that \<open>startMDNS\<close> publishes.\<close>

definition mdns_txt :: "string \<Rightarrow> daemon_server \<Rightarrow> string list" where
  "mdns_txt version ds =
     [''gateway='' @ ds_gatewayID ds, ''version='' @ version, ''protocols=urpc,dcp'']
     @ (if tls_cert (gc_tls (ds_cfg ds)) \<noteq> [] then [''tls=1''] else [])"

text \<open>The paths that \<open>Start\<close> mounts; every other path belongs to the SSE server on \<open>/\<close>. And the
  scheme the port is served under.\<close>

datatype endpoint = InvokeEndpoint | DevicesEndpoint | HealthzEndpoint | ReadyzEndpoint | SseEndpoint

definition mux :: "string \<Rightarrow> endpoint" where
  "mux path =
     (if path = ''/invoke'' then InvokeEndpoint
      else if path = ''/devices'' then DevicesEndpoint
      else if path = ''/healthz'' then HealthzEndpoint
      else if path = ''/readyz'' then ReadyzEndpoint
      else SseEndpoint)"

definition listen_scheme :: "daemon_server \<Rightarrow> string" where
  "listen_scheme ds =
     (if tls_cert (gc_tls (ds_cfg ds)) \<noteq> [] \<and> tls_key (gc_tls (ds_cfg ds)) \<noteq> [] then ''https'' else ''http'')"

section \<open>Nothing runs without the token\<close>

text \<open>What a request may leave behind on the device side.\<close>

definition untouched :: "daemon_server \<Rightarrow> string list option \<Rightarrow> daemon_server \<Rightarrow> bool" where
  "untouched ds started ds' \<longleftrightarrow> started = None \<and> ds_hal ds' = ds_hal ds \<and> ds_seqCounter ds' = ds_seqCounter ds
     \<and> ds_registry ds' = ds_registry ds"

definition permitted :: "world \<Rightarrow> go_time \<Rightarrow> http_request \<Rightarrow> daemon_server \<Rightarrow> sse_message \<Rightarrow> bool" where
  "permitted w now req ds msg \<longleftrightarrow>
     hr_method req = ''POST'' \<and> fst (Allow now (hr_remote_addr req) (ds_rateLimiter ds))
     \<and> (\<exists>data. hr_body req = Inr data \<and> ParseSSEMessage (wd_float_of w) data = Some msg)
     \<and> (\<forall>tm. ds_tokenManager ds = Some tm \<longrightarrow>
          (\<exists>claims. Verify tm (trim_bearer (hr_authorization req)) now = Inr claims
             \<and> CheckCap claims (sm_device_id msg @ ''.'' @ sm_capability msg)))
     \<and> (\<exists>dev c. GetDevice (sm_device_id msg) (ds_registry ds) = Some dev \<and> c \<in> set (dc_capabilities (rd_config dev))
          \<and> cap_name c = sm_capability msg)"

lemma check_token_passes:
  "check_token now req msg ds = None \<Longrightarrow> ds_tokenManager ds = Some tm \<Longrightarrow>
   \<exists>claims. Verify tm (trim_bearer (hr_authorization req)) now = Inr claims
     \<and> CheckCap claims (sm_device_id msg @ ''.'' @ sm_capability msg)"
  by (auto simp: check_token_def Let_def split: if_splits sum.splits)

lemma dispatch_touches:
  assumes "dispatch_invoke w now msg ds = Some (r, started, ds')" and "\<not> untouched ds started ds'"
  shows "\<exists>dev c. GetDevice (sm_device_id msg) (ds_registry ds) = Some dev \<and> c \<in> set (dc_capabilities (rd_config dev))
    \<and> cap_name c = sm_capability msg"
  using assms
  by (auto simp: dispatch_invoke_def untouched_def split: option.splits dest!: find_SomeD)

text \<open>C1: when a secret is configured, nothing reaches a device or the operating system over
  \<open>/invoke\<close> without permission: if a request starts a process, uses the bridge, takes a
  sequence number or changes the registry, it was a POST within the rate limit, its body parsed,
  its token verified, the token grants \<open>device.capability\<close>, and the device is registered with
  that capability.\<close>

theorem invoke_needs_permission:
  assumes "handleHTTPInvoke w now req ds = Some (r, started, ds')" and "\<not> untouched ds started ds'"
  shows "\<exists>msg. permitted w now req ds msg"
proof -
  obtain ok rl where al: "Allow now (hr_remote_addr req) (ds_rateLimiter ds) = (ok, rl)" by fastforce
  let ?ds = "ds\<lparr>ds_rateLimiter := rl\<rparr>"
  from assms al obtain data msg where
    d: "hr_method req = ''POST''" "ok" "hr_body req = Inr data" "ParseSSEMessage (wd_float_of w) data = Some msg"
      "check_token now req msg ?ds = None" "dispatch_invoke w now msg ?ds = Some (r, started, ds')"
    by (auto simp: handleHTTPInvoke_def untouched_def Let_def split: if_splits sum.splits option.splits)
  have "\<not> untouched ?ds started ds'" using assms(2) by (simp add: untouched_def)
  with dispatch_touches [OF d(6)] check_token_passes [OF d(5)] d al show ?thesis
    by (intro exI [of _ msg]) (auto simp: permitted_def)
qed

text \<open>The MCP endpoint of the same daemon asks for nothing: the handler of a device tool
  behaves the same whatever token manager and rate limiter the server has, so a configured secret
  guards \<open>/invoke\<close> and \<open>/devices\<close> only.\<close>

theorem mcp_tools_unguarded:
  "makeInvokeHandler w d c ps (ds\<lparr>ds_tokenManager := tm, ds_rateLimiter := rl\<rparr>) =
     map_option (\<lambda>(r, started, ds'). (r, started, ds'\<lparr>ds_tokenManager := tm, ds_rateLimiter := rl\<rparr>))
       (makeInvokeHandler w d c ps ds)"
proof -
  have "invokeCore w d c ps (ds\<lparr>ds_tokenManager := tm, ds_rateLimiter := rl\<rparr>) =
     map_option (\<lambda>(r, started, ds'). (r, started, ds'\<lparr>ds_tokenManager := tm, ds_rateLimiter := rl\<rparr>))
       (invokeCore w d c ps ds)"
    by (auto simp: invokeCore_def invoke_dcp_def invoke_urpc_def next_seq_def Let_def
        split: option.splits sum.splits prod.splits go_result.splits)
  then show ?thesis by (auto simp: makeInvokeHandler_def split: option.splits)
qed

section \<open>What the device is sent and what its answer becomes\<close>

text \<open>C4: an invocation over uRPC sends exactly one request to the bridge, with the next sequence
  byte, the command byte of the capability's map entry and the filled template, and reports the
  acknowledgement truthfully: \<open>device_busy\<close> with a retry hint exactly when the device says
  BUSY or its queue holds eight entries, otherwise the name of the status, and always the depth.\<close>

theorem urpc_invoke_exact:
  assumes "im_native (cap_implementation c) = []" and "ds_hal ds = Some h" and "hal_IsConnected h"
    and "hal_Transport h \<noteq> TransportDCP" and "gm_get (im_cmd_map (cap_implementation c)) (cap_name c) = Some entry"
    and "hal_SendURPC (hal_env.truncate w) \<lparr>req_seq = ucast ((ds_seqCounter ds + 1) mod 256), req_cmd = of_int (cm_cmd entry),
        req_payload = formatURPCPayload (wd_show_g w) (cm_fmt entry) ps\<rparr> h = Some (Ret ack, h')"
  shows "\<exists>res. invokeCore w d c ps ds = Some (Ret res, None, ds\<lparr>ds_seqCounter := ds_seqCounter ds + 1, ds_hal := Some h'\<rparr>)
    \<and> (ir_status res = StatusDeviceBusy \<longleftrightarrow> ack_status ack = StatusBusy \<or> 8 \<le> unat (ack_queue_depth ack))
    \<and> (ir_status res \<noteq> StatusDeviceBusy \<longrightarrow> ir_status res = StatusString (ack_status ack))
    \<and> (\<exists>m. ir_result res = MapResult (Some m) \<and> gm_get m ''queue_depth'' = Some (GInt (uint (ack_queue_depth ack)))
         \<and> (gm_get m ''retry_after_ms'' = Some (GInt 2000) \<longleftrightarrow> ir_status res = StatusDeviceBusy))"
proof -
  have b: "busyQueueDepthThreshold \<le> q \<longleftrightarrow> 8 \<le> unat q" for q :: u8
    by (simp add: busyQueueDepthThreshold_def word_le_nat_alt)
  have s: "StatusString st \<noteq> StatusDeviceBusy" for st
    by (simp add: StatusString_def StatusDeviceBusy_def)
  have "invokeCore w d c ps ds = Some (Ret (urpc_result ack), None, ds\<lparr>ds_seqCounter := ds_seqCounter ds + 1, ds_hal := Some h'\<rparr>)"
    using assms by (simp add: invokeCore_def invoke_urpc_def next_seq_def Let_def)
  then show ?thesis using s by (auto simp: urpc_result_def Let_def b gm_get_def)
qed

definition relay_capability :: capability where
  "relay_capability = plain_capability ''set_relay'' (zero_implementation\<lparr>im_protocol := ''urpc'',
     im_cmd_map := [(''set_relay'', \<lparr>cm_cmd = 1, cm_fmt = ''{pin} {state}''\<rparr>)]\<rparr>)"

definition busy_mock :: hal where
  "busy_mock = HMock \<lparr>mh_OpenFn = None, mh_SendURFn = Some (\<lambda>req. Ret \<lparr>ack_seq = req_seq req, ack_status = StatusOK,
     ack_queue_depth = 8\<rparr>), mh_SendDFn = None, mh_CloseFn = None, mh_TType = None\<rparr>"

definition mock_daemon :: daemon_server where
  "mock_daemon = (NewDaemonServer ''gw_1'' 8080 [] None)\<lparr>ds_hal := Some busy_mock\<rparr>"

definition echo_world :: world where
  "echo_world = \<lparr>he_ctx = \<lambda>_. None, he_cap_at = \<lambda>h. 8 - h, he_enc = empty_map_enc, he_dec = empty_map_dec,
     wd_show_g = \<lambda>_. [], wd_windows = False, wd_run = \<lambda>_ _. (Exited, ''hi'', []), wd_float_of = \<lambda>_. None\<rparr>"

theorem urpc_invoke_exact_witness:
  "\<exists>res. invokeCore echo_world ''shelf_01'' relay_capability [(''pin'', GInt 1), (''state'', GBool True)] mock_daemon
     = Some (Ret res, None, mock_daemon\<lparr>ds_seqCounter := 1, ds_hal := Some busy_mock\<rparr>) \<and> ir_status res = StatusDeviceBusy"
proof -
  have "hal_IsConnected busy_mock" "hal_Transport busy_mock \<noteq> TransportDCP"
    by (simp_all add: busy_mock_def mock_Transport_def)
  moreover have "hal_SendURPC env req busy_mock = Some (Ret \<lparr>ack_seq = req_seq req, ack_status = StatusOK,
     ack_queue_depth = 8\<rparr>, busy_mock)" for env req
    by (simp add: busy_mock_def mock_SendURPC_def)
  moreover have "ds_hal mock_daemon = Some busy_mock" "ds_seqCounter mock_daemon = 0"
    by (simp_all add: mock_daemon_def NewDaemonServer_def Let_def)
  moreover have "gm_get (im_cmd_map (cap_implementation relay_capability)) (cap_name relay_capability)
      = Some \<lparr>cm_cmd = 1, cm_fmt = ''{pin} {state}''\<rparr>" "im_native (cap_implementation relay_capability) = []"
    by (simp_all add: relay_capability_def plain_capability_def zero_implementation_def gm_get_def)
  ultimately show ?thesis
    using urpc_invoke_exact [of relay_capability mock_daemon busy_mock "\<lparr>cm_cmd = 1, cm_fmt = ''{pin} {state}''\<rparr>" echo_world
        "[(''pin'', GInt 1), (''state'', GBool True)]" _ busy_mock "''shelf_01''"] by fastforce
qed

text \<open>What a frame's payload says under a key.\<close>

definition named_in :: "dcp_frame \<Rightarrow> string \<Rightarrow> string \<Rightarrow> string" where
  "named_in fr key otherwise =
     (case df_payload fr of None \<Rightarrow> otherwise
      | Some p \<Rightarrow> (case gm_get p key of Some (GStr s) \<Rightarrow> s | _ \<Rightarrow> otherwise))"

text \<open>C5: an invocation over DCP is signed on its way out and believed only if signed on its way
  back: when a daemon whose DCP bridge has a secret gives a result, the line was sent nothing but
  copies, at most \<open>retry\<close> of them, of one signed call with the next sequence byte and the
  capability's intent id (the hash of its name if it has none), and the result is read off a frame
  whose bytes carry the HMAC under that secret: for an error frame the status \<open>dcp_error\<close>, the
  error the device named in its payload (or \<open>unknown dcp error\<close> if it named none) and the intent,
  for any other frame its payload and the status named there (or \<open>ok\<close>).\<close>

theorem dcp_invoke_authentic:
  assumes "im_native (cap_implementation c) = []" and "ds_hal ds = Some (HDcp db)" and "sp_IsConnected (db_port db)"
    and "db_hmacSecret db = Some k" and "invokeCore w d c ps ds = Some (Ret res, started, ds')"
  shows "\<exists>intent f n p p' fr raw.
    intent = (if cap_intent_id c = 0 then IntentID (d @ ''.'' @ cap_name c) else cap_intent_id c)
    \<and> EncodeDCPCall (he_enc (hal_env.truncate w)) (ucast ((ds_seqCounter ds + 1) mod 256)) intent ps = Inr f
    \<and> sp_port (db_port db) = Some p \<and> px_sent p' = px_sent p @ replicate n (AppendDCPHMAC f k)
    \<and> 0 < n \<and> int n \<le> db_retry db
    \<and> started = None \<and> ds' = ds\<lparr>ds_seqCounter := ds_seqCounter ds + 1,
         ds_hal := Some (HDcp (db\<lparr>db_port := (db_port db)\<lparr>sp_port := Some p'\<rparr>\<rparr>))\<rparr>
    \<and> DecodeDCPFrame (he_dec (hal_env.truncate w)) raw = Inr fr \<and> df_hmac fr \<noteq> [] \<and> VerifyDCPHMAC raw k
    \<and> ir_protocol res = ''dcp'' \<and> ir_intent res = intent
    \<and> (if df_kind fr = DCPError
       then ir_status res = ''dcp_error'' \<and> ir_result res = MapResult (Some
         [(''error'', GStr (named_in fr ''error'' ''unknown dcp error'')), (''intent_id'', GInt (uint intent))])
       else ir_status res = named_in fr ''status'' ''ok'' \<and> ir_result res = MapResult (df_payload fr))"
proof -
  define intent where "intent = (if cap_intent_id c = 0 then IntentID (d @ ''.'' @ cap_name c) else cap_intent_id c)"
  from assms obtain fr db' where send: "SendDCP (he_enc (hal_env.truncate w)) (he_dec (hal_env.truncate w)) (he_ctx (hal_env.truncate w))
      (ucast ((ds_seqCounter ds + 1) mod 256)) intent ps db = Some (Ret fr, db')"
    and res: "res = dcp_result intent fr" and ds': "started = None"
      "ds' = ds\<lparr>ds_seqCounter := ds_seqCounter ds + 1, ds_hal := Some (HDcp db')\<rparr>"
    by (auto simp: invokeCore_def invoke_dcp_def next_seq_def Let_def intent_def split: option.splits go_result.splits)
  from SendDCP_Ret [OF send] assms(4) obtain raw f n p p' where
    s: "DecodeDCPFrame (he_dec (hal_env.truncate w)) raw = Inr fr" "df_hmac fr \<noteq> [] \<and> VerifyDCPHMAC raw k"
      "EncodeDCPCall (he_enc (hal_env.truncate w)) (ucast ((ds_seqCounter ds + 1) mod 256)) intent ps = Inr f"
      "0 < n" "int n \<le> db_retry db" "sp_port (db_port db) = Some p"
      "db' = db\<lparr>db_port := (db_port db)\<lparr>sp_port := Some p'\<rparr>\<rparr>" "px_sent p' = px_sent p @ replicate n (AppendDCPHMAC f k)"
    by (auto simp: trusted_def sign_def)
  have "ir_protocol res = ''dcp'' \<and> ir_intent res = intent \<and>
    (if df_kind fr = DCPError
     then ir_status res = ''dcp_error'' \<and> ir_result res = MapResult (Some
       [(''error'', GStr (named_in fr ''error'' ''unknown dcp error'')), (''intent_id'', GInt (uint intent))])
     else ir_status res = named_in fr ''status'' ''ok'' \<and> ir_result res = MapResult (df_payload fr))"
    unfolding res by (simp add: dcp_result_def named_in_def Let_def StatusDCPError_def)
  with s ds' show ?thesis unfolding intent_def [symmetric]
    by (intro exI [of _ intent] exI [of _ f] exI [of _ n] exI [of _ p] exI [of _ p'] exI [of _ fr] exI [of _ raw]) simp
qed

definition dcp_capability :: capability where
  "dcp_capability = (plain_capability ''read_lux'' (zero_implementation\<lparr>im_protocol := ''dcp''\<rparr>))\<lparr>cap_intent_id := 0x1234\<rparr>"

definition dcp_daemon :: daemon_server where
  "dcp_daemon = (NewDaemonServer ''gw_1'' 8080 [] None)\<lparr>ds_hal := Some (HDcp dcp_demo_bridge), ds_seqCounter := 6\<rparr>"

theorem dcp_invoke_authentic_witness:
  "\<exists>res db'. invokeCore echo_world ''desk'' dcp_capability [] dcp_daemon
       = Some (Ret res, None, dcp_daemon\<lparr>ds_seqCounter := 7, ds_hal := Some (HDcp db')\<rparr>)
     \<and> ir_intent res = 0x1234 \<and> (\<exists>p' n. sp_port (db_port db') = Some p'
     \<and> px_sent p' = replicate n (AppendDCPHMAC [1, 1, 7, 0x12, 0x34, 1, 0xA0] [1, 2, 3]) \<and> 0 < n \<and> n \<le> 3)"
proof -
  obtain db' where "SendDCP empty_map_enc empty_map_dec (\<lambda>_. None) 7 0x1234 [] dcp_demo_bridge = Some (Ret old_frame, db')"
    using any_signed_reply_accepted_witness by blast
  moreover have conn: "sp_IsConnected (db_port dcp_demo_bridge)" "db_hmacSecret dcp_demo_bridge = Some [1, 2, 3]" "db_retry dcp_demo_bridge = 3"
    "sp_port (db_port dcp_demo_bridge) = Some dcp_demo_port" "px_sent dcp_demo_port = []"
    by (simp_all add: dcp_demo_bridge_def dcp_demo_port_def sp_IsConnected_def)
  moreover have cap: "im_native (cap_implementation dcp_capability) = []" "cap_intent_id dcp_capability = 0x1234"
    by (simp_all add: dcp_capability_def plain_capability_def zero_implementation_def)
  moreover have ds: "ds_hal dcp_daemon = Some (HDcp dcp_demo_bridge)" "ds_seqCounter dcp_daemon = 6"
    by (simp_all add: dcp_daemon_def)
  moreover have env: "he_enc (hal_env.truncate echo_world) = empty_map_enc" "he_dec (hal_env.truncate echo_world) = empty_map_dec"
    "he_ctx (hal_env.truncate echo_world) = (\<lambda>_. None)"
    by (simp_all add: echo_world_def hal_env.defs)
  ultimately obtain res ds' where run: "invokeCore echo_world ''desk'' dcp_capability [] dcp_daemon = Some (Ret res, None, ds')"
    by (simp add: invokeCore_def invoke_dcp_def next_seq_def Let_def)
  show ?thesis using dcp_invoke_authentic [OF cap(1) ds(1) conn(1,2) run] run conn cap ds env demo_encodes
    by auto
qed

section \<open>Secrets stay inside\<close>

text \<open>The same daemon with other secrets in the configurations of its devices.\<close>

definition reseal_all :: "(capability \<Rightarrow> string) \<Rightarrow> daemon_server \<Rightarrow> daemon_server" where
  "reseal_all f ds = ds\<lparr>ds_registry := (ds_registry ds)\<lparr>rg_devices :=
     map (\<lambda>(d, r). (d, r\<lparr>rd_config := reseal f (rd_config r)\<rparr>)) (rg_devices (ds_registry ds))\<rparr>\<rparr>"

text \<open>C34: no HMAC secret of a device leaves the daemon through its status endpoints: two daemons
  whose devices differ only in their secrets answer \<open>/devices\<close>, \<open>/healthz\<close> and \<open>/readyz\<close>
  alike, and no configuration in the answer to \<open>/devices\<close> holds a secret.\<close>

theorem devices_hide_secrets:
  "handleHTTPDevices now req (reseal_all f ds) = handleHTTPDevices now req ds
   \<and> handleHealthz (reseal_all f ds) = handleHealthz ds \<and> handleReadyz (reseal_all f ds) = handleReadyz ds
   \<and> (\<forall>n cfgs. handleHTTPDevices now req ds = Replied n (BDevices cfgs) \<longrightarrow> (\<forall>cfg \<in> set cfgs. secrets_of cfg \<subseteq> {[]}))"
proof (intro conjI)
  have "map (\<lambda>d. Sanitized (rd_config d)) (map snd (map (\<lambda>(d, r). (d, r\<lparr>rd_config := reseal f (rd_config r)\<rparr>)) xs))
      = map (\<lambda>d. Sanitized (rd_config d)) (map snd xs)" for xs :: "(string, registered_device) gomap"
    by (induction xs) (auto simp: Sanitized_reseal)
  then show "handleHTTPDevices now req (reseal_all f ds) = handleHTTPDevices now req ds"
    by (simp add: handleHTTPDevices_def authorized_def ListDevices_def reseal_all_def)
  show "handleHealthz (reseal_all f ds) = handleHealthz ds" "handleReadyz (reseal_all f ds) = handleReadyz ds"
    by (simp_all add: handleHealthz_def handleReadyz_def ListDevices_def reseal_all_def)
  show "\<forall>n cfgs. handleHTTPDevices now req ds = Replied n (BDevices cfgs) \<longrightarrow> (\<forall>cfg \<in> set cfgs. secrets_of cfg \<subseteq> {[]})"
    using Sanitized_secrets by (fastforce simp: handleHTTPDevices_def split: if_splits)
qed

text \<open>A configuration that passes \<open>Validate\<close> can still bring the daemon down: a heartbeat
  interval of zero is accepted, and the ticker made from it panics.\<close>

theorem valid_config_crashes:
  "\<exists>cfg. Validate cfg = None \<and> (\<exists>msg. startHeartbeatMonitor (NewDaemonServer gw port [] (Some cfg)) = Panic msg)"
proof -
  let ?cfg = "DefaultGlobalConfig\<lparr>gc_daemon := \<lparr>dm_heartbeat_interval = 0, dm_heartbeat_timeout = 60 * second, dm_state_path = []\<rparr>\<rparr>"
  have "Validate ?cfg = None" by (simp add: Validate_ok_iff DefaultGlobalConfig_def second_def)
  then show ?thesis
    by (intro exI [of _ ?cfg]) (simp add: startHeartbeatMonitor_def NewDaemonServer_def Let_def NewTicker_def)
qed

definition secret_config :: device_config where
  "secret_config = \<lparr>dc_device = \<lparr>dev_id = ''shelf_01'', dev_name = [], dev_type = ''mcu_proxy'', dev_capabilities = []\<rparr>,
     dc_capabilities = [plain_capability ''set_relay'' (zero_implementation\<lparr>im_hmac_secret := ''s3cret''\<rparr>)]\<rparr>"

definition secret_daemon :: daemon_server where
  "secret_daemon = (NewDaemonServer ''gw_1'' 8080 [] None)\<lparr>ds_registry := reg_Register 0 secret_config NewDeviceRegistry\<rparr>"

definition get_devices :: http_request where
  "get_devices = \<lparr>hr_method = ''GET'', hr_remote_addr = ''10.0.0.1:5000'', hr_authorization = [], hr_body = Inr []\<rparr>"

theorem devices_hide_secrets_witness:
  "handleHTTPDevices 0 get_devices secret_daemon = Replied 200 (BDevices [Sanitized secret_config])
   \<and> secrets_of (Sanitized secret_config) \<subseteq> {[]} \<and> ''s3cret'' \<in> secrets_of secret_config"
proof -
  have "handleHTTPDevices 0 get_devices secret_daemon = Replied 200 (BDevices [Sanitized secret_config])"
    by (simp add: handleHTTPDevices_def get_devices_def authorized_def secret_daemon_def NewDaemonServer_def Let_def
        DefaultGlobalConfig_def ListDevices_def reg_Register_def put_device_def NewDeviceRegistry_def gm_put_def)
  moreover from this have "secrets_of (Sanitized secret_config) \<subseteq> {[]}"
    using devices_hide_secrets [where now = 0 and req = get_devices and ds = secret_daemon] by auto
  moreover have "''s3cret'' \<in> secrets_of secret_config"
    by (simp add: secrets_of_def secret_config_def plain_capability_def)
  ultimately show ?thesis by blast
qed

section \<open>Concrete permission\<close>

text \<open>A daemon with a secret, the demonstration device, and a request with a token for it.\<close>

definition guarded_config :: device_config where
  "guarded_config = \<lparr>dc_device = \<lparr>dev_id = ''mock'', dev_name = [], dev_type = ''direct'', dev_capabilities = []\<rparr>,
     dc_capabilities = [echo_capability]\<rparr>"

definition guard_secret :: string where "guard_secret = ''0123456789abcdef''"

definition guarded_daemon :: daemon_server where
  "guarded_daemon = (NewDaemonServer ''gw_1'' 8080 [] None)\<lparr>
     ds_registry := reg_Register 0 guarded_config NewDeviceRegistry,
     ds_tokenManager := Some (NewTokenManager guard_secret)\<rparr>"

definition echo_request :: http_request where
  "echo_request = \<lparr>hr_method = ''POST'', hr_remote_addr = ''10.0.0.1:5000'',
     hr_authorization = ''Bearer '' @ Mint (NewTokenManager guard_secret) (Some [''mock.run'']) (60 * second) 0,
     hr_body = Inr (msg_Marshal (\<lambda>_. []) (zero_message\<lparr>sm_type := ''invoke'', sm_device_id := ''mock'',
       sm_capability := ''run'', sm_params := GMap [(''command'', GStr ''echo hi'')]\<rparr>))\<rparr>"

lemma echo_token: "Verify (NewTokenManager guard_secret) (Mint (NewTokenManager guard_secret) (Some [''mock.run'']) (60 * second) 0) 0
    = Inr \<lparr>tc_caps = Some [''mock.run''], tc_exp = 60\<rparr>"
proof -
  have "unix (0 + 60 * second) = 60" "unix 0 = 0" by (simp_all add: unix_def second_def)
  moreover have "valid_utf8 ''mock.run''" by code_simp
  ultimately show ?thesis using Mint_accepted [of "Some [''mock.run'']" 0 "60 * second" 0] by (simp add: claims_ok_def)
qed

definition echo_message :: sse_message where
  "echo_message = zero_message\<lparr>sm_type := ''invoke'', sm_device_id := ''mock'',
       sm_capability := ''run'', sm_params := GMap [(''command'', GStr ''echo hi'')]\<rparr>"

lemma echo_parses: "ParseSSEMessage f (msg_Marshal (\<lambda>_. []) echo_message) = Some echo_message"
proof -
  have "valid_utf8 ''invoke''" "valid_utf8 ''mock''" "valid_utf8 ''run''" "valid_utf8 ''command''" "valid_utf8 ''echo hi''" "valid_utf8 []" by code_simp+
  then have ok: "message_ok (\<lambda>_. []) f echo_message" by (simp add: message_ok_def echo_message_def zero_message_def)
  show ?thesis using Parse_Marshal [OF ok] by (simp add: message_read_def echo_message_def zero_message_def)
qed

lemma echo_started:
  "snd (ShellExecute g False run echo_capability [(''command'', GStr ''echo hi'')]) = Some [''sh'', ''-c'', ''echo hi'']"
proof -
  have "extractBaseCommand ''echo hi'' = ''echo''" by code_simp
  moreover have "validateCommandSafety ''echo hi'' = None" by code_simp
  ultimately have "cmd_admitted [''echo''] ''echo hi''" by (simp add: cmd_admitted_def validate_none)
  then show ?thesis by (simp add: ShellExecute_runs echo_command echo_allows shell_argv_def)
qed

lemma echo_invoked:
  "wd_windows w = False \<Longrightarrow> ds_nativeHandlers ds = NewNativeHandlerRegistry \<Longrightarrow>
   \<exists>r. invokeCore w ''mock'' echo_capability [(''command'', GStr ''echo hi'')] ds = Some (r, Some [''sh'', ''-c'', ''echo hi''], ds)"
proof -
  assume a: "wd_windows w = False" "ds_nativeHandlers ds = NewNativeHandlerRegistry"
  obtain r where "ShellExecute (wd_show_g w) False (wd_run w) echo_capability [(''command'', GStr ''echo hi'')]
      = (r, Some [''sh'', ''-c'', ''echo hi''])"
    using echo_started [of "wd_show_g w" "wd_run w"] by (metis prod.collapse)
  moreover have "im_native (cap_implementation echo_capability) = ''shell''"
    by (simp add: echo_capability_def plain_capability_def)
  ultimately show ?thesis using a
    by (simp add: invokeCore_def ExecuteNative_def NewNativeHandlerRegistry_def gm_get_def Let_def)
qed

theorem invoke_needs_permission_witness: "\<exists>msg. permitted echo_world 0 echo_request guarded_daemon msg"
proof -
  let ?w = echo_world
  obtain rl where al: "Allow 0 ''10.0.0.1:5000'' (ds_rateLimiter guarded_daemon) = (True, rl)"
    by (auto simp: guarded_daemon_def NewDaemonServer_def NewRateLimiter_def Let_def Allow_def sweep_if_due_def sweep_def
        take_token_def gm_prune_def)
  let ?ds = "guarded_daemon\<lparr>ds_rateLimiter := rl\<rparr>"
  have h: "ds_nativeHandlers ?ds = NewNativeHandlerRegistry" by (simp add: guarded_daemon_def NewDaemonServer_def Let_def)
  obtain r where iv: "invokeCore ?w ''mock'' echo_capability [(''command'', GStr ''echo hi'')] ?ds
      = Some (r, Some [''sh'', ''-c'', ''echo hi''], ?ds)"
    using echo_invoked [OF _ h, of ?w] by (auto simp: echo_world_def)
  have m: "sm_device_id echo_message = ''mock''" "sm_capability echo_message = ''run''"
    "request_params echo_message = [(''command'', GStr ''echo hi'')]"
    by (simp_all add: echo_message_def request_params_def)
  have cap: "cap_name echo_capability = ''run''" by (simp add: echo_capability_def plain_capability_def)
  have "check_token 0 echo_request echo_message ?ds = None"
    using echo_token by (simp add: check_token_def guarded_daemon_def echo_request_def trim_bearer_def m CheckCap_def
        Let_def) (simp add: Mint_def Let_def)
  moreover have "dispatch_invoke ?w 0 echo_message ?ds = Some (invoke_reply 0 echo_message r, Some [''sh'', ''-c'', ''echo hi''], ?ds)"
    using iv by (simp add: dispatch_invoke_def m GetDevice_def guarded_daemon_def reg_Register_def put_device_def
        NewDeviceRegistry_def gm_put_def gm_get_def guarded_config_def cap)
  ultimately have "handleHTTPInvoke ?w 0 echo_request guarded_daemon
      = Some (invoke_reply 0 echo_message r, Some [''sh'', ''-c'', ''echo hi''], ?ds)"
    using al echo_parses [of "wd_float_of ?w"]
    by (simp add: handleHTTPInvoke_def echo_request_def flip: echo_message_def)
  then show ?thesis by (rule invoke_needs_permission) (simp add: untouched_def)
qed

end
