(* ===== verification/DaemonRuns.thy ===== *)
theory DaemonRuns
  imports Daemon
begin

text \<open>
  The daemon as a state machine: started by \<open>daemon_boot\<close>, then driven by requests, tool
  calls, the ticks of its background loops and the shutdown, in any order. The invariant: a
  connected bridge has a port, so no call ever dereferences a missing one.
\<close>

section \<open>Steps\<close>

inductive daemon_step :: "daemon_server \<Rightarrow> daemon_server \<Rightarrow> bool" where
  http: "handleHTTPInvoke w now req ds = Some (r, started, ds') \<Longrightarrow> daemon_step ds ds'"
| tool: "gm_get (ds_tools ds) name = Some (d, c) \<Longrightarrow> makeInvokeHandler w d c ps ds = Some (r, started, ds') \<Longrightarrow>
    daemon_step ds ds'"
| heartbeat: "daemon_step ds (snd (heartbeat_tick now ds))"
| reconnect: "daemon_step ds (reconnect_tick drv cls ds)"
| shutdown: "daemon_step ds (shutdown cls ds)"

inductive daemon_reach :: "daemon_server \<Rightarrow> bool" where
  boot: "daemon_boot read_file yaml drv unmarshal fs now (NewDaemonServer gw port path cfg) = Inr ds \<Longrightarrow> daemon_reach ds"
| step: "daemon_reach ds \<Longrightarrow> daemon_step ds ds' \<Longrightarrow> daemon_reach ds'"

inductive_cases daemon_stepE: "daemon_step ds ds'"

section \<open>The invariant\<close>

fun hal_ok :: "hal \<Rightarrow> bool" where
  "hal_ok (HSerial sb) = serial_ok (sb_port sb)"
| "hal_ok (HDcp db) = serial_ok (db_port db)"
| "hal_ok (HMock m) = False"

definition daemon_ok :: "daemon_server \<Rightarrow> bool" where
  "daemon_ok ds \<longleftrightarrow> (\<forall>h. ds_hal ds = Some h \<longrightarrow> hal_ok h) \<and> registry_ok (ds_registry ds)"

lemma serial_ok_open: "serial_ok sp \<Longrightarrow> serial_ok (snd (sp_Open drv ch b sp))"
  using serial_ok_step [of sp "SOpen drv ch b"] by simp

lemma serial_ok_close: "serial_ok sp \<Longrightarrow> serial_ok (snd (sp_Close cls sp))"
  using serial_ok_step [of sp "SClose cls"] by simp

lemma serial_ok_reconnect: "serial_ok sp \<Longrightarrow> serial_ok (snd (sp_Reconnect drv cls sp))"
  using serial_ok_step [of sp "SReconnect drv cls"] by simp

lemma hal_ok_open: "hal_ok h \<Longrightarrow> hal_ok (snd (hal_Open drv ch b h))"
  by (cases h) (simp_all add: split_def Let_def serial_ok_open)

lemma hal_ok_close: "hal_ok h \<Longrightarrow> hal_ok (snd (hal_Close cls h))"
  by (cases h) (simp_all add: split_def Let_def serial_ok_close)

lemma hal_ok_reconnect: "hal_ok h \<Longrightarrow> hal_ok (snd (hal_Reconnect drv cls h))"
  by (cases h) (simp_all add: split_def Let_def serial_ok_reconnect)

lemma hal_ok_urpc: "hal_ok h \<Longrightarrow> hal_SendURPC env req h = Some (r, h') \<Longrightarrow> hal_ok h'"
  by (cases h) (auto simp: SendURPC_def db_SendURPC_def serial_ok_def split: sum.splits option.splits)

lemma hal_ok_dcp: "hal_ok h \<Longrightarrow> hal_SendDCP env seq i ps h = Some (r, h') \<Longrightarrow> hal_ok h'"
  by (cases h) (auto simp: SendDCP_def sb_SendDCP_def serial_ok_def split: sum.splits option.splits)

lemma make_hal_ok: "hal_ok (make_hal impl)"
  by (simp add: make_hal_def NewDCPBridge_def NewSerialBridge_def db_SetRetry_def sb_SetRetry_def SetHMACSecret_def
      Let_def serial_ok_new)

lemmas hal_steps = hal_ok_open hal_ok_close hal_ok_reconnect make_hal_ok

lemma registerDeviceTools_frame:
  "ds_hal (registerDeviceTools cfg ds) = ds_hal ds \<and> ds_registry (registerDeviceTools cfg ds) = ds_registry ds
   \<and> ds_cfg (registerDeviceTools cfg ds) = ds_cfg ds"
proof -
  let ?add = "\<lambda>c ds. ds\<lparr>ds_tools := gm_put (dev_id (dc_device cfg) @ ''.'' @ cap_name c) (dev_id (dc_device cfg), c) (ds_tools ds)\<rparr>"
  have "ds_hal (fold ?add cs ds) = ds_hal ds \<and> ds_registry (fold ?add cs ds) = ds_registry ds
      \<and> ds_cfg (fold ?add cs ds) = ds_cfg ds" for cs
    by (induction cs arbitrary: ds) simp_all
  then show ?thesis unfolding registerDeviceTools_def Let_def .
qed

lemma daemon_ok_init: "daemon_ok ds \<Longrightarrow> daemon_ok (init_hal drv cfg ds)"
  by (auto simp: init_hal_def daemon_ok_def Let_def hal_steps split: list.splits)

lemma daemon_ok_load:
  "daemon_ok ds \<Longrightarrow> loadConfig read_file yaml drv now path ds = (e, ds') \<Longrightarrow> daemon_ok ds'"
proof -
  assume ok: "daemon_ok ds"
  have "daemon_ok (registerDeviceTools cfg (ds\<lparr>ds_registry := reg_Register now cfg (ds_registry ds)\<rparr>))" for cfg
    using ok registerDeviceTools_frame [of cfg "ds\<lparr>ds_registry := reg_Register now cfg (ds_registry ds)\<rparr>"]
    by (simp add: daemon_ok_def reg_Register_def registry_ok_put)
  moreover assume "loadConfig read_file yaml drv now path ds = (e, ds')"
  ultimately show ?thesis using ok by (auto simp: loadConfig_def Let_def intro: daemon_ok_init split: sum.splits)
qed

lemma daemon_ok_boot:
  assumes "daemon_boot read_file yaml drv unmarshal fs now (NewDaemonServer gw port path cfg) = Inr ds"
  shows "daemon_ok ds"
proof -
  have new: "daemon_ok (NewDaemonServer gw port path cfg)"
    by (simp add: daemon_ok_def NewDaemonServer_def Let_def registry_ok_new)
  show ?thesis using assms daemon_ok_load [OF new] new
    by (auto simp: daemon_boot_def Let_def daemon_ok_def registry_ok_restore registry_ok_path split: if_splits prod.splits option.splits)
qed

lemma invokeCore_ok: "daemon_ok ds \<Longrightarrow> invokeCore w d c ps ds = Some (r, started, ds') \<Longrightarrow> daemon_ok ds'"
  by (auto simp: invokeCore_def invoke_dcp_def invoke_urpc_def next_seq_def Let_def daemon_ok_def
      split: if_splits option.splits prod.splits sum.splits go_result.splits dest: hal_ok_urpc hal_ok_dcp)

lemma daemon_ok_frame: "daemon_ok (ds\<lparr>ds_rateLimiter := rl\<rparr>) = daemon_ok ds"
  by (simp add: daemon_ok_def)

lemma handleHTTPInvoke_ok:
  "daemon_ok ds \<Longrightarrow> handleHTTPInvoke w now req ds = Some (r, started, ds') \<Longrightarrow> daemon_ok ds'"
  by (auto simp: handleHTTPInvoke_def dispatch_invoke_def Let_def daemon_ok_frame
      split: if_splits option.splits prod.splits sum.splits dest: invokeCore_ok [rotated])

lemma daemon_ok_step: "daemon_step ds ds' \<Longrightarrow> daemon_ok ds \<Longrightarrow> daemon_ok ds'"
proof (induction rule: daemon_step.induct)
  case (http w now req ds r started ds')
  then show ?case by (blast intro: handleHTTPInvoke_ok)
next
  case (tool ds name d c w ps r started ds')
  then show ?case by (auto simp: makeInvokeHandler_def split: option.splits prod.splits dest: invokeCore_ok [rotated])
next
  case (heartbeat ds now)
  then show ?case using registry_ok_prune by (auto simp: heartbeat_tick_def daemon_ok_def Let_def split_def)
next
  case (reconnect ds drv cls)
  then show ?case by (auto simp: reconnect_tick_def daemon_ok_def hal_steps split: option.split)
next
  case (shutdown ds cls)
  then show ?case by (auto simp: shutdown_def daemon_ok_def hal_steps split: option.split)
qed

lemma reachable_daemon_ok: "daemon_reach ds \<Longrightarrow> daemon_ok ds"
  by (induction rule: daemon_reach.induct) (auto intro: daemon_ok_boot daemon_ok_step)

section \<open>No missing port is ever used\<close>

lemma decode_panics: "decode_first5 cp buf = Panic s \<Longrightarrow> s = ''slice bounds out of range''"
  by (auto simp: decode_first5_def split: option.splits sum.splits)

lemma read_panics: "readURPCAck cap_at p = Some (Panic s, p') \<Longrightarrow> s = ''slice bounds out of range''"
  by (auto simp: readURPCAck_def Let_def split: option.splits sum.splits prod.splits if_splits dest: decode_panics)

lemma urpc_attempts_panics:
  "urpc_attempts cap_at ctx f retry attempt left p = Some (Panic s, p') \<Longrightarrow> s = ''slice bounds out of range''"
  by (induction left arbitrary: attempt p)
    (auto split: option.splits prod.splits go_result.splits dest: read_panics)

lemma dcp_attempts_no_panic:
  "dcp_attempts enc dec ctx seq i ps secret retry attempt left p \<noteq> Some (Panic s, p')"
  by (induction left arbitrary: attempt p) (auto split: option.splits sum.splits prod.splits)

lemma urpc_panics:
  "hal_ok h \<Longrightarrow> hal_IsConnected h \<Longrightarrow> hal_SendURPC env req h = Some (Panic s, h') \<Longrightarrow> s = ''slice bounds out of range''"
  by (cases h) (auto simp: SendURPC_def db_SendURPC_def serial_ok_def sp_IsConnected_def
      split: sum.splits option.splits dest: urpc_attempts_panics)

lemma dcp_panics:
  "hal_ok h \<Longrightarrow> hal_IsConnected h \<Longrightarrow> hal_SendDCP env seq i ps h \<noteq> Some (Panic s, h')"
  by (cases h) (auto simp: SendDCP_def sb_SendDCP_def serial_ok_def sp_IsConnected_def dcp_attempts_no_panic
      split: sum.splits option.splits)

lemma invoke_panics:
  assumes "daemon_ok ds" and "invokeCore w d c ps ds = Some (Panic s, started, ds')"
  shows "s = ''slice bounds out of range'' \<and> ds_hal ds \<noteq> None"
proof -
  have "\<And>h. ds_hal ds = Some h \<Longrightarrow> hal_ok h" using assms(1) by (simp add: daemon_ok_def)
  with assms(2) show ?thesis
    by (auto simp: invokeCore_def invoke_dcp_def invoke_urpc_def next_seq_def Let_def
        split: if_splits option.splits prod.splits sum.splits go_result.splits dest: urpc_panics dcp_panics)
qed

text \<open>C6: in every state the daemon can reach, however requests, tool calls, reconnects, heartbeats
  and the shutdown are interleaved, a bridge that calls itself connected has its port, and every
  registered device is filed under its own id and static; so an invocation never dereferences a
  missing port or bridge: if \<open>invokeCore\<close> panics, there is a bridge and the panic is the slice
  bound in \<open>readURPCAck\<close>.\<close>

theorem daemon_never_nil:
  assumes "daemon_reach ds"
  shows "(\<forall>h. ds_hal ds = Some h \<longrightarrow> hal_ok h)
    \<and> (\<forall>d r. GetDevice d (ds_registry ds) = Some r \<longrightarrow> dev_id (dc_device (rd_config r)) = d \<and> rd_static r)
    \<and> (\<forall>w d c ps s started ds'. invokeCore w d c ps ds = Some (Panic s, started, ds') \<longrightarrow>
          s = ''slice bounds out of range'' \<and> ds_hal ds \<noteq> None)"
proof -
  have ok: "daemon_ok ds" by (rule reachable_daemon_ok [OF assms])
  moreover have "dev_id (dc_device (rd_config r)) = d \<and> rd_static r" if "GetDevice d (ds_registry ds) = Some r" for d r
    using ok that gm_get_in_set [of "rg_devices (ds_registry ds)" d r]
    by (fastforce simp: daemon_ok_def registry_ok_def GetDevice_def)
  ultimately show ?thesis using invoke_panics [OF ok] by (simp add: daemon_ok_def)
qed

text \<open>A daemon for one board on a line that drops everything after four stray bytes and a header.\<close>

definition noisy_port :: port where
  "noisy_port = port_of (nth [RData [1, 2, 3, 4, 0xBB], RData []])"

definition noisy_capability :: capability where
  "noisy_capability = plain_capability ''ping'' (zero_implementation\<lparr>im_channel := ''/dev/ttyUSB0'',
     im_cmd_map := [(''ping'', \<lparr>cm_cmd = 2, cm_fmt = []\<rparr>)]\<rparr>)"

definition noisy_config :: device_config where
  "noisy_config = \<lparr>dc_device = \<lparr>dev_id = ''board'', dev_name = [], dev_type = ''mcu_proxy'', dev_capabilities = []\<rparr>,
     dc_capabilities = [noisy_capability]\<rparr>"

definition noisy_boot :: "string + daemon_server" where
  "noisy_boot = daemon_boot (\<lambda>_. Inr []) (\<lambda>_. Inr noisy_config) (\<lambda>_ _. Inr (noisy_port, None)) (\<lambda>_. Inr []) [] 0
     (NewDaemonServer ''gw_1'' 8080 ''device.yaml'' None)"

definition noisy_world :: world where
  "noisy_world = \<lparr>he_ctx = \<lambda>_. None, he_cap_at = \<lambda>h. 8 - h, he_enc = empty_map_enc, he_dec = empty_map_dec,
     wd_show_g = \<lambda>_. [], wd_windows = False, wd_run = \<lambda>_ _. (Exited, [], []), wd_float_of = \<lambda>_. None\<rparr>"

lemma noisy_booted: "\<exists>ds. noisy_boot = Inr ds \<and> (\<exists>sb. ds_hal ds = Some (HSerial sb) \<and> sp_port (sb_port sb) = Some noisy_port
    \<and> sp_connected (sb_port sb) \<and> sb_retry sb = 3)"
proof -
  let ?ds = "snd (loadConfig (\<lambda>_. Inr []) (\<lambda>_. Inr noisy_config) (\<lambda>_ _. Inr (noisy_port, None)) 0 ''device.yaml''
      (NewDaemonServer ''gw_1'' 8080 ''device.yaml'' None))"
  have "noisy_boot = Inr ?ds"
    using registerDeviceTools_frame
    by (simp add: noisy_boot_def daemon_boot_def loadConfig_def Let_def NewDaemonServer_def DefaultGlobalConfig_def
        init_hal_def split: list.split)
  moreover have "\<exists>sb. ds_hal ?ds = Some (HSerial sb) \<and> sp_port (sb_port sb) = Some noisy_port
      \<and> sp_connected (sb_port sb) \<and> sb_retry sb = 3"
    by (simp add: loadConfig_def Let_def init_hal_def noisy_config_def noisy_capability_def plain_capability_def
        zero_implementation_def make_hal_def sp_Open_def NewSerialBridge_def sb_SetRetry_def maxURPCRetries_def)
  ultimately show ?thesis by blast
qed

lemma noisy_read: "\<exists>p'. readURPCAck (\<lambda>h. 8 - h) (noisy_port\<lparr>px_sent := fs\<rparr>) = Some (Panic ''slice bounds out of range'', p')"
proof -
  have "\<exists>p'. readURPCAck (\<lambda>h. 8 - h) (noisy_port\<lparr>px_sent := fs\<rparr>)
      = Some (decode_first5 (8 - length [1, 2, 3, 4 :: u8]) (HeaderAck # [] @ []), p') \<and> px_sent p' = px_sent (noisy_port\<lparr>px_sent := fs\<rparr>)"
    by (rule readURPCAck_after_noise [where frags = "[[1, 2, 3, 4, 0xBB]]"])
      (simp_all add: noisy_port_def delivers_def HeaderAck_def port_of_def)
  then show ?thesis by (auto simp: decode_first5_def slice_to_def)
qed

theorem daemon_never_nil_witness:
  "\<exists>ds ds'. daemon_reach ds \<and> invokeCore noisy_world ''board'' noisy_capability [] ds
     = Some (Panic ''slice bounds out of range'', None, ds') \<and> ds_hal ds \<noteq> None"
proof -
  obtain ds sb where ds: "noisy_boot = Inr ds" "ds_hal ds = Some (HSerial sb)" "sp_port (sb_port sb) = Some noisy_port"
      "sp_connected (sb_port sb)" "sb_retry sb = 3" using noisy_booted by blast
  have reach: "daemon_reach ds" using ds(1) unfolding noisy_boot_def by (rule daemon_reach.boot)
  define req where "req = \<lparr>req_seq = ucast ((ds_seqCounter ds + 1) mod 256), req_cmd = 2, req_payload = []\<rparr>"
  obtain f where f: "EncodeRequest req = Inr f" by (simp add: req_def EncodeRequest_def MaxPayloadSize_def Let_def)
  obtain p' where "readURPCAck (\<lambda>h. 8 - h) (noisy_port\<lparr>px_sent := [f]\<rparr>) = Some (Panic ''slice bounds out of range'', p')"
    using noisy_read by blast
  moreover have "port_write f noisy_port = (None, noisy_port\<lparr>px_sent := [f]\<rparr>)"
    by (simp add: port_write_def noisy_port_def port_of_def)
  ultimately have "urpc_attempts (\<lambda>h. 8 - h) (\<lambda>_. None) f 3 0 (Suc 2) noisy_port = Some (Panic ''slice bounds out of range'', p')"
    unfolding urpc_attempts.simps(2) by simp
  then have "urpc_attempts (\<lambda>h. 8 - h) (\<lambda>_. None) f 3 0 3 noisy_port = Some (Panic ''slice bounds out of range'', p')"
    by (simp only: eval_nat_numeral)
  then obtain sb' where "SendURPC (\<lambda>h. 8 - h) (\<lambda>_. None) req sb = Some (Panic ''slice bounds out of range'', sb')"
    using ds f by (simp add: SendURPC_def)
  then obtain h' where "hal_SendURPC (hal_env.truncate noisy_world) req (HSerial sb) = Some (Panic ''slice bounds out of range'', h')"
    by (simp add: noisy_world_def hal_env.defs)
  then have "\<exists>ds'. invokeCore noisy_world ''board'' noisy_capability [] ds = Some (Panic ''slice bounds out of range'', None, ds')"
    using ds by (auto simp: invokeCore_def invoke_urpc_def next_seq_def Let_def req_def noisy_capability_def plain_capability_def
        zero_implementation_def gm_get_def sp_IsConnected_def formatURPCPayload_def)
  then show ?thesis using reach daemon_never_nil [OF reach] by blast
qed

end
