(* ===== verification/RouteTable.thy ===== *)
theory RouteTable
  imports Stores
begin

text \<open>
  The sidecar's route table, \<open>RouteTable\<close> of \<open>internal/model/device.go\<close>: gateways by
  id, devices by id, and the lock that every method takes. Each method is its critical section
  (named \<open>..._body\<close>) run under the lock. Go's \<open>sync.RWMutex\<close> is not reentrant: a
  goroutine that asks for a lock it holds in writing waits for ever, and that outcome is
  \<open>Blocked\<close>. The status callback runs inside the critical section, as in the code.
\<close>

section \<open>State\<close>

definition GatewayOnline :: string where "GatewayOnline = ''online''"
definition GatewayMaintenance :: string where "GatewayMaintenance = ''maintenance''"
definition GatewayOffline :: string where "GatewayOffline = ''offline''"

lemmas gateway_states = GatewayOnline_def GatewayMaintenance_def GatewayOffline_def

record gateway_meta =
  gw_id :: string
  gw_url :: string
  gw_devices :: "string list"
  gw_last_heartbeat :: int
  gw_status :: string

datatype rwmutex = Free | Readers nat | Writer

record route_table =
  rt_gateways :: "(string, gateway_meta) gomap"
  rt_devices :: "(string, string) gomap"
  rt_mu :: rwmutex

datatype 'a outcome = Done 'a | Blocked

text \<open>
  A callback gets the gateway, its old and its new status; it may use the route table and
  changes the rest \<open>'w\<close> of the process.
\<close>

type_synonym 'w status_callback =
  "string \<Rightarrow> string \<Rightarrow> string \<Rightarrow> route_table \<times> 'w \<Rightarrow> (route_table \<times> 'w) outcome"

section \<open>The lock\<close>

definition rt_Lock :: "route_table \<Rightarrow> route_table outcome" where
  "rt_Lock rt = (if rt_mu rt = Free then Done (rt\<lparr>rt_mu := Writer\<rparr>) else Blocked)"

definition rt_Unlock :: "route_table \<Rightarrow> route_table" where
  "rt_Unlock rt = rt\<lparr>rt_mu := Free\<rparr>"

definition rt_RLock :: "route_table \<Rightarrow> route_table outcome" where
  "rt_RLock rt = (case rt_mu rt of
     Free \<Rightarrow> Done (rt\<lparr>rt_mu := Readers 0\<rparr>)
   | Readers n \<Rightarrow> Done (rt\<lparr>rt_mu := Readers (Suc n)\<rparr>)
   | Writer \<Rightarrow> Blocked)"

definition rt_RUnlock :: "route_table \<Rightarrow> route_table" where
  "rt_RUnlock rt = (case rt_mu rt of
     Readers (Suc n) \<Rightarrow> rt\<lparr>rt_mu := Readers n\<rparr>
   | _ \<Rightarrow> rt\<lparr>rt_mu := Free\<rparr>)"

text \<open>A method that reads, and a method that writes, under its lock.\<close>

definition reading :: "(route_table \<Rightarrow> 'a) \<Rightarrow> route_table \<Rightarrow> ('a \<times> route_table) outcome" where
  "reading f rt = (case rt_RLock rt of Blocked \<Rightarrow> Blocked | Done rt' \<Rightarrow> Done (f rt', rt_RUnlock rt'))"

definition writing :: "(route_table \<Rightarrow> 'a \<times> route_table) \<Rightarrow> route_table \<Rightarrow> ('a \<times> route_table) outcome" where
  "writing f rt = (case rt_Lock rt of Blocked \<Rightarrow> Blocked
     | Done rt' \<Rightarrow> (let (a, rt'') = f rt' in Done (a, rt_Unlock rt'')))"

section \<open>Operations\<close>

definition NewRouteTable :: route_table where
  "NewRouteTable = \<lparr>rt_gateways = [], rt_devices = [], rt_mu = Free\<rparr>"

fun contains :: "string list \<Rightarrow> string \<Rightarrow> bool" where
  "contains [] s = False"
| "contains (v # vs) s = (if v = s then True else contains vs s)"

text \<open>The loop that merges announced devices into a known gateway.\<close>

fun merge_devices :: "string \<Rightarrow> string list \<Rightarrow> gateway_meta \<times> (string, string) gomap \<Rightarrow>
    gateway_meta \<times> (string, string) gomap" where
  "merge_devices g [] (existing, devs) = (existing, devs)"
| "merge_devices g (d # ds) (existing, devs) =
     (if \<not> contains (gw_devices existing) d
      then merge_devices g ds (existing\<lparr>gw_devices := gw_devices existing @ [d]\<rparr>, gm_put d g devs)
      else merge_devices g ds (existing, devs))"

definition Register_body :: "go_time \<Rightarrow> gateway_meta \<Rightarrow> route_table \<Rightarrow> route_table" where
  "Register_body now gw rt =
     (case gm_get (rt_gateways rt) (gw_id gw) of
        Some existing \<Rightarrow>
          (let (existing, devs) = merge_devices (gw_id gw) (gw_devices gw)
                 (existing\<lparr>gw_url := gw_url gw\<rparr>, rt_devices rt) in
           rt\<lparr>rt_gateways := gm_put (gw_id gw) existing (rt_gateways rt), rt_devices := devs\<rparr>)
      | None \<Rightarrow>
          (let meta = \<lparr>gw_id = gw_id gw, gw_url = gw_url gw, gw_devices = gw_devices gw,
                 gw_last_heartbeat = unix now, gw_status = GatewayOnline\<rparr> in
           rt\<lparr>rt_gateways := gm_put (gw_id gw) meta (rt_gateways rt),
              rt_devices := fold (\<lambda>d. gm_put d (gw_id gw)) (gw_devices gw) (rt_devices rt)\<rparr>))"

definition rt_Register :: "go_time \<Rightarrow> gateway_meta \<Rightarrow> route_table \<Rightarrow> (unit \<times> route_table) outcome" where
  "rt_Register now gw = writing (\<lambda>rt. ((), Register_body now gw rt))"

definition AddDevice_body :: "go_time \<Rightarrow> string \<Rightarrow> string \<Rightarrow> route_table \<Rightarrow> route_table" where
  "AddDevice_body now g d rt =
     (let (gw, gws) = (case gm_get (rt_gateways rt) g of
            Some gw \<Rightarrow> (gw, rt_gateways rt)
          | None \<Rightarrow> (let gw = \<lparr>gw_id = g, gw_url = [], gw_devices = [],
                gw_last_heartbeat = unix now, gw_status = GatewayOnline\<rparr>
              in (gw, gm_put g gw (rt_gateways rt)))) in
      if \<not> contains (gw_devices gw) d
      then rt\<lparr>rt_gateways := gm_put g (gw\<lparr>gw_devices := gw_devices gw @ [d]\<rparr>) gws,
              rt_devices := gm_put d g (rt_devices rt)\<rparr>
      else rt\<lparr>rt_gateways := gws\<rparr>)"

definition AddDevice :: "go_time \<Rightarrow> string \<Rightarrow> string \<Rightarrow> route_table \<Rightarrow> (unit \<times> route_table) outcome" where
  "AddDevice now g d = writing (\<lambda>rt. ((), AddDevice_body now g d rt))"

definition Unregister_body :: "string \<Rightarrow> route_table \<Rightarrow> string list \<times> route_table" where
  "Unregister_body g rt =
     (case gm_get (rt_gateways rt) g of
        None \<Rightarrow> ([], rt)
      | Some gw \<Rightarrow> (gw_devices gw,
          rt\<lparr>rt_devices := fold gm_del (gw_devices gw) (rt_devices rt),
             rt_gateways := gm_del g (rt_gateways rt)\<rparr>))"

definition Unregister :: "string \<Rightarrow> route_table \<Rightarrow> (string list \<times> route_table) outcome" where
  "Unregister g = writing (Unregister_body g)"

definition Lookup_body :: "string \<Rightarrow> route_table \<Rightarrow> string option" where
  "Lookup_body d rt =
     (case gm_get (rt_devices rt) d of
        None \<Rightarrow> None
      | Some g \<Rightarrow> (case gm_get (rt_gateways rt) g of
            None \<Rightarrow> None
          | Some gw \<Rightarrow> Some (gw_url gw)))"

definition Lookup :: "string \<Rightarrow> route_table \<Rightarrow> (string option \<times> route_table) outcome" where
  "Lookup d = reading (Lookup_body d)"

record device_row =
  dr_device_id :: string
  dr_gateway_id :: string
  dr_gateway_url :: string
  dr_status :: string
  dr_last_heartbeat :: int

definition AllDevices_body :: "route_table \<Rightarrow> device_row list" where
  "AllDevices_body rt = concat (map (\<lambda>(k, gw). map (\<lambda>d.
      \<lparr>dr_device_id = d, dr_gateway_id = gw_id gw, dr_gateway_url = gw_url gw,
       dr_status = gw_status gw, dr_last_heartbeat = gw_last_heartbeat gw\<rparr>) (gw_devices gw)) (rt_gateways rt))"

definition AllDevices :: "route_table \<Rightarrow> (device_row list \<times> route_table) outcome" where
  "AllDevices = reading AllDevices_body"

definition Gateways :: "route_table \<Rightarrow> (gateway_meta list \<times> route_table) outcome" where
  "Gateways = reading (\<lambda>rt. map snd (rt_gateways rt))"

definition DevicesByGateway_body :: "string \<Rightarrow> route_table \<Rightarrow> string list" where
  "DevicesByGateway_body g rt = (case gm_get (rt_gateways rt) g of None \<Rightarrow> [] | Some gw \<Rightarrow> gw_devices gw)"

definition DevicesByGateway :: "string \<Rightarrow> route_table \<Rightarrow> (string list \<times> route_table) outcome" where
  "DevicesByGateway g = reading (DevicesByGateway_body g)"

definition run_callback :: "'w status_callback option \<Rightarrow> string \<Rightarrow> string \<Rightarrow> string \<Rightarrow>
    route_table \<times> 'w \<Rightarrow> (route_table \<times> 'w) outcome" where
  "run_callback cb g old new s = (case cb of None \<Rightarrow> Done s | Some fn \<Rightarrow> fn g old new s)"

definition UpdateHeartbeat :: "'w status_callback option \<Rightarrow> go_time \<Rightarrow> string \<Rightarrow> route_table \<times> 'w \<Rightarrow>
    (route_table \<times> 'w) outcome" where
  "UpdateHeartbeat cb now g s =
     (let (rt, w) = s in
      case rt_Lock rt of Blocked \<Rightarrow> Blocked
      | Done rt \<Rightarrow>
          (case gm_get (rt_gateways rt) g of
             None \<Rightarrow> Done (rt_Unlock rt, w)
           | Some gw \<Rightarrow>
               (let old = gw_status gw;
                    rt = rt\<lparr>rt_gateways := gm_put g
                      (gw\<lparr>gw_last_heartbeat := unix now, gw_status := GatewayOnline\<rparr>) (rt_gateways rt)\<rparr> in
                case (if old \<noteq> GatewayOnline then run_callback cb g old GatewayOnline (rt, w) else Done (rt, w)) of
                  Blocked \<Rightarrow> Blocked
                | Done (rt, w) \<Rightarrow> Done (rt_Unlock rt, w))))"

definition SetGatewayStatus :: "'w status_callback option \<Rightarrow> string \<Rightarrow> string \<Rightarrow> route_table \<times> 'w \<Rightarrow>
    (bool \<times> route_table \<times> 'w) outcome" where
  "SetGatewayStatus cb g newStatus s =
     (let (rt, w) = s in
      case rt_Lock rt of Blocked \<Rightarrow> Blocked
      | Done rt \<Rightarrow>
          (case gm_get (rt_gateways rt) g of
             None \<Rightarrow> Done (False, rt_Unlock rt, w)
           | Some gw \<Rightarrow>
               (let old = gw_status gw in
                if old = newStatus then Done (True, rt_Unlock rt, w)
                else
                  (let rt = rt\<lparr>rt_gateways := gm_put g (gw\<lparr>gw_status := newStatus\<rparr>) (rt_gateways rt)\<rparr> in
                   case run_callback cb g old newStatus (rt, w) of
                     Blocked \<Rightarrow> Blocked
                   | Done (rt, w) \<Rightarrow> Done (True, rt_Unlock rt, w)))))"

definition StaleGateways_body :: "go_time \<Rightarrow> duration \<Rightarrow> duration \<Rightarrow> route_table \<Rightarrow> string list \<times> string list" where
  "StaleGateways_body t maintenanceTimeout offlineTimeout rt =
     (let now = unix t;
          off = (\<lambda>gw. now - gw_last_heartbeat gw > seconds_of offlineTimeout);
          maint = (\<lambda>gw. \<not> off gw \<and> now - gw_last_heartbeat gw > seconds_of maintenanceTimeout) in
      (map fst (filter (\<lambda>(k, gw). maint gw) (rt_gateways rt)),
       map fst (filter (\<lambda>(k, gw). off gw) (rt_gateways rt))))"

definition StaleGateways :: "go_time \<Rightarrow> duration \<Rightarrow> duration \<Rightarrow> route_table \<Rightarrow>
    ((string list \<times> string list) \<times> route_table) outcome" where
  "StaleGateways t maintenanceTimeout offlineTimeout =
     reading (StaleGateways_body t maintenanceTimeout offlineTimeout)"

section \<open>Methods called with the lock free\<close>

lemma reading_free [lockfree]: "rt_mu rt = Free \<Longrightarrow> reading f rt = Done (f (rt\<lparr>rt_mu := Readers 0\<rparr>), rt)"
  by (simp add: reading_def rt_RLock_def rt_RUnlock_def)

lemma writing_free [lockfree]:
  "rt_mu rt = Free \<Longrightarrow> writing f rt =
     Done (fst (f (rt\<lparr>rt_mu := Writer\<rparr>)), (snd (f (rt\<lparr>rt_mu := Writer\<rparr>)))\<lparr>rt_mu := Free\<rparr>)"
  by (simp add: writing_def rt_Lock_def rt_Unlock_def split_def Let_def)

lemma reading_in_writer [lockfree]: "rt_mu rt = Writer \<Longrightarrow> reading f rt = Blocked"
  by (simp add: reading_def rt_RLock_def)

lemma writing_held [lockfree]: "rt_mu rt \<noteq> Free \<Longrightarrow> writing f rt = Blocked"
  by (simp add: writing_def rt_Lock_def)

text \<open>The bodies do not look at the lock.\<close>

lemma bodies_ignore_lock [simp]:
  "Lookup_body d (rt\<lparr>rt_mu := m\<rparr>) = Lookup_body d rt"
  "AllDevices_body (rt\<lparr>rt_mu := m\<rparr>) = AllDevices_body rt"
  "DevicesByGateway_body g (rt\<lparr>rt_mu := m\<rparr>) = DevicesByGateway_body g rt"
  "StaleGateways_body t a b (rt\<lparr>rt_mu := m\<rparr>) = StaleGateways_body t a b rt"
  by (simp_all add: Lookup_body_def AllDevices_body_def DevicesByGateway_body_def StaleGateways_body_def
      split: option.split)

lemma Lookup_free [lockfree]: "rt_mu rt = Free \<Longrightarrow> Lookup d rt = Done (Lookup_body d rt, rt)"
  by (simp add: Lookup_def reading_free)

lemma AllDevices_free [lockfree]: "rt_mu rt = Free \<Longrightarrow> AllDevices rt = Done (AllDevices_body rt, rt)"
  by (simp add: AllDevices_def reading_free)

lemma Gateways_free [lockfree]: "rt_mu rt = Free \<Longrightarrow> Gateways rt = Done (map snd (rt_gateways rt), rt)"
  by (simp add: Gateways_def reading_free)

lemma DevicesByGateway_free [lockfree]:
  "rt_mu rt = Free \<Longrightarrow> DevicesByGateway g rt = Done (DevicesByGateway_body g rt, rt)"
  by (simp add: DevicesByGateway_def reading_free)

lemma StaleGateways_free [lockfree]:
  "rt_mu rt = Free \<Longrightarrow> StaleGateways t a b rt = Done (StaleGateways_body t a b rt, rt)"
  by (simp add: StaleGateways_def reading_free)

lemma Register_lock [simp]: "rt_mu (Register_body now gw rt) = rt_mu rt"
  by (simp add: Register_body_def Let_def split: option.split prod.split)

lemma AddDevice_lock [simp]: "rt_mu (AddDevice_body now g d rt) = rt_mu rt"
  by (simp add: AddDevice_body_def Let_def split: option.split prod.split)

lemma Unregister_lock [simp]: "rt_mu (snd (Unregister_body g rt)) = rt_mu rt"
  by (simp add: Unregister_body_def split: option.split)

lemma Register_ignores_lock [simp]:
  "Register_body now gw (rt\<lparr>rt_mu := m\<rparr>) = (Register_body now gw rt)\<lparr>rt_mu := m\<rparr>"
  by (simp add: Register_body_def Let_def split: option.split prod.split)

lemma AddDevice_ignores_lock [simp]:
  "AddDevice_body now g d (rt\<lparr>rt_mu := m\<rparr>) = (AddDevice_body now g d rt)\<lparr>rt_mu := m\<rparr>"
  by (simp add: AddDevice_body_def Let_def split: option.split prod.split)

lemma Unregister_ignores_lock [simp]:
  "Unregister_body g (rt\<lparr>rt_mu := m\<rparr>) = (fst (Unregister_body g rt), (snd (Unregister_body g rt))\<lparr>rt_mu := m\<rparr>)"
  by (simp add: Unregister_body_def split: option.split)

lemma free_id: "rt_mu rt = Free \<Longrightarrow> rt\<lparr>rt_mu := Free\<rparr> = rt"
  by (cases rt) simp

lemma Register_free [lockfree]:
  "rt_mu rt = Free \<Longrightarrow> rt_Register now gw rt = Done ((), Register_body now gw rt)"
  by (simp add: rt_Register_def writing_free free_id)

lemma AddDevice_free [lockfree]:
  "rt_mu rt = Free \<Longrightarrow> AddDevice now g d rt = Done ((), AddDevice_body now g d rt)"
  by (simp add: AddDevice_def writing_free free_id)

lemma Unregister_free [lockfree]:
  "rt_mu rt = Free \<Longrightarrow> Unregister g rt = Done (Unregister_body g rt)"
  by (simp add: Unregister_def writing_free free_id prod_eq_iff)

text \<open>The two methods with a callback, when none is set.\<close>

definition UpdateHeartbeat_body :: "go_time \<Rightarrow> string \<Rightarrow> route_table \<Rightarrow> route_table" where
  "UpdateHeartbeat_body now g rt = (case gm_get (rt_gateways rt) g of None \<Rightarrow> rt
     | Some gw \<Rightarrow> rt\<lparr>rt_gateways := gm_put g
         (gw\<lparr>gw_last_heartbeat := unix now, gw_status := GatewayOnline\<rparr>) (rt_gateways rt)\<rparr>)"

definition SetStatus_body :: "string \<Rightarrow> string \<Rightarrow> route_table \<Rightarrow> route_table" where
  "SetStatus_body g st rt = (case gm_get (rt_gateways rt) g of None \<Rightarrow> rt
     | Some gw \<Rightarrow> if gw_status gw = st then rt
         else rt\<lparr>rt_gateways := gm_put g (gw\<lparr>gw_status := st\<rparr>) (rt_gateways rt)\<rparr>)"

lemma UpdateHeartbeat_free [lockfree]:
  "rt_mu rt = Free \<Longrightarrow> UpdateHeartbeat None now g (rt, w) = Done (UpdateHeartbeat_body now g rt, w)"
  by (cases rt) (simp add: UpdateHeartbeat_def UpdateHeartbeat_body_def rt_Lock_def rt_Unlock_def
      run_callback_def Let_def split: option.split)

lemma SetGatewayStatus_free [lockfree]:
  "rt_mu rt = Free \<Longrightarrow> SetGatewayStatus None g st (rt, w) =
     Done (gm_get (rt_gateways rt) g \<noteq> None, SetStatus_body g st rt, w)"
  by (cases rt) (auto simp: SetGatewayStatus_def SetStatus_body_def rt_Lock_def rt_Unlock_def
      run_callback_def Let_def split: option.split)

section \<open>Invariant: every route leads to a gateway that lists the device\<close>

definition gateways_ok :: "route_table \<Rightarrow> bool" where
  "gateways_ok rt \<longleftrightarrow> gm_ok (rt_gateways rt) \<and> gm_ok (rt_devices rt)
     \<and> (\<forall>g m. gm_get (rt_gateways rt) g = Some m \<longrightarrow> gw_id m = g)"

definition listed :: "route_table \<Rightarrow> string \<Rightarrow> string \<Rightarrow> bool" where
  "listed rt g d \<longleftrightarrow> (\<exists>m. gm_get (rt_gateways rt) g = Some m \<and> d \<in> set (gw_devices m))"

definition table_ok :: "route_table \<Rightarrow> bool" where
  "table_ok rt \<longleftrightarrow> gateways_ok rt \<and> (\<forall>d g. gm_get (rt_devices rt) d = Some g \<longrightarrow> listed rt g d)"

text \<open>The converse, which holds where no device is announced by two gateways.\<close>

definition exclusive :: "route_table \<Rightarrow> bool" where
  "exclusive rt \<longleftrightarrow> (\<forall>g d. listed rt g d \<longrightarrow> gm_get (rt_devices rt) d = Some g)"

lemma contains_iff [simp]: "contains ds d \<longleftrightarrow> d \<in> set ds"
  by (induction ds) auto

lemma merge_devices_spec:
  "merge_devices g ds (ex, devs) = (ex', devs') \<Longrightarrow> gm_ok devs \<Longrightarrow>
     gm_ok devs' \<and> gw_id ex' = gw_id ex \<and> gw_url ex' = gw_url ex \<and> gw_status ex' = gw_status ex
     \<and> gw_last_heartbeat ex' = gw_last_heartbeat ex
     \<and> set (gw_devices ex') = set (gw_devices ex) \<union> set ds
     \<and> (\<forall>d. gm_get devs' d = (if d \<in> set ds - set (gw_devices ex) then Some g else gm_get devs d))"
proof (induction ds arbitrary: ex devs)
  case Nil
  then show ?case by simp
next
  case (Cons d ds)
  show ?case
  proof (cases "d \<in> set (gw_devices ex)")
    case True
    with Cons.prems Cons.IH [of ex devs] show ?thesis by auto
  next
    case False
    with Cons.prems have "merge_devices g ds (ex\<lparr>gw_devices := gw_devices ex @ [d]\<rparr>, gm_put d g devs) = (ex', devs')"
      by simp
    from Cons.IH [OF this] Cons.prems(2) False show ?thesis by auto
  qed
qed

lemma get_put_routes:
  "gm_get (fold (\<lambda>d. gm_put d g) ds devs) d = (if d \<in> set ds then Some g else gm_get devs d)"
  by (induction ds arbitrary: devs) auto

lemma gm_ok_put_routes: "gm_ok devs \<Longrightarrow> gm_ok (fold (\<lambda>d. gm_put d g) ds devs)"
  by (induction ds arbitrary: devs) auto

text \<open>Each operation by what it does to the listings, the routes and the URLs.\<close>

definition route :: "route_table \<Rightarrow> string \<Rightarrow> string option" where
  "route rt d = gm_get (rt_devices rt) d"

definition url_of :: "route_table \<Rightarrow> string \<Rightarrow> string option" where
  "url_of rt g = map_option gw_url (gm_get (rt_gateways rt) g)"

named_theorems table_effects \<open>effect of the operations on listings, routes and URLs\<close>

lemma gateways_ok_Register: "gateways_ok rt \<Longrightarrow> gateways_ok (Register_body now gw rt)"
  by (auto simp: gateways_ok_def Register_body_def Let_def gm_ok_put_routes
      split: option.split prod.split dest!: merge_devices_spec)

lemma listed_Register [table_effects]:
  "gateways_ok rt \<Longrightarrow> listed (Register_body now gw rt) g d \<longleftrightarrow>
     listed rt g d \<or> g = gw_id gw \<and> d \<in> set (gw_devices gw)"
  by (auto simp: listed_def gateways_ok_def Register_body_def Let_def
      split: option.split prod.split dest!: merge_devices_spec)

lemma route_Register [table_effects]:
  "gateways_ok rt \<Longrightarrow> route (Register_body now gw rt) d =
     (if d \<in> set (gw_devices gw) \<and> \<not> listed rt (gw_id gw) d then Some (gw_id gw) else route rt d)"
  by (auto simp: route_def listed_def gateways_ok_def Register_body_def Let_def get_put_routes
      split: option.split prod.split dest!: merge_devices_spec)

lemma url_Register [table_effects]:
  "gateways_ok rt \<Longrightarrow> url_of (Register_body now gw rt) g = (if g = gw_id gw then Some (gw_url gw) else url_of rt g)"
  by (auto simp: url_of_def gateways_ok_def Register_body_def Let_def
      split: option.split prod.split dest!: merge_devices_spec)

lemma gateways_ok_AddDevice: "gateways_ok rt \<Longrightarrow> gateways_ok (AddDevice_body now g d rt)"
  by (auto simp: gateways_ok_def AddDevice_body_def Let_def split: option.split)

lemma listed_AddDevice [table_effects]:
  "listed (AddDevice_body now g d rt) g' d' \<longleftrightarrow> listed rt g' d' \<or> g' = g \<and> d' = d"
  by (auto simp: listed_def AddDevice_body_def Let_def split: option.splits)

lemma route_AddDevice [table_effects]:
  "route (AddDevice_body now g d rt) d' = (if d' = d \<and> \<not> listed rt g d then Some g else route rt d')"
  by (auto simp: route_def listed_def AddDevice_body_def Let_def split: option.splits)

lemma url_AddDevice [table_effects]:
  "url_of (AddDevice_body now g d rt) g' =
     (if g' = g \<and> url_of rt g = None then Some [] else url_of rt g')"
  by (auto simp: url_of_def AddDevice_body_def Let_def split: option.splits)

lemma gateways_ok_Unregister: "gateways_ok rt \<Longrightarrow> gateways_ok (snd (Unregister_body g rt))"
  by (auto simp: gateways_ok_def Unregister_body_def gm.ok_del_all split: option.split)

lemma listed_Unregister [table_effects]:
  "listed (snd (Unregister_body g rt)) g' d \<longleftrightarrow> g' \<noteq> g \<and> listed rt g' d"
  by (auto simp: listed_def Unregister_body_def split: option.split)

lemma route_Unregister [table_effects]:
  "gateways_ok rt \<Longrightarrow> route (snd (Unregister_body g rt)) d = (if listed rt g d then None else route rt d)"
  by (auto simp: route_def listed_def gateways_ok_def Unregister_body_def gm.get_del_all split: option.split)

lemma url_Unregister [table_effects]:
  "url_of (snd (Unregister_body g rt)) g' = (if g' = g then None else url_of rt g')"
  by (auto simp: url_of_def Unregister_body_def split: option.split)

lemma gateways_ok_heartbeat: "gateways_ok rt \<Longrightarrow> gateways_ok (UpdateHeartbeat_body now g rt)"
  by (auto simp: gateways_ok_def UpdateHeartbeat_body_def split: option.split)

lemma gateways_ok_status: "gateways_ok rt \<Longrightarrow> gateways_ok (SetStatus_body g st rt)"
  by (auto simp: gateways_ok_def SetStatus_body_def split: option.split)

lemma heartbeat_effects [table_effects]:
  "listed (UpdateHeartbeat_body now g rt) g' d = listed rt g' d"
  "route (UpdateHeartbeat_body now g rt) d = route rt d"
  "url_of (UpdateHeartbeat_body now g rt) g' = url_of rt g'"
  by (auto simp: listed_def route_def url_of_def UpdateHeartbeat_body_def split: option.split)

lemma status_effects [table_effects]:
  "listed (SetStatus_body g st rt) g' d = listed rt g' d"
  "route (SetStatus_body g st rt) d = route rt d"
  "url_of (SetStatus_body g st rt) g' = url_of rt g'"
  by (auto simp: listed_def route_def url_of_def SetStatus_body_def split: option.split)

lemma Lookup_body_route: "Lookup_body d rt = (case route rt d of None \<Rightarrow> None | Some g \<Rightarrow> url_of rt g)"
  by (simp add: Lookup_body_def route_def url_of_def split: option.split)

lemma table_ok_route: "table_ok rt \<longleftrightarrow> gateways_ok rt \<and> (\<forall>d g. route rt d = Some g \<longrightarrow> listed rt g d)"
  by (simp add: table_ok_def route_def)

lemma exclusive_route: "exclusive rt \<longleftrightarrow> (\<forall>g d. listed rt g d \<longrightarrow> route rt d = Some g)"
  by (simp add: exclusive_def route_def)

lemma listed_url: "listed rt g d \<Longrightarrow> \<exists>u. url_of rt g = Some u"
  by (auto simp: listed_def url_of_def)

section \<open>Reachable tables\<close>

text \<open>
  The tables a process can reach when gateway \<open>g\<close> may announce the devices \<open>d\<close> with
  \<open>att g d\<close>. The last rule stands for Go's unspecified iteration order: the entries of
  both maps may be visited in another order at any time.
\<close>

inductive table_reach :: "(string \<Rightarrow> string \<Rightarrow> bool) \<Rightarrow> route_table \<Rightarrow> bool" for att where
  new: "table_reach att NewRouteTable"
| register: "table_reach att rt \<Longrightarrow> \<forall>d \<in> set (gw_devices gw). att (gw_id gw) d \<Longrightarrow>
     table_reach att (Register_body now gw rt)"
| add: "table_reach att rt \<Longrightarrow> att g d \<Longrightarrow> table_reach att (AddDevice_body now g d rt)"
| unregister: "table_reach att rt \<Longrightarrow> table_reach att (snd (Unregister_body g rt))"
| heartbeat: "table_reach att rt \<Longrightarrow> table_reach att (UpdateHeartbeat_body now g rt)"
| status: "table_reach att rt \<Longrightarrow> table_reach att (SetStatus_body g st rt)"
| reorder: "table_reach att rt \<Longrightarrow> mset gws = mset (rt_gateways rt) \<Longrightarrow> mset devs = mset (rt_devices rt) \<Longrightarrow>
     table_reach att (rt\<lparr>rt_gateways := gws, rt_devices := devs\<rparr>)"

lemma gm_ok_perm: "gm_ok m \<Longrightarrow> mset m' = mset m \<Longrightarrow> gm_ok m'"
proof -
  assume "gm_ok m" and "mset m' = mset m"
  then show ?thesis
    using mset_eq_imp_distinct_iff [of "map fst m'" "map fst m"] by (simp add: gm_ok_def)
qed

lemma reorder_effects:
  assumes "gateways_ok rt" and "mset gws = mset (rt_gateways rt)" and "mset devs = mset (rt_devices rt)"
  shows "gateways_ok (rt\<lparr>rt_gateways := gws, rt_devices := devs\<rparr>)"
    and "listed (rt\<lparr>rt_gateways := gws, rt_devices := devs\<rparr>) = listed rt"
    and "route (rt\<lparr>rt_gateways := gws, rt_devices := devs\<rparr>) = route rt"
proof -
  from assms have g: "gm_get gws = gm_get (rt_gateways rt)" and d: "gm_get devs = gm_get (rt_devices rt)"
    by (auto simp: gateways_ok_def intro!: ext gm_get_perm)
  from assms g show "gateways_ok (rt\<lparr>rt_gateways := gws, rt_devices := devs\<rparr>)"
    by (auto simp: gateways_ok_def intro: gm_ok_perm)
  from g d show "listed (rt\<lparr>rt_gateways := gws, rt_devices := devs\<rparr>) = listed rt"
    and "route (rt\<lparr>rt_gateways := gws, rt_devices := devs\<rparr>) = route rt"
    by (auto simp: listed_def route_def fun_eq_iff)
qed

lemma reachable_table_ok: "table_reach att rt \<Longrightarrow> table_ok rt \<and> (\<forall>g d. listed rt g d \<longrightarrow> att g d)"
proof (induction rule: table_reach.induct)
  case new
  show ?case by (simp add: table_ok_route gateways_ok_def NewRouteTable_def route_def listed_def)
next
  case (reorder rt gws devs)
  with reorder_effects [of rt gws devs] show ?case by (auto simp: table_ok_route)
qed (auto simp: table_ok_route table_effects gateways_ok_Register gateways_ok_AddDevice
    gateways_ok_Unregister gateways_ok_heartbeat gateways_ok_status split: if_splits)

lemma exclusive_unique: "exclusive rt \<Longrightarrow> listed rt g d \<Longrightarrow> listed rt g' d \<Longrightarrow> g = g'"
  unfolding exclusive_route by (metis option.inject)

lemma exclusive_Register:
  assumes ok: "gateways_ok rt" and ex: "exclusive rt"
    and owner: "\<And>g d. d \<in> set (gw_devices gw) \<Longrightarrow> listed rt g d \<Longrightarrow> g = gw_id gw"
  shows "exclusive (Register_body now gw rt)"
  unfolding exclusive_route listed_Register [OF ok] route_Register [OF ok]
proof (intro allI impI)
  fix g d
  assume "listed rt g d \<or> g = gw_id gw \<and> d \<in> set (gw_devices gw)"
  with ex owner [of d g] show "(if d \<in> set (gw_devices gw) \<and> \<not> listed rt (gw_id gw) d then Some (gw_id gw)
      else route rt d) = Some g"
    by (cases "listed rt g d") (auto simp: exclusive_route)
qed

lemma exclusive_AddDevice:
  assumes ex: "exclusive rt" and owner: "\<And>g'. listed rt g' d \<Longrightarrow> g' = g"
  shows "exclusive (AddDevice_body now g d rt)"
  unfolding exclusive_route listed_AddDevice route_AddDevice
proof (intro allI impI)
  fix g' d'
  assume "listed rt g' d' \<or> g' = g \<and> d' = d"
  with ex owner [of g'] show "(if d' = d \<and> \<not> listed rt g d then Some g else route rt d') = Some g'"
    by (cases "listed rt g' d'") (auto simp: exclusive_route)
qed

lemma exclusive_Unregister:
  assumes ok: "gateways_ok rt" and ex: "exclusive rt"
  shows "exclusive (snd (Unregister_body g rt))"
  unfolding exclusive_route listed_Unregister route_Unregister [OF ok]
proof (intro allI impI)
  fix g' d
  assume l: "g' \<noteq> g \<and> listed rt g' d"
  with ex have "\<not> listed rt g d" using exclusive_unique by blast
  with l ex show "(if listed rt g d then None else route rt d) = Some g'" by (simp add: exclusive_route)
qed

lemma reachable_exclusive:
  assumes "table_reach att rt" and one: "\<And>g g' d. att g d \<Longrightarrow> att g' d \<Longrightarrow> g = g'"
  shows "exclusive rt"
  using assms(1)
proof (induction rule: table_reach.induct)
  case new
  show ?case by (simp add: exclusive_route NewRouteTable_def listed_def)
next
  case (reorder rt gws devs)
  from reachable_table_ok [OF reorder.hyps(1)] have "gateways_ok rt" by (simp add: table_ok_def)
  from reorder_effects [OF this reorder.hyps(2,3)] reorder.IH show ?case by (simp add: exclusive_route)
next
  case (register rt gw now)
  note r = reachable_table_ok [OF register.hyps(1)]
  show ?case
  proof (rule exclusive_Register)
    fix g d
    assume "d \<in> set (gw_devices gw)" and "listed rt g d"
    with r register.hyps(2) show "g = gw_id gw" by (intro one [of g d "gw_id gw"]) auto
  qed (use r register.IH in \<open>simp_all add: table_ok_def\<close>)
next
  case (add rt g d now)
  note r = reachable_table_ok [OF add.hyps(1)]
  show ?case
  proof (rule exclusive_AddDevice [OF add.IH])
    fix g'
    assume "listed rt g' d"
    with r add.hyps(2) show "g' = g" by (intro one [of g' d g]) auto
  qed
next
  case (unregister rt g)
  with reachable_table_ok [OF unregister.hyps(1)] show ?case
    by (intro exclusive_Unregister) (simp_all add: table_ok_def)
qed (simp_all add: exclusive_route table_effects)

section \<open>What a lookup finds\<close>

lemma route_listed: "table_reach att rt \<Longrightarrow> route rt d = Some g \<Longrightarrow> listed rt g d"
  using reachable_table_ok by (auto simp: table_ok_route)

text \<open>C13: routes never dangle: in every reachable table, whatever the gateways announce and in
  whatever order, a device that has a route resolves to the URL of a registered gateway that
  lists it, so the missing-gateway branch of \<open>Lookup\<close> is never taken.\<close>

theorem routes_never_dangle:
  assumes "table_reach att rt" and "gm_get (rt_devices rt) d = Some g"
  shows "\<exists>m. gm_get (rt_gateways rt) g = Some m \<and> gw_id m = g \<and> d \<in> set (gw_devices m)
     \<and> Lookup_body d rt = Some (gw_url m)"
proof -
  from assms have "listed rt g d" by (intro route_listed) (simp_all add: route_def)
  moreover have "gateways_ok rt" using reachable_table_ok [OF assms(1)] by (simp add: table_ok_def)
  ultimately show ?thesis using assms(2) by (auto simp: listed_def gateways_ok_def Lookup_body_def)
qed

theorem routes_never_dangle_witness:
  "\<exists>m. gm_get (rt_gateways (AddDevice_body 0 ''gw_1'' ''shelf_01'' NewRouteTable)) ''gw_1'' = Some m
     \<and> Lookup_body ''shelf_01'' (AddDevice_body 0 ''gw_1'' ''shelf_01'' NewRouteTable) = Some (gw_url m)"
proof -
  have "table_reach (\<lambda>_ _. True) (AddDevice_body 0 ''gw_1'' ''shelf_01'' NewRouteTable)"
    by (intro table_reach.add table_reach.new) simp
  from routes_never_dangle [OF this, of "''shelf_01''" "''gw_1''"] show ?thesis
    by (auto simp: AddDevice_body_def NewRouteTable_def Let_def)
qed

lemma lookup_listed:
  assumes "table_ok rt" and "exclusive rt"
  shows "Lookup_body d rt = Some u \<longleftrightarrow> (\<exists>g. listed rt g d \<and> url_of rt g = Some u)"
proof
  assume "Lookup_body d rt = Some u"
  then obtain g where "route rt d = Some g" "url_of rt g = Some u"
    by (auto simp: Lookup_body_route split: option.splits)
  with assms(1) show "\<exists>g. listed rt g d \<and> url_of rt g = Some u" by (auto simp: table_ok_route)
next
  assume "\<exists>g. listed rt g d \<and> url_of rt g = Some u"
  with assms(2) show "Lookup_body d rt = Some u" by (auto simp: Lookup_body_route exclusive_route)
qed

text \<open>Lookup is exact where every device is attached to one gateway: it answers with a URL iff
  that is the URL of a registered gateway that lists the device.\<close>

theorem lookup_exact:
  assumes "table_reach att rt" and "\<And>g g' d. att g d \<Longrightarrow> att g' d \<Longrightarrow> g = g'"
  shows "Lookup_body d rt = Some u \<longleftrightarrow>
    (\<exists>g m. gm_get (rt_gateways rt) g = Some m \<and> d \<in> set (gw_devices m) \<and> gw_url m = u)"
proof -
  have "table_ok rt" using reachable_table_ok [OF assms(1)] by simp
  moreover have "exclusive rt" using assms by (rule reachable_exclusive)
  ultimately have "Lookup_body d rt = Some u \<longleftrightarrow> (\<exists>g. listed rt g d \<and> url_of rt g = Some u)"
    by (rule lookup_listed)
  then show ?thesis by (fastforce simp: listed_def url_of_def)
qed

theorem lookup_exact_witness:
  "Lookup_body ''shelf_01'' (Register_body 0 \<lparr>gw_id = ''gw_1'', gw_url = ''http://gw1:8080'',
      gw_devices = [''shelf_01''], gw_last_heartbeat = 0, gw_status = []\<rparr> NewRouteTable) = Some ''http://gw1:8080''"
proof -
  let ?gw = "\<lparr>gw_id = ''gw_1'', gw_url = ''http://gw1:8080'', gw_devices = [''shelf_01''],
      gw_last_heartbeat = 0, gw_status = []\<rparr>"
  have "table_reach (\<lambda>g d. g = ''gw_1'') (Register_body 0 ?gw NewRouteTable)"
    by (intro table_reach.register table_reach.new) simp
  from lookup_exact [OF this, of "''shelf_01''" "''http://gw1:8080''"] show ?thesis
    by (auto simp: Register_body_def NewRouteTable_def Let_def)
qed

text \<open>C36: unregistering a gateway removes exactly its own devices: their lookups fail afterwards, the
  list returned names them, and every other lookup answers as before (one gateway per device).\<close>

theorem unregister_exact:
  assumes "table_reach att rt" and "\<And>g g' d. att g d \<Longrightarrow> att g' d \<Longrightarrow> g = g'"
  shows "Lookup_body d (snd (Unregister_body g rt)) =
      (if d \<in> set (fst (Unregister_body g rt)) then None else Lookup_body d rt)
    \<and> fst (Unregister_body g rt) = DevicesByGateway_body g rt"
proof -
  have ok: "table_ok rt" using reachable_table_ok [OF assms(1)] by simp
  then have gok: "gateways_ok rt" by (simp add: table_ok_def)
  have removed: "d \<in> set (fst (Unregister_body g rt)) \<longleftrightarrow> listed rt g d"
    by (auto simp: Unregister_body_def listed_def split: option.split)
  have other: "route rt d = Some g' \<Longrightarrow> \<not> listed rt g d \<Longrightarrow> g' \<noteq> g" for g'
    using ok by (auto simp: table_ok_route)
  have "Lookup_body d (snd (Unregister_body g rt)) = (if listed rt g d then None else Lookup_body d rt)"
    unfolding Lookup_body_route route_Unregister [OF gok] url_Unregister
    using other by (auto split: option.split)
  then show ?thesis
    unfolding removed by (simp add: Unregister_body_def DevicesByGateway_body_def split: option.split)
qed

theorem unregister_exact_witness:
  "Lookup_body ''shelf_01'' (snd (Unregister_body ''gw_1'' (AddDevice_body 0 ''gw_1'' ''shelf_01'' NewRouteTable))) = None"
proof -
  have "table_reach (\<lambda>g d. g = ''gw_1'') (AddDevice_body 0 ''gw_1'' ''shelf_01'' NewRouteTable)"
    by (intro table_reach.add table_reach.new) simp
  from unregister_exact [OF this, of "''shelf_01''" "''gw_1''"] show ?thesis
    by (simp add: AddDevice_body_def NewRouteTable_def Unregister_body_def Let_def)
qed

text \<open>Where two gateways announce the same device, unregistering the first one also drops the
  route that leads to the second, although the second is still online and lists the device,
  and its next announcement does not bring the route back.\<close>

theorem shared_device_lost:
  "let announce = (\<lambda>g. \<lparr>gw_id = g, gw_url = ''http://'' @ g, gw_devices = [''shelf_01''],
         gw_last_heartbeat = 0, gw_status = []\<rparr>);
       both = Register_body 0 (announce ''gw_2'') (Register_body 0 (announce ''gw_1'') NewRouteTable);
       left = snd (Unregister_body ''gw_1'' both) in
   Lookup_body ''shelf_01'' both = Some ''http://gw_2''
   \<and> Lookup_body ''shelf_01'' left = None
   \<and> DevicesByGateway_body ''gw_2'' left = [''shelf_01'']
   \<and> Lookup_body ''shelf_01'' (Register_body 1 (announce ''gw_2'') left) = None"
  by (simp add: Let_def Register_body_def NewRouteTable_def Unregister_body_def DevicesByGateway_body_def
      Lookup_body_def)

section \<open>Heartbeats and staleness\<close>

text \<open>Discovery never hides a dead gateway: announcing a known gateway again, however often,
  changes neither its last heartbeat nor its status; only the URL and the device list follow
  the announcement.\<close>

theorem rediscovery_keeps_heartbeat:
  assumes "gateways_ok rt" and "gm_get (rt_gateways rt) (gw_id gw) = Some old"
  shows "\<exists>m. gm_get (rt_gateways (Register_body now gw rt)) (gw_id gw) = Some m
    \<and> gw_last_heartbeat m = gw_last_heartbeat old \<and> gw_status m = gw_status old
    \<and> gw_url m = gw_url gw \<and> set (gw_devices m) = set (gw_devices old) \<union> set (gw_devices gw)"
  using assms
  by (auto simp: Register_body_def Let_def gateways_ok_def split: prod.split dest!: merge_devices_spec)

theorem rediscovery_keeps_heartbeat_witness:
  "\<exists>m. gm_get (rt_gateways (Register_body (500 * second) \<lparr>gw_id = ''g'', gw_url = ''u'', gw_devices = [],
        gw_last_heartbeat = 0, gw_status = []\<rparr> (AddDevice_body 0 ''g'' ''d'' NewRouteTable))) ''g'' = Some m
    \<and> gw_last_heartbeat m = 0"
proof -
  have "table_reach (\<lambda>_ _. True) (AddDevice_body 0 ''g'' ''d'' NewRouteTable)"
    by (intro table_reach.add table_reach.new) simp
  then have "gateways_ok (AddDevice_body 0 ''g'' ''d'' NewRouteTable)"
    using reachable_table_ok by (auto simp: table_ok_def)
  from rediscovery_keeps_heartbeat [OF this, where gw = "\<lparr>gw_id = ''g'', gw_url = ''u'', gw_devices = [],
        gw_last_heartbeat = 0, gw_status = []\<rparr>" and now = "500 * second"] show ?thesis
    by (auto simp: AddDevice_body_def NewRouteTable_def Let_def unix_def second_def)
qed

lemma keys_filter:
  "gm_ok m \<Longrightarrow> g \<in> set (map fst (filter (\<lambda>(k, v). P v) m)) \<longleftrightarrow> (\<exists>v. gm_get m g = Some v \<and> P v)"
  by (force simp: gm_get_iff)

lemma distinct_keys_filter: "gm_ok m \<Longrightarrow> distinct (map fst (filter P m))"
  by (simp add: gm_ok_def distinct_map_filter)

text \<open>The health check splits the gateways cleanly: a gateway is reported offline iff its
  silence exceeds the offline timeout, in maintenance iff it exceeds the maintenance timeout but
  not the offline one, never in both lists and never twice.\<close>

theorem staleness_partition:
  assumes "gm_ok (rt_gateways rt)"
    and "StaleGateways_body t maintT offT rt = (maint, off)"
  shows "(g \<in> set off \<longleftrightarrow> (\<exists>m. gm_get (rt_gateways rt) g = Some m \<and> seconds_of offT < unix t - gw_last_heartbeat m))
    \<and> (g \<in> set maint \<longleftrightarrow> (\<exists>m. gm_get (rt_gateways rt) g = Some m
        \<and> seconds_of maintT < unix t - gw_last_heartbeat m \<and> unix t - gw_last_heartbeat m \<le> seconds_of offT))
    \<and> set maint \<inter> set off = {} \<and> distinct maint \<and> distinct off"
proof -
  let ?off = "\<lambda>m. seconds_of offT < unix t - gw_last_heartbeat m"
    and ?maint = "\<lambda>m. \<not> seconds_of offT < unix t - gw_last_heartbeat m \<and> seconds_of maintT < unix t - gw_last_heartbeat m"
  have off: "off = map fst (filter (\<lambda>(k, m). ?off m) (rt_gateways rt))"
    and maint: "maint = map fst (filter (\<lambda>(k, m). ?maint m) (rt_gateways rt))"
    using assms(2) by (simp_all add: StaleGateways_body_def Let_def)
  have 1: "g \<in> set off \<longleftrightarrow> (\<exists>m. gm_get (rt_gateways rt) g = Some m \<and> ?off m)" for g
    unfolding off by (rule keys_filter [OF assms(1)])
  have 2: "g \<in> set maint \<longleftrightarrow> (\<exists>m. gm_get (rt_gateways rt) g = Some m \<and> ?maint m)" for g
    unfolding maint by (rule keys_filter [OF assms(1)])
  have "set maint \<inter> set off = {}" using 1 2 by fastforce
  moreover have "distinct maint \<and> distinct off" using assms(1) by (simp add: off maint distinct_keys_filter)
  ultimately show ?thesis using 1 [of g] 2 [of g] by (auto simp: not_less)
qed

theorem staleness_partition_witness:
  "StaleGateways_body (75 * second) (60 * second) (90 * second) (AddDevice_body 0 ''gw_1'' ''d'' NewRouteTable)
     = ([''gw_1''], []) \<and> set [''gw_1''] \<inter> set ([] :: string list) = {}"
proof -
  let ?rt = "AddDevice_body 0 ''gw_1'' ''d'' NewRouteTable"
  have s: "StaleGateways_body (75 * second) (60 * second) (90 * second) ?rt = ([''gw_1''], [])"
    by (simp add: StaleGateways_body_def AddDevice_body_def NewRouteTable_def Let_def unix_def second_def
        seconds_of_def gm_put_def)
  have "gm_ok (rt_gateways ?rt)" by (simp add: AddDevice_body_def NewRouteTable_def Let_def)
  from staleness_partition [OF this s] s show ?thesis by simp
qed

end
