(* ===== verification/Dedup.thy ===== *)
theory Dedup
  imports Stores
begin

text \<open>
  The sidecar's duplicate window, \<open>internal/sidecar/dedup.go\<close>. \<open>Allow\<close> reads the clock
  twice (\<open>time.Since\<close> in the test, \<open>time.Now\<close> in the store); the second reading is
  \<open>delay\<close> later. The clean-up goroutine runs at its own times; the gate contract shows
  that it never changes an answer.
\<close>

section \<open>State and operations\<close>

record dedup_window =
  dw_seen :: "(string, go_time) gomap"
  dw_ttl :: duration

definition NewDedupWindowWithTTL :: "duration \<Rightarrow> dedup_window" where
  "NewDedupWindowWithTTL ttl = \<lparr>dw_seen = [], dw_ttl = ttl\<rparr>"

definition NewDedupWindow :: dedup_window where
  "NewDedupWindow = NewDedupWindowWithTTL (3 * second)"

definition dedup_Allow :: "go_time \<Rightarrow> duration \<Rightarrow> string \<Rightarrow> dedup_window \<Rightarrow> bool \<times> dedup_window" where
  "dedup_Allow now delay key dw =
     (if (case gm_get (dw_seen dw) key of None \<Rightarrow> False | Some t \<Rightarrow> now - t < dw_ttl dw)
      then (False, dw)
      else (True, dw\<lparr>dw_seen := gm_put key (now + delay) (dw_seen dw)\<rparr>))"

text \<open>\<open>params_json\<close> is the text that \<open>json.Marshal\<close> gives for the parameters.\<close>

definition MakeKey :: "string \<Rightarrow> string \<Rightarrow> string \<Rightarrow> string" where
  "MakeKey deviceID capability params_json = deviceID @ '':'' @ capability @ '':'' @ params_json"

definition dedup_cleanup :: "go_time \<Rightarrow> dedup_window \<Rightarrow> dedup_window" where
  "dedup_cleanup now dw = dw\<lparr>dw_seen := gm_prune (\<lambda>k t. now - t > dw_ttl dw) (dw_seen dw)\<rparr>"

section \<open>The clean-up cannot be observed\<close>

definition live :: "duration \<Rightarrow> go_time \<Rightarrow> go_time option \<Rightarrow> go_time option" where
  "live ttl now seen = (case seen of None \<Rightarrow> None | Some t \<Rightarrow> if now - t < ttl then Some t else None)"

definition dedup_good :: "dedup_window \<Rightarrow> bool" where
  "dedup_good dw \<longleftrightarrow> gm_ok (dw_seen dw)"

definition dedup_like :: "go_time \<Rightarrow> dedup_window \<Rightarrow> dedup_window \<Rightarrow> bool" where
  "dedup_like now dw dw' \<longleftrightarrow> dedup_good dw \<and> dedup_good dw' \<and> dw_ttl dw = dw_ttl dw'
     \<and> (\<forall>k. live (dw_ttl dw) now (gm_get (dw_seen dw) k) = live (dw_ttl dw) now (gm_get (dw_seen dw') k))"

lemma dedup_Allow_live:
  "dedup_Allow now delay key dw =
     (case live (dw_ttl dw) now (gm_get (dw_seen dw) key) of
        Some _ \<Rightarrow> (False, dw)
      | None \<Rightarrow> (True, dw\<lparr>dw_seen := gm_put key (now + delay) (dw_seen dw)\<rparr>))"
  by (simp add: dedup_Allow_def live_def split: option.split)

lemma live_later: "live ttl t s = live ttl t s' \<Longrightarrow> t \<le> t' \<Longrightarrow> live ttl t' s = live ttl t' s'"
  by (auto simp: live_def split: option.splits if_splits)

lemma live_cleaned:
  "gm_ok (dw_seen dw) \<Longrightarrow>
   live (dw_ttl dw) t (gm_get (dw_seen (dedup_cleanup t dw)) k) = live (dw_ttl dw) t (gm_get (dw_seen dw) k)"
  by (auto simp: dedup_cleanup_def gm_get_prune live_def split: option.split)

lemma dedup_good_cleanup: "dedup_good dw \<Longrightarrow> dedup_good (dedup_cleanup t dw)"
  by (simp add: dedup_good_def dedup_cleanup_def)

lemma dedup_ttl_cleanup [simp]: "dw_ttl (dedup_cleanup t dw) = dw_ttl dw"
  by (simp add: dedup_cleanup_def)

lemma dedup_ttl_Allow [simp]: "dw_ttl (snd (dedup_Allow t d k dw)) = dw_ttl dw"
  by (simp add: dedup_Allow_def)

lemma dedup_good_Allow: "dedup_good dw \<Longrightarrow> dedup_good (snd (dedup_Allow t d k dw))"
  by (simp add: dedup_Allow_def dedup_good_def)

lemma dedup_like_verdict:
  "dedup_like t dw dw' \<Longrightarrow> fst (dedup_Allow t d k dw) = fst (dedup_Allow t d k dw')"
  by (auto simp: dedup_Allow_live dedup_like_def split: option.split)

lemma dedup_like_next:
  assumes "dedup_like t dw dw'"
  shows "dedup_like t (snd (dedup_Allow t d k dw)) (snd (dedup_Allow t d k dw'))"
proof -
  from assms have "live (dw_ttl dw) t (gm_get (dw_seen dw) k) = live (dw_ttl dw') t (gm_get (dw_seen dw') k)"
    unfolding dedup_like_def by metis
  with assms show ?thesis
    by (auto simp: dedup_Allow_live dedup_like_def dedup_good_def split: option.split)
qed

lemma dedup_like_cleanup: "dedup_like t dw dw' \<Longrightarrow> dedup_like t dw (dedup_cleanup t dw')"
  unfolding dedup_like_def
  by (metis dedup_good_cleanup dedup_good_def dedup_ttl_cleanup live_cleaned)

text \<open>The gate: a request is a key and the delay of its second clock reading.\<close>

abbreviation dedup_ask :: "go_time \<Rightarrow> string \<times> duration \<Rightarrow> dedup_window \<Rightarrow> bool \<times> dedup_window" where
  "dedup_ask t kd \<equiv> dedup_Allow t (snd kd) (fst kd)"

interpretation dedup_gate: gate dedup_ask dedup_cleanup dedup_good dedup_like
proof unfold_locales
  fix s s' :: dedup_window and t t' :: go_time
  assume "dedup_like t s s'" and "t \<le> t'"
  then show "dedup_like t' s s'" unfolding dedup_like_def by (metis live_later)
qed (auto simp: dedup_like_verdict dedup_like_next dedup_like_cleanup, simp add: dedup_like_def)

text \<open>C21: the clean-up goroutine is invisible: whatever the times at which it runs between the
  requests, every request gets the verdict it would get if no entry were ever removed.\<close>

theorem dedup_cleanup_invisible:
  assumes "sorted (map event_time es)"
  shows "fst (gate_run dedup_ask dedup_cleanup (NewDedupWindowWithTTL ttl) es)
    = fst (gate_run dedup_ask dedup_cleanup (NewDedupWindowWithTTL ttl) (filter is_ask es))"
  using assms
  by (intro dedup_gate.clean_invisible) (simp_all add: dedup_good_def NewDedupWindowWithTTL_def)

theorem dedup_cleanup_invisible_witness:
  "fst (gate_run dedup_ask dedup_cleanup (NewDedupWindowWithTTL 3)
      [Ask 0 (''k'', 0), Tidy 1, Ask 2 (''k'', 0), Tidy 5, Ask 6 (''k'', 1)]) = [True, False, True]"
  by (subst dedup_cleanup_invisible)
    (simp_all add: dedup_Allow_def NewDedupWindowWithTTL_def)

section \<open>Duplicates inside the window\<close>

lemma dedup_Allow_other: "k \<noteq> key \<Longrightarrow> gm_get (dw_seen (snd (dedup_Allow t d k dw))) key = gm_get (dw_seen dw) key"
  by (simp add: dedup_Allow_def)

lemma dedup_admits: "fst (dedup_Allow t d k dw) \<Longrightarrow> gm_get (dw_seen (snd (dedup_Allow t d k dw))) k = Some (t + d)"
  by (simp add: dedup_Allow_def split: if_splits)

text \<open>A stamp of a key survives, possibly moved forward, until it is too old to matter.\<close>

definition stamped :: "string \<Rightarrow> go_time \<Rightarrow> duration \<Rightarrow> go_time \<Rightarrow> dedup_window \<Rightarrow> bool" where
  "stamped key s ttl now dw \<longleftrightarrow> gm_ok (dw_seen dw) \<and> dw_ttl dw = ttl
     \<and> (now - s < ttl \<longrightarrow> (\<exists>s'. gm_get (dw_seen dw) key = Some s' \<and> s \<le> s'))"

lemma stamped_later: "stamped key s ttl t dw \<Longrightarrow> t \<le> t' \<Longrightarrow> stamped key s ttl t' dw"
  by (auto simp: stamped_def)

lemma stamped_cleanup: "stamped key s ttl t dw \<Longrightarrow> stamped key s ttl t (dedup_cleanup t dw)"
  by (fastforce simp: stamped_def dedup_cleanup_def gm_get_prune split: option.splits)

lemma stamped_Allow: "stamped key s ttl t dw \<Longrightarrow> stamped key s ttl t (snd (dedup_Allow t d k dw))"
  by (cases "k = key") (auto simp: stamped_def dedup_Allow_def split: option.splits)

lemma stamped_blocks: "stamped key s ttl t dw \<Longrightarrow> t - s < ttl \<Longrightarrow> \<not> fst (dedup_Allow t d key dw)"
  by (auto simp: stamped_def dedup_Allow_def)

lemma stamped_run:
  "stamped key s ttl t0 dw \<Longrightarrow> sorted (t0 # map event_time es) \<Longrightarrow> \<forall>e \<in> set es. event_time e \<le> t \<Longrightarrow> t0 \<le> t \<Longrightarrow>
   stamped key s ttl t (snd (gate_run dedup_ask dedup_cleanup dw es))"
proof (induction es arbitrary: dw t0)
  case Nil
  then show ?case by (simp add: stamped_later)
next
  case (Cons e es)
  show ?case
  proof (cases e)
    case (Ask t1 kd)
    with Cons.prems have "stamped key s ttl t1 dw" by (auto intro: stamped_later)
    then have "stamped key s ttl t1 (snd (dedup_ask t1 kd dw))" by (rule stamped_Allow)
    with Cons.prems Ask Cons.IH [of t1] show ?thesis by (simp add: split_def Let_def)
  next
    case (Tidy t1)
    with Cons.prems have "stamped key s ttl t1 dw" by (auto intro: stamped_later)
    then have "stamped key s ttl t1 (dedup_cleanup t1 dw)" by (rule stamped_cleanup)
    with Cons.prems Tidy Cons.IH [of t1] show ?thesis by simp
  qed
qed

lemma window_refuses:
  assumes "dedup_good dw" and "fst (dedup_Allow t1 d1 key dw)" and "0 \<le> d1"
    and "sorted (t1 # map event_time es @ [t2])" and "t2 - t1 < dw_ttl dw"
  shows "\<not> fst (dedup_Allow t2 d2 key
      (snd (gate_run dedup_ask dedup_cleanup (snd (dedup_Allow t1 d1 key dw)) es)))"
proof -
  have "stamped key t1 (dw_ttl dw) t1 (snd (dedup_Allow t1 d1 key dw))"
    using assms(1-3) dedup_admits [OF assms(2)] dedup_good_Allow [OF assms(1)]
    by (auto simp: stamped_def dedup_good_def)
  then have "stamped key t1 (dw_ttl dw) t2
      (snd (gate_run dedup_ask dedup_cleanup (snd (dedup_Allow t1 d1 key dw)) es))"
    using assms(4) by (intro stamped_run) (auto simp: sorted_append)
  then show ?thesis using assms(5) by (rule stamped_blocks)
qed

text \<open>C22: an identical request is never let through twice within the window: after a request
  with a key was admitted at time \<open>t1\<close>, any request with that key until the window has
  passed is refused, whatever other requests and clean-ups happen in between.\<close>

theorem duplicate_refused_in_window:
  assumes "dedup_good dw" and "fst (dedup_Allow t1 d1 key dw)" and "0 \<le> d1"
    and "sorted (t1 # map event_time es @ [t2])" and "t2 - t1 < dw_ttl dw"
  shows "\<not> fst (dedup_Allow t2 d2 key
      (snd (gate_run dedup_ask dedup_cleanup (snd (dedup_Allow t1 d1 key dw)) es)))"
  using assms by (rule window_refuses)

theorem duplicate_refused_in_window_witness:
  "\<not> fst (dedup_Allow 2 0 ''k'' (snd (gate_run dedup_ask dedup_cleanup
      (snd (dedup_Allow 0 0 ''k'' (NewDedupWindowWithTTL 3))) [Ask 1 (''j'', 0), Tidy 2])))"
  by (rule duplicate_refused_in_window)
    (simp_all add: dedup_good_def NewDedupWindowWithTTL_def dedup_Allow_def)

section \<open>Keys\<close>

lemma split_at_colon:
  "CHR '':'' \<notin> set a \<Longrightarrow> CHR '':'' \<notin> set b \<Longrightarrow> a @ CHR '':'' # r = b @ CHR '':'' # r' \<Longrightarrow> a = b \<and> r = r'"
proof (induction a arbitrary: b)
  case Nil
  then show ?case by (cases b) auto
next
  case (Cons c a)
  then show ?case by (cases b) auto
qed

text \<open>Two requests share a key only if they are the same request, provided device and
  capability names hold no colon.\<close>

theorem MakeKey_injective:
  assumes "CHR '':'' \<notin> set d" "CHR '':'' \<notin> set d'" "CHR '':'' \<notin> set c" "CHR '':'' \<notin> set c'"
    and "MakeKey d c p = MakeKey d' c' p'"
  shows "d = d' \<and> c = c' \<and> p = p'"
  using assms split_at_colon [of d d'] split_at_colon [of c c' p p'] by (simp add: MakeKey_def)

theorem MakeKey_injective_witness:
  "MakeKey ''shelf_01'' ''set_relay'' ''{}'' \<noteq> MakeKey ''shelf_01'' ''read_temp'' ''{}''"
proof
  assume "MakeKey ''shelf_01'' ''set_relay'' ''{}'' = MakeKey ''shelf_01'' ''read_temp'' ''{}''"
  from MakeKey_injective [OF _ _ _ _ this] show False by simp
qed

text \<open>The proviso is needed: with colons in the names two different requests collide.\<close>

lemma MakeKey_collision: "MakeKey ''a:b'' ''c'' p = MakeKey ''a'' ''b:c'' p"
  by (simp add: MakeKey_def)

end
