(* ===== verification/Progress.thy ===== *)
theory Progress
  imports Capability
begin

text \<open>
  The sidecar's job tracker, \<open>internal/sidecar/progress.go\<close>. A job starts pending and ends
  completed or in error; the clean-up goroutine forgets jobs after ten minutes.
\<close>

definition jobTTL :: duration where
  "jobTTL = 600 * second"

record progress_tracker =
  pt_jobs :: "(string, job) gomap"

definition NewProgressTracker :: progress_tracker where
  "NewProgressTracker = \<lparr>pt_jobs = []\<rparr>"

definition pt_Register :: "go_time \<Rightarrow> string \<Rightarrow> string \<Rightarrow> string \<Rightarrow> progress_tracker \<Rightarrow> progress_tracker" where
  "pt_Register now jobID requestID deviceID pt = pt\<lparr>pt_jobs := gm_put jobID
     \<lparr>job_id = jobID, job_request_id = requestID, job_device_id = deviceID, job_status = ''pending'',
      job_progress = 0, job_result = GNil, job_error = [], job_created_at = now\<rparr> (pt_jobs pt)\<rparr>"

definition GetJob :: "string \<Rightarrow> progress_tracker \<Rightarrow> job option" where
  "GetJob jobID pt = gm_get (pt_jobs pt) jobID"

definition edit_job :: "string \<Rightarrow> (job \<Rightarrow> job) \<Rightarrow> progress_tracker \<Rightarrow> progress_tracker" where
  "edit_job jobID f pt =
     (case gm_get (pt_jobs pt) jobID of
        None \<Rightarrow> pt
      | Some j \<Rightarrow> pt\<lparr>pt_jobs := gm_put jobID (f j) (pt_jobs pt)\<rparr>)"

definition UpdateProgress :: "string \<Rightarrow> int \<Rightarrow> string \<Rightarrow> progress_tracker \<Rightarrow> progress_tracker" where
  "UpdateProgress jobID p status = edit_job jobID (\<lambda>j. j\<lparr>job_progress := p, job_status := status\<rparr>)"

definition pt_Complete :: "string \<Rightarrow> goval \<Rightarrow> progress_tracker \<Rightarrow> progress_tracker" where
  "pt_Complete jobID res = edit_job jobID (\<lambda>j. j\<lparr>job_status := ''completed'', job_progress := 100, job_result := res\<rparr>)"

definition pt_Fail :: "string \<Rightarrow> string \<Rightarrow> progress_tracker \<Rightarrow> progress_tracker" where
  "pt_Fail jobID errMsg = edit_job jobID (\<lambda>j. j\<lparr>job_status := ''error'', job_error := errMsg\<rparr>)"

definition pt_cleanup :: "go_time \<Rightarrow> progress_tracker \<Rightarrow> progress_tracker" where
  "pt_cleanup now pt = pt\<lparr>pt_jobs := gm_prune (\<lambda>k j. now - job_created_at j > jobTTL) (pt_jobs pt)\<rparr>"

section \<open>Lookups after each operation\<close>

definition tracker_ok :: "progress_tracker \<Rightarrow> bool" where
  "tracker_ok pt \<longleftrightarrow> gm_ok (pt_jobs pt)"

named_theorems jobs \<open>what GetJob answers after an operation\<close>

lemma GetJob_Register [jobs]:
  "GetJob k (pt_Register now j r d pt) = (if k = j then Some \<lparr>job_id = j, job_request_id = r, job_device_id = d,
     job_status = ''pending'', job_progress = 0, job_result = GNil, job_error = [], job_created_at = now\<rparr> else GetJob k pt)"
  by (simp add: GetJob_def pt_Register_def)

lemma GetJob_edit: "GetJob k (edit_job j f pt) = (if k = j then map_option f (GetJob j pt) else GetJob k pt)"
  by (simp add: GetJob_def edit_job_def split: option.split)

lemma GetJob_Complete [jobs]:
  "GetJob k (pt_Complete j res pt) =
     (if k = j then map_option (\<lambda>j. j\<lparr>job_status := ''completed'', job_progress := 100, job_result := res\<rparr>) (GetJob j pt)
      else GetJob k pt)"
  by (simp add: pt_Complete_def GetJob_edit)

lemma GetJob_Fail [jobs]:
  "GetJob k (pt_Fail j e pt) =
     (if k = j then map_option (\<lambda>j. j\<lparr>job_status := ''error'', job_error := e\<rparr>) (GetJob j pt) else GetJob k pt)"
  by (simp add: pt_Fail_def GetJob_edit)

lemma GetJob_cleanup [jobs]:
  "tracker_ok pt \<Longrightarrow> GetJob k (pt_cleanup now pt) =
     (case GetJob k pt of None \<Rightarrow> None | Some j \<Rightarrow> if now - job_created_at j > jobTTL then None else Some j)"
  by (simp add: GetJob_def pt_cleanup_def tracker_ok_def gm_get_prune)

lemma tracker_ok_new: "tracker_ok NewProgressTracker"
  by (simp add: tracker_ok_def NewProgressTracker_def)

lemma tracker_ok_steps:
  "tracker_ok pt \<Longrightarrow> tracker_ok (pt_Register now j r d pt)"
  "tracker_ok pt \<Longrightarrow> tracker_ok (pt_Complete j res pt)"
  "tracker_ok pt \<Longrightarrow> tracker_ok (pt_Fail j e pt)"
  "tracker_ok pt \<Longrightarrow> tracker_ok (pt_cleanup now pt)"
  by (auto simp: tracker_ok_def pt_Register_def pt_Complete_def pt_Fail_def pt_cleanup_def edit_job_def split: option.split)

end
