(* ===== verification/McpTool.thy ===== *)
theory McpTool
  imports Format
begin

text \<open>
  The compilation of a capability into an MCP tool, \<open>internal/mcptool/tool.go\<close>. The MCP
  library is third-party: a tool is the call made to it, that is its name and the list of options
  in the order they are passed.
\<close>

section \<open>The calls to the library\<close>

datatype prop_option = OptEnum "rat list" | OptMin rat | OptMax rat | OptRequired

datatype tool_option =
    WithDescription string
  | WithInteger string "prop_option list"
  | WithString string "prop_option list"
  | WithBoolean string "prop_option list"
  | WithNumber string "prop_option list"

record mcp_tool =
  tool_name :: string
  tool_options :: "tool_option list"

section \<open>Compilation\<close>

text \<open>The conversion \<open>int(x)\<close> of a float drops the fraction.\<close>

definition trunc :: "rat \<Rightarrow> int" where
  "trunc q = (if 0 \<le> q then \<lfloor>q\<rfloor> else - \<lfloor>- q\<rfloor>)"

definition enumOption :: "int list \<Rightarrow> prop_option" where
  "enumOption enums = OptEnum (map of_int enums)"

definition required_opt :: "string \<Rightarrow> string list \<Rightarrow> prop_option list" where
  "required_opt name req = (if IsRequired name req then [OptRequired] else [])"

definition opt_list :: "'a option \<Rightarrow> ('a \<Rightarrow> 'b) \<Rightarrow> 'b list" where
  "opt_list x f = (case x of None \<Rightarrow> [] | Some v \<Rightarrow> [f v])"

definition property_option :: "string list \<Rightarrow> string \<times> property_schema \<Rightarrow> tool_option list" where
  "property_option req kp =
     (let name = fst kp; p = snd kp in
      if ps_type p = ''integer'' then
        [WithInteger name ((if ps_enum p \<noteq> [] then [enumOption (ps_enum p)] else [])
           @ opt_list (ps_min p) (\<lambda>m. OptMin (of_int (trunc m))) @ opt_list (ps_max p) (\<lambda>m. OptMax (of_int (trunc m)))
           @ required_opt name req)]
      else if ps_type p = ''string'' then [WithString name (required_opt name req)]
      else if ps_type p = ''boolean'' then [WithBoolean name (required_opt name req)]
      else if ps_type p = ''number'' then
        [WithNumber name ((if ps_enum p \<noteq> [] then [enumOption (ps_enum p)] else [])
           @ opt_list (ps_min p) OptMin @ opt_list (ps_max p) OptMax @ required_opt name req)]
      else [])"

definition maintenance_mark :: string where
  "maintenance_mark = map char_of [0x5B::nat, 0xE7, 0xBB, 0xB4, 0xE6, 0x8A, 0xA4, 0xE4, 0xB8, 0xAD, 0x5D, 0x20]"

definition unit_parts :: "(string, property_schema) gomap \<Rightarrow> string list" where
  "unit_parts props = map (\<lambda>(n, p). n @ ''('' @ ps_unit p @ '')'') (filter (\<lambda>(n, p). ps_unit p \<noteq> []) props)"

definition tool_description :: "capability \<Rightarrow> bool \<Rightarrow> string" where
  "tool_description c maintenance =
     (let desc = cap_description c;
          desc = (if maintenance then maintenance_mark @ desc else desc);
          units = unit_parts (is_properties (cap_input_schema c))
      in if units \<noteq> [] then desc @ '' '' @ join '', '' units else desc)"

definition CompileTool :: "string \<Rightarrow> capability \<Rightarrow> bool \<Rightarrow> mcp_tool" where
  "CompileTool deviceID c maintenance =
     \<lparr>tool_name = deviceID @ ''.'' @ cap_name c,
      tool_options = WithDescription (tool_description c maintenance)
        # concat (map (property_option (is_required (cap_input_schema c))) (is_properties (cap_input_schema c)))\<rparr>"

section \<open>What a tool declares\<close>

fun option_prop :: "tool_option \<Rightarrow> (string \<times> prop_option list) option" where
  "option_prop (WithDescription d) = None"
| "option_prop (WithInteger n os) = Some (n, os)"
| "option_prop (WithString n os) = Some (n, os)"
| "option_prop (WithBoolean n os) = Some (n, os)"
| "option_prop (WithNumber n os) = Some (n, os)"

definition declares :: "mcp_tool \<Rightarrow> string \<Rightarrow> prop_option list \<Rightarrow> bool" where
  "declares t n os \<longleftrightarrow> (\<exists>x \<in> set (tool_options t). option_prop x = Some (n, os))"

definition known_type :: "string \<Rightarrow> bool" where
  "known_type t \<longleftrightarrow> t \<in> {''integer'', ''string'', ''boolean'', ''number''}"

lemma property_option_known:
  "known_type (ps_type p) \<Longrightarrow> \<exists>x os. property_option req (n, p) = [x] \<and> option_prop x = Some (n, os)
     \<and> (OptRequired \<in> set os \<longleftrightarrow> n \<in> set req)"
  by (auto simp: property_option_def known_type_def required_opt_def opt_list_def enumOption_def Let_def split: option.split)

lemma property_option_unknown: "\<not> known_type (ps_type p) \<Longrightarrow> property_option req (n, p) = []"
  by (simp add: property_option_def known_type_def Let_def)

text \<open>The tool of a capability is named \<open>device.capability\<close>, the string tokens are
  checked against, and declares exactly the schema's properties of the four known types, each
  marked required exactly when the schema requires it. A property of any other type (an array, an
  object) is left out, even a required one.\<close>

theorem tool_declares_schema:
  assumes "gm_ok (is_properties (cap_input_schema c))"
  shows "tool_name (CompileTool d c m) = d @ ''.'' @ cap_name c
    \<and> (\<forall>n. (\<exists>os. declares (CompileTool d c m) n os) \<longleftrightarrow>
         (\<exists>p. gm_get (is_properties (cap_input_schema c)) n = Some p \<and> known_type (ps_type p)))
    \<and> (\<forall>n os. declares (CompileTool d c m) n os \<longrightarrow> (OptRequired \<in> set os \<longleftrightarrow> n \<in> set (is_required (cap_input_schema c))))"
proof -
  let ?props = "is_properties (cap_input_schema c)" and ?req = "is_required (cap_input_schema c)"
  have dec: "declares (CompileTool d c m) n os \<longleftrightarrow>
      (\<exists>(n', p) \<in> set ?props. \<exists>x \<in> set (property_option ?req (n', p)). option_prop x = Some (n, os))" for n os
    by (auto simp: declares_def CompileTool_def)
  have each: "(\<exists>x \<in> set (property_option ?req (n', p)). option_prop x = Some (n, os)) \<longrightarrow>
      n = n' \<and> known_type (ps_type p) \<and> (OptRequired \<in> set os \<longleftrightarrow> n \<in> set ?req)" for n' p n os
    using property_option_known [of p ?req n'] property_option_unknown [of p ?req n']
    by (cases "known_type (ps_type p)") auto
  have known: "\<exists>os. \<exists>x \<in> set (property_option ?req (n, p)). option_prop x = Some (n, os)" if "known_type (ps_type p)" for n p
    using property_option_known [OF that, of ?req n] by auto
  have get: "gm_get ?props n = Some p \<longleftrightarrow> (n, p) \<in> set ?props" for n p using gm_get_iff [OF assms] .
  show ?thesis
  proof (intro conjI allI impI)
    show "tool_name (CompileTool d c m) = d @ ''.'' @ cap_name c" by (simp add: CompileTool_def)
    show "(\<exists>os. declares (CompileTool d c m) n os) \<longleftrightarrow> (\<exists>p. gm_get ?props n = Some p \<and> known_type (ps_type p))" for n
      unfolding dec get using each known by fast
    show "OptRequired \<in> set os \<longleftrightarrow> n \<in> set ?req" if "declares (CompileTool d c m) n os" for n os
      using that each unfolding dec by blast
  qed
qed

definition array_schema :: capability where
  "array_schema = (plain_capability ''set_leds'' zero_implementation)\<lparr>cap_input_schema := \<lparr>is_type = ''object'',
     is_properties = [(''colors'', \<lparr>ps_type = ''array'', ps_enum = [], ps_unit = [], ps_min = None, ps_max = None\<rparr>)],
     is_required = [''colors'']\<rparr>\<rparr>"

theorem tool_declares_schema_witness:
  "tool_name (CompileTool ''strip'' array_schema False) = ''strip.set_leds''
   \<and> (\<nexists>os. declares (CompileTool ''strip'' array_schema False) ''colors'' os)"
proof -
  have ok: "gm_ok (is_properties (cap_input_schema array_schema))"
    by (simp add: array_schema_def gm_ok_def)
  have "\<not> (\<exists>p. gm_get (is_properties (cap_input_schema array_schema)) ''colors'' = Some p \<and> known_type (ps_type p))"
    by (simp add: array_schema_def gm_get_def known_type_def)
  moreover have "cap_name array_schema = ''set_leds''" by (simp add: array_schema_def plain_capability_def)
  ultimately show ?thesis using tool_declares_schema [OF ok, of "''strip''" False] by auto
qed

end
