(* ===== verification/Sidecar.thy ===== *)
theory Sidecar
  imports RouteTable Dedup Progress McpTool Message Config
begin

text \<open>
  The sidecar: \<open>internal/sidecar/router.go\<close>, \<open>server.go\<close> and \<open>tool_compiler.go\<close>. Its state is
  the route table and the rest: dedup window, job tracker, known configurations, compiled tools
  and the invocations that are still in flight (one goroutine each). An operation that needs the
  route table's lock while its own goroutine holds it is \<open>Blocked\<close>. HTTP is a parameter: what
  a request is answered.
\<close>

section \<open>State\<close>

record flight =
  fl_device :: string
  fl_capability :: string
  fl_params :: goval
  fl_request_id :: string
  fl_job_id :: string

text \<open>The MCP server holds its tools by name, each with its handler: one of the four methods, or a
  closure of \<open>makeDeviceInvokeHandler\<close> over device and capability.\<close>

datatype tool_handler = ListDevicesTool | DiagnoseTool | GetSchemaTool | GetJobStatusTool | DeviceTool string capability

record sidecar =
  sd_dedup :: dedup_window
  sd_progress :: progress_tracker
  sd_configs :: "(string, device_config) gomap"
  sd_tools :: "(string, mcp_tool \<times> tool_handler) gomap"
  sd_flights :: "flight list"

record router =
  ro_tokenTTL :: duration
  ro_tokenManager :: "token_manager option"
  ro_cfg :: sidecar_config

definition NewRouter :: "string \<Rightarrow> duration \<Rightarrow> sidecar_config option \<Rightarrow> router" where
  "NewRouter tokenSecret tokenTTL cfg =
     \<lparr>ro_tokenTTL = tokenTTL,
      ro_tokenManager = (if tokenSecret \<noteq> [] then Some (NewTokenManager tokenSecret) else None),
      ro_cfg = (case cfg of None \<Rightarrow> gc_sidecar DefaultGlobalConfig | Some c \<Rightarrow> c)\<rparr>"

definition system_tool :: "string \<Rightarrow> nat list \<Rightarrow> tool_option list \<Rightarrow> mcp_tool" where
  "system_tool name description options =
     \<lparr>tool_name = name, tool_options = WithDescription (utf8 description) # options\<rparr>"

text \<open>The descriptions are Chinese texts, given by their bytes.\<close>

definition system_tools :: "(string, mcp_tool \<times> tool_handler) gomap" where
  "system_tools = map (\<lambda>(tool, h). (tool_name tool, tool, h))
     [(system_tool ''__system__.list_devices''
         [0xE5, 0x88, 0x97, 0xE5, 0x87, 0xBA, 0xE6, 0x89, 0x80, 0xE6, 0x9C, 0x89, 0xE5, 0xB7, 0xB2, 0xE6, 0xB3, 0xA8,
          0xE5, 0x86, 0x8C, 0xE8, 0xAE, 0xBE, 0xE5, 0xA4, 0x87, 0xE5, 0x8F, 0x8A, 0xE7, 0x8A, 0xB6, 0xE6, 0x80, 0x81] [],
       ListDevicesTool),
      (system_tool ''__system__.diagnose_connectivity''
         [0xE6, 0xA3, 0x80, 0xE6, 0x9F, 0xA5, 0xE5, 0x88, 0xB0, 0xE6, 0x8C, 0x87, 0xE5, 0xAE, 0x9A, 0xE8, 0xAE, 0xBE,
          0xE5, 0xA4, 0x87, 0xE7, 0x9A, 0x84, 0xE5, 0x85, 0xA8, 0xE9, 0x93, 0xBE, 0xE8, 0xB7, 0xAF, 0xE7, 0x8A, 0xB6,
          0xE6, 0x80, 0x81] [WithString ''device_id'' [OptRequired]],
       DiagnoseTool),
      (system_tool ''__system__.get_device_schema''
         [0xE8, 0x8E, 0xB7, 0xE5, 0x8F, 0x96, 0xE6, 0x8C, 0x87, 0xE5, 0xAE, 0x9A, 0xE8, 0xAE, 0xBE, 0xE5, 0xA4, 0x87,
          0xE7, 0x9A, 0x84, 0xE5, 0xAE, 0x8C, 0xE6, 0x95, 0xB4, 0xE8, 0x83, 0xBD, 0xE5, 0x8A, 0x9B, 0xE6, 0x8F, 0x8F,
          0xE8, 0xBF, 0xB0] [WithString ''device_id'' [OptRequired]],
       GetSchemaTool),
      (system_tool ''__system__.get_job_status''
         [0xE6, 0x9F, 0xA5, 0xE8, 0xAF, 0xA2, 0xE5, 0xBC, 0x82, 0xE6, 0xAD, 0xA5, 0xE4, 0xBB, 0xBB, 0xE5, 0x8A, 0xA1,
          0xE7, 0x8A, 0xB6, 0xE6, 0x80, 0x81] [WithString ''job_id'' [OptRequired]],
       GetJobStatusTool)]"

definition NewSidecarServer :: "dedup_window \<Rightarrow> progress_tracker \<Rightarrow> sidecar" where
  "NewSidecarServer dedup progress =
     \<lparr>sd_dedup = dedup, sd_progress = progress, sd_configs = [], sd_tools = system_tools, sd_flights = []\<rparr>"

text \<open>Sequencing: a blocked step blocks what follows.\<close>

fun and_then :: "'a outcome \<Rightarrow> ('a \<Rightarrow> 'b outcome) \<Rightarrow> 'b outcome" where
  "and_then Blocked k = Blocked"
| "and_then (Done a) k = k a"

fun each :: "('x \<Rightarrow> 's \<Rightarrow> 's outcome) \<Rightarrow> 'x list \<Rightarrow> 's \<Rightarrow> 's outcome" where
  "each f [] s = Done s"
| "each f (x # xs) s = and_then (f x s) (each f xs)"

type_synonym side = "route_table \<times> sidecar"

section \<open>Device tools\<close>

definition getGatewayStatus :: "string \<Rightarrow> route_table \<Rightarrow> (string \<times> route_table) outcome" where
  "getGatewayStatus deviceID rt =
     and_then (AllDevices rt) (\<lambda>(all, rt).
       Done (case find (\<lambda>d. dr_device_id d = deviceID) all of Some d \<Rightarrow> dr_status d | None \<Rightarrow> GatewayOnline, rt))"

definition compile_all :: "device_config \<Rightarrow> bool \<Rightarrow> sidecar \<Rightarrow> sidecar" where
  "compile_all cfg maintenance sd =
     (let d = dev_id (dc_device cfg) in
      fold (\<lambda>c sd. sd\<lparr>sd_tools := gm_put (tool_name (CompileTool d c maintenance)) (CompileTool d c maintenance, DeviceTool d c) (sd_tools sd)\<rparr>)
        (dc_capabilities cfg) sd)"

definition RegisterDeviceTools :: "device_config \<Rightarrow> side \<Rightarrow> side outcome" where
  "RegisterDeviceTools cfg s =
     (let (rt, sd) = s; d = dev_id (dc_device cfg); sd = sd\<lparr>sd_configs := gm_put d cfg (sd_configs sd)\<rparr> in
      and_then (getGatewayStatus d rt) (\<lambda>(gwStatus, rt).
        Done (rt, compile_all cfg (gwStatus = GatewayMaintenance) sd)))"

definition UnregisterDeviceTools :: "string \<Rightarrow> side \<Rightarrow> side outcome" where
  "UnregisterDeviceTools deviceID s =
     (let (rt, sd) = s in
      case gm_get (sd_configs sd) deviceID of
        None \<Rightarrow> Done s
      | Some cfg \<Rightarrow> Done (rt, sd\<lparr>
          sd_tools := fold (\<lambda>c. gm_del (deviceID @ ''.'' @ cap_name c)) (dc_capabilities cfg) (sd_tools sd),
          sd_configs := gm_del deviceID (sd_configs sd)\<rparr>))"

definition RefreshDeviceTools :: "string \<Rightarrow> side \<Rightarrow> side outcome" where
  "RefreshDeviceTools deviceID s =
     (case gm_get (sd_configs (snd s)) deviceID of None \<Rightarrow> Done s | Some cfg \<Rightarrow> RegisterDeviceTools cfg s)"

text \<open>\<open>LoadDeviceConfig\<close> of \<open>tool_compiler.go\<close>.\<close>

definition LoadDeviceConfig :: "(string \<Rightarrow> string + string) \<Rightarrow> (string \<Rightarrow> string + device_config) \<Rightarrow> string
    \<Rightarrow> string + device_config" where
  "LoadDeviceConfig read_file yaml path =
     (case read_file path of
        Inl e \<Rightarrow> Inl (''read config: '' @ e)
      | Inr data \<Rightarrow> (case yaml data of Inl e \<Rightarrow> Inl (''parse config: '' @ e) | Inr cfg \<Rightarrow> Inr cfg))"

section \<open>The router\<close>

text \<open>The value of the \<open>Authorization\<close> header that \<open>setAuthHeader\<close> sets, if it sets one.\<close>

definition setAuthHeader :: "router \<Rightarrow> go_time \<Rightarrow> string option" where
  "setAuthHeader r now =
     (case ro_tokenManager r of
        None \<Rightarrow> None
      | Some tm \<Rightarrow>
          let ttl = (if ro_tokenTTL r \<le> 0 then 300 * second else ro_tokenTTL r)
          in Some (''Bearer '' @ Mint tm (Some [''*'']) ttl now))"

text \<open>
  A device's announcement and its removal, as hooked into the router by \<open>main\<close>; and the answer
  to \<open>GET /devices\<close>, with its JSON already decoded.
\<close>

type_synonym on_discover = "(device_config \<Rightarrow> side \<Rightarrow> side outcome) option"
type_synonym on_remove = "(string \<Rightarrow> side \<Rightarrow> side outcome) option"

definition lift_rt :: "(route_table \<Rightarrow> ('a \<times> route_table) outcome) \<Rightarrow> side \<Rightarrow> ('a \<times> side) outcome" where
  "lift_rt f s = (case f (fst s) of Blocked \<Rightarrow> Blocked | Done (a, rt) \<Rightarrow> Done (a, (rt, snd s)))"

definition fetchAndRegisterDevices :: "router \<Rightarrow> on_discover \<Rightarrow> (string \<Rightarrow> string option \<Rightarrow> string + device_config list)
    \<Rightarrow> go_time \<Rightarrow> string \<Rightarrow> string \<Rightarrow> side \<Rightarrow> side outcome" where
  "fetchAndRegisterDevices r onDiscover http_get now gwID gwURL s =
     (case onDiscover of
        None \<Rightarrow> Done s
      | Some fn \<Rightarrow>
          (case http_get (gwURL @ ''/devices'') (setAuthHeader r now) of
             Inl e \<Rightarrow> Done s
           | Inr cfgs \<Rightarrow> each (\<lambda>cfg s.
               and_then (fn cfg s) (\<lambda>s. and_then (lift_rt (AddDevice now gwID (dev_id (dc_device cfg))) s) (\<lambda>(_, s). Done s)))
               cfgs s))"

definition AddStaticGateway :: "router \<Rightarrow> on_discover \<Rightarrow> (string \<Rightarrow> string option \<Rightarrow> string + device_config list)
    \<Rightarrow> go_time \<Rightarrow> string \<Rightarrow> string \<Rightarrow> side \<Rightarrow> side outcome" where
  "AddStaticGateway r onDiscover http_get now gwID gwURL s =
     and_then (lift_rt (rt_Register now \<lparr>gw_id = gwID, gw_url = gwURL, gw_devices = [], gw_last_heartbeat = 0, gw_status = []\<rparr>) s)
       (\<lambda>(_, s). fetchAndRegisterDevices r onDiscover http_get now gwID gwURL s)"

record mdns_entry =
  me_name :: string
  me_addr_v4 :: "string option"
  me_port :: int
  me_info :: "string list"

definition service_suffix :: string where "service_suffix = ''._devagent._tcp.''"

text \<open>One turn of the loop over the entries an mDNS query found.\<close>

definition discover_entry :: "router \<Rightarrow> on_discover \<Rightarrow> (string \<Rightarrow> string option \<Rightarrow> string + device_config list)
    \<Rightarrow> go_time \<Rightarrow> mdns_entry \<Rightarrow> side \<Rightarrow> side outcome" where
  "discover_entry r onDiscover http_get now entry s =
     (if \<not> suffix service_suffix (me_name entry) \<and> \<not> contains_str service_suffix (me_name entry) then Done s
      else case me_addr_v4 entry of
        None \<Rightarrow> Done s
      | Some addr \<Rightarrow>
          let scheme = (if ''tls=1'' \<in> set (me_info entry) then ''https'' else ''http'');
              gwURL = scheme @ ''://'' @ addr @ '':'' @ itoa (me_port entry);
              gwID = takeWhile (\<lambda>c. c \<noteq> CHR ''.'') (me_name entry) in
          and_then (lift_rt (rt_Register now \<lparr>gw_id = gwID, gw_url = gwURL, gw_devices = [],
                gw_last_heartbeat = unix now, gw_status = ''online''\<rparr>) s)
            (\<lambda>(_, s). fetchAndRegisterDevices r onDiscover http_get now gwID gwURL s))"

text \<open>One tick of \<open>startGatewayHealthCheck\<close>; \<open>healthy url\<close> is whether the probe was answered.\<close>

definition health_tick :: "router \<Rightarrow> sidecar status_callback option \<Rightarrow> on_remove \<Rightarrow> (string \<Rightarrow> bool) \<Rightarrow> go_time \<Rightarrow> side
    \<Rightarrow> side outcome" where
  "health_tick r cb onRemove healthy now s =
     and_then (lift_rt (StaleGateways now (sc_maintenance_timeout (ro_cfg r)) (sc_heartbeat_timeout (ro_cfg r))) s)
       (\<lambda>((maintenance, offline), s).
     and_then (each (\<lambda>gwID s. and_then (SetGatewayStatus cb gwID GatewayMaintenance s) (\<lambda>(_, rt, sd). Done (rt, sd))) maintenance s)
       (\<lambda>s.
     and_then (each (\<lambda>gwID s. and_then (lift_rt (Unregister gwID) s) (\<lambda>(removed, s).
          each (\<lambda>deviceID s. case onRemove of None \<Rightarrow> Done s | Some fn \<Rightarrow> fn deviceID s) removed s)) offline s)
       (\<lambda>s.
     and_then (lift_rt Gateways s) (\<lambda>(gws, s).
       each (\<lambda>gw s. if healthy (gw_url gw @ ''/healthz'') then UpdateHeartbeat cb now (gw_id gw) s else Done s) gws s))))"

text \<open>The request that \<open>ForwardInvoke\<close> posts, and what it makes of the answer's body.\<close>

record outgoing =
  og_url :: string
  og_authorization :: "string option"
  og_body :: string

datatype forward_error = RouteNotFound string | InvokeDaemon string | DecodeResponse

fun forward_error_text :: "forward_error \<Rightarrow> string" where
  "forward_error_text (RouteNotFound d) = ''ROUTE_NOT_FOUND: device '' @ d @ '' not registered''"
| "forward_error_text (InvokeDaemon e) = ''invoke daemon: '' @ e"
| "forward_error_text DecodeResponse = ''decode response: invalid JSON''"

definition invoke_message :: "go_time \<Rightarrow> flight \<Rightarrow> sse_message" where
  "invoke_message now f = zero_message\<lparr>sm_type := ''invoke'', sm_request_id := fl_request_id f, sm_device_id := fl_device f,
     sm_capability := fl_capability f, sm_params := fl_params f, sm_job_id := fl_job_id f, sm_timestamp := unix now\<rparr>"

definition ForwardInvoke :: "router \<Rightarrow> (rat \<Rightarrow> string) \<Rightarrow> (string \<Rightarrow> rat option) \<Rightarrow> (outgoing \<Rightarrow> string + string) \<Rightarrow> go_time
    \<Rightarrow> flight \<Rightarrow> route_table \<Rightarrow> ((forward_error + sse_message) \<times> route_table) outcome" where
  "ForwardInvoke r sf ff post now f rt =
     and_then (Lookup (fl_device f) rt) (\<lambda>(found, rt).
       case found of
         None \<Rightarrow> Done (Inl (RouteNotFound (fl_device f)), rt)
       | Some gwURL \<Rightarrow>
           (case post \<lparr>og_url = gwURL @ ''/invoke'', og_authorization = setAuthHeader r now,
                og_body = msg_Marshal sf (invoke_message now f)\<rparr> of
              Inl e \<Rightarrow> Done (Inl (InvokeDaemon e), rt)
            | Inr resp \<Rightarrow>
                (case ParseSSEMessage ff resp of
                   None \<Rightarrow> Done (Inl DecodeResponse, rt)
                 | Some msg \<Rightarrow> Done (Inr msg, rt))))"

section \<open>Handlers\<close>

datatype side_result = SideError string | SideJSON "(string \<times> goval) list" | SideRows "device_row list"
  | SideConfig device_config | SideJob job

text \<open>The readings of the clock in one call: the dedup test and how much later it stores, the job
  id, the request id, and the job's creation.\<close>

record call_clock =
  cc_dedup :: go_time
  cc_delay :: duration
  cc_job :: go_time
  cc_request :: go_time
  cc_created :: go_time

definition call_key :: "(rat \<Rightarrow> string) \<Rightarrow> string \<Rightarrow> capability \<Rightarrow> goval \<Rightarrow> string" where
  "call_key sf deviceID c args = MakeKey deviceID (cap_name c) (jprint (to_json sf args))"

definition makeDeviceInvokeHandler :: "(rat \<Rightarrow> string) \<Rightarrow> call_clock \<Rightarrow> string \<Rightarrow> capability \<Rightarrow> goval \<Rightarrow> side
    \<Rightarrow> (side_result \<times> side) outcome" where
  "makeDeviceInvokeHandler sf clk deviceID c args s =
     (let (rt, sd) = s in
      and_then (getGatewayStatus deviceID rt) (\<lambda>(gwStatus, rt).
        if gwStatus = GatewayMaintenance
        then Done (SideError (''device '' @ deviceID @ '' is under maintenance''), (rt, sd))
        else let (ok, dw) = dedup_Allow (cc_dedup clk) (cc_delay clk) (call_key sf deviceID c args) (sd_dedup sd);
                 sd = sd\<lparr>sd_dedup := dw\<rparr> in
          if \<not> ok then Done (SideError ''duplicate request within dedup window'', (rt, sd))
          else let jobID = ''job_'' @ itoa (cc_job clk);
                   requestID = ''req_'' @ itoa (cc_request clk);
                   sd = sd\<lparr>sd_progress := pt_Register (cc_created clk) jobID requestID deviceID (sd_progress sd),
                     sd_flights := sd_flights sd @ [\<lparr>fl_device = deviceID, fl_capability = cap_name c, fl_params = args,
                       fl_request_id = requestID, fl_job_id = jobID\<rparr>]\<rparr>
            in Done (SideJSON [(''job_id'', GStr jobID), (''status'', GStr ''pending''),
                 (''message'', GStr ''invoke dispatched, use __system__.get_job_status to check progress'')], (rt, sd))))"

text \<open>The goroutine of a call comes back: its flight is over and its job gets the result, which is the
  message as a struct, by its JSON tags.\<close>

definition message_goval :: "sse_message \<Rightarrow> goval" where
  "message_goval m =
     (let text = (\<lambda>name t. if t = [] then [] else [(name, GStr t)]); any = (\<lambda>name v. if v = GNil then [] else [(name, v)]) in
      GStruct ([(''type'', GStr (sm_type m))] @ text ''device_id'' (sm_device_id m) @ text ''capability'' (sm_capability m)
        @ text ''request_id'' (sm_request_id m) @ text ''job_id'' (sm_job_id m) @ any ''params'' (sm_params m)
        @ text ''status'' (sm_status m) @ text ''message'' (sm_message m) @ any ''result'' (sm_result m)
        @ [(''timestamp'', GInt (sm_timestamp m))]))"

definition land :: "router \<Rightarrow> (rat \<Rightarrow> string) \<Rightarrow> (string \<Rightarrow> rat option) \<Rightarrow> (outgoing \<Rightarrow> string + string) \<Rightarrow> go_time
    \<Rightarrow> flight \<Rightarrow> side \<Rightarrow> side outcome" where
  "land r sf ff post now f s =
     and_then (ForwardInvoke r sf ff post now f (fst s)) (\<lambda>(res, rt).
       let sd = snd s; sd = sd\<lparr>sd_flights := remove1 f (sd_flights sd)\<rparr> in
       Done (rt, case res of
           Inl e \<Rightarrow> sd\<lparr>sd_progress := pt_Fail (fl_job_id f) (forward_error_text e) (sd_progress sd)\<rparr>
         | Inr msg \<Rightarrow> sd\<lparr>sd_progress := pt_Complete (fl_job_id f) (message_goval msg) (sd_progress sd)\<rparr>))"

definition handleListDevices :: "side \<Rightarrow> (side_result \<times> side) outcome" where
  "handleListDevices s = and_then (lift_rt AllDevices s) (\<lambda>(rows, s). Done (SideRows rows, s))"

text \<open>The handler waits for the gateway itself: what a request is answered comes after some time, or
  is an error at once, or never comes; the router's HTTP client gives up after ten seconds.\<close>

datatype 'a answer = Silent | Refused | After duration 'a

definition httpTimeout :: duration where
  "httpTimeout = 10 * second"

fun await :: "'a answer \<Rightarrow> 'a option" where
  "await Silent = None"
| "await Refused = None"
| "await (After t a) = (if t < httpTimeout then Some a else None)"

text \<open>The answer of \<open>/readyz\<close>: no JSON, or what it reports. An argument is what the MCP library's
  \<open>RequireString\<close> answers.\<close>

datatype readyz = BadBody | Ready bool int

definition handleDiagnose :: "router option \<Rightarrow> (string \<Rightarrow> string option \<Rightarrow> readyz answer) \<Rightarrow> go_time \<Rightarrow> string + string \<Rightarrow> side
    \<Rightarrow> (side_result \<times> side) outcome" where
  "handleDiagnose r probe now device_id s =
     (case device_id of
        Inl e \<Rightarrow> Done (SideError e, s)
      | Inr d \<Rightarrow>
          and_then (lift_rt (Lookup d) s) (\<lambda>(found, s).
            case found of
              None \<Rightarrow> Done (SideJSON [(''device_id'', GStr d), (''sidecar_to_gateway'', GStr ''route_not_found''),
                  (''gateway_to_device'', GStr ''unknown'')], s)
            | Some gwURL \<Rightarrow>
                and_then (lift_rt AllDevices s) (\<lambda>(rows, s).
                  let row = find (\<lambda>x. dr_device_id x = d) rows;
                      gwStatus = (case row of None \<Rightarrow> [] | Some x \<Rightarrow> dr_status x);
                      heartbeatAge = (case row of None \<Rightarrow> -1
                        | Some x \<Rightarrow> if dr_last_heartbeat x > 0 then unix now - dr_last_heartbeat x else -1);
                      gwToDevice = (case r of None \<Rightarrow> ''unknown'' | Some r \<Rightarrow>
                        (case await (probe (gwURL @ ''/readyz'') (setAuthHeader r now)) of
                           None \<Rightarrow> ''unreachable''
                         | Some BadBody \<Rightarrow> ''unknown''
                         | Some (Ready serial n) \<Rightarrow> if serial \<and> n > 0 then ''ok'' else ''not_ready'')) in
                  Done (SideJSON [(''device_id'', GStr d), (''gateway_url'', GStr gwURL), (''gateway_status'', GStr gwStatus),
                    (''sidecar_to_gateway'', GStr ''ok''), (''gateway_to_device'', GStr gwToDevice),
                    (''heartbeat_age_sec'', GInt heartbeatAge)], s))))"

definition handleGetSchema :: "string + string \<Rightarrow> side \<Rightarrow> side_result" where
  "handleGetSchema device_id s =
     (case device_id of
        Inl e \<Rightarrow> SideError e
      | Inr d \<Rightarrow> (case gm_get (sd_configs (snd s)) d of
            None \<Rightarrow> SideError (''device '' @ d @ '' schema not available'')
          | Some cfg \<Rightarrow> SideConfig (Sanitized cfg)))"

definition handleGetJobStatus :: "string + string \<Rightarrow> side \<Rightarrow> side_result" where
  "handleGetJobStatus arg s =
     (case arg of
        Inl e \<Rightarrow> SideError e
      | Inr j \<Rightarrow> (case GetJob j (sd_progress (snd s)) of
            None \<Rightarrow> SideError (''job '' @ j @ '' not found'')
          | Some job \<Rightarrow> SideJob job))"

section \<open>A call of a tool\<close>

text \<open>The outside of a call: the router the server holds, if any, the MCP library's reading of a
  string argument (\<open>RequireString\<close>), the answers to probes, the printing of numbers and the clock.\<close>

record call_world =
  cx_router :: "router option"
  cx_require_string :: "goval \<Rightarrow> string \<Rightarrow> string + string"
  cx_probe :: "string \<Rightarrow> string option \<Rightarrow> readyz answer"
  cx_show_float :: "rat \<Rightarrow> string"
  cx_clock :: call_clock
  cx_now :: go_time

definition run_handler :: "call_world \<Rightarrow> tool_handler \<Rightarrow> goval \<Rightarrow> side \<Rightarrow> (side_result \<times> side) outcome" where
  "run_handler cx h args s =
     (case h of
        ListDevicesTool \<Rightarrow> handleListDevices s
      | DiagnoseTool \<Rightarrow> handleDiagnose (cx_router cx) (cx_probe cx) (cx_now cx) (cx_require_string cx args ''device_id'') s
      | GetSchemaTool \<Rightarrow> Done (handleGetSchema (cx_require_string cx args ''device_id'') s, s)
      | GetJobStatusTool \<Rightarrow> Done (handleGetJobStatus (cx_require_string cx args ''job_id'') s, s)
      | DeviceTool d c \<Rightarrow> makeDeviceInvokeHandler (cx_show_float cx) (cx_clock cx) d c args s)"

text \<open>The server's dispatch: \<open>None\<close> for a name it does not know.\<close>

definition CallTool :: "call_world \<Rightarrow> string \<Rightarrow> goval \<Rightarrow> side \<Rightarrow> (side_result \<times> side) outcome option" where
  "CallTool cx name args s =
     (case gm_get (sd_tools (snd s)) name of None \<Rightarrow> None | Some (_, h) \<Rightarrow> Some (run_handler cx h args s))"

section \<open>While the lock is free\<close>

lemma lift_rt_free: "f rt = Done (a, rt) \<Longrightarrow> lift_rt f (rt, sd) = Done (a, (rt, sd))"
  by (simp add: lift_rt_def)

lemma getGatewayStatus_free: "rt_mu rt = Free \<Longrightarrow> \<exists>st. getGatewayStatus d rt = Done (st, rt)"
  by (simp add: getGatewayStatus_def AllDevices_free)

lemma handleDiagnose_returns: "rt_mu rt = Free \<Longrightarrow> \<exists>res. handleDiagnose r probe now arg (rt, sd) = Done (res, (rt, sd))"
  by (cases arg) (auto simp: handleDiagnose_def lift_rt_free Lookup_free AllDevices_free Let_def split: option.split)

end
