(* ===== verification/Wiring.thy ===== *)
theory Wiring
  imports Sidecar
begin

text \<open>
  How \<open>cmd/devagent/main.go\<close> joins the parts of the sidecar: the hooks it puts into router
  and route table, and the static gateways it registers.
\<close>

section \<open>The hooks\<close>

definition main_on_discover :: on_discover where
  "main_on_discover = Some RegisterDeviceTools"

definition main_on_remove :: on_remove where
  "main_on_remove = Some UnregisterDeviceTools"

definition main_status_callback :: "sidecar status_callback" where
  "main_status_callback gwID oldStatus newStatus s =
     (if newStatus = GatewayMaintenance \<or> newStatus = GatewayOnline then
        and_then (lift_rt (DevicesByGateway gwID) s) (\<lambda>(ds, s). each RefreshDeviceTools ds s)
      else Done s)"

definition main_static_gateways :: "router \<Rightarrow> (string \<Rightarrow> string option \<Rightarrow> string + device_config list) \<Rightarrow> go_time
    \<Rightarrow> static_gateway list \<Rightarrow> side \<Rightarrow> side outcome" where
  "main_static_gateways r http_get now gws s =
     each (\<lambda>gw s. if sg_id gw = [] \<or> sg_url gw = [] then Done s
       else AddStaticGateway r main_on_discover http_get now (sg_id gw) (sg_url gw) s) gws s"

definition main_sidecar :: "(string \<Rightarrow> string option \<Rightarrow> string + device_config list) \<Rightarrow> go_time \<Rightarrow> global_config
    \<Rightarrow> side outcome" where
  "main_sidecar http_get now gcfg =
     (let rt = NewRouteTable;
          dedup = NewDedupWindowWithTTL (sc_dedup_ttl (gc_sidecar gcfg));
          router = NewRouter (tk_secret (gc_token gcfg)) (tk_default_ttl (gc_token gcfg)) (Some (gc_sidecar gcfg));
          srv = NewSidecarServer dedup NewProgressTracker
      in main_static_gateways router http_get now (sc_static_gateways (gc_sidecar gcfg)) (rt, srv))"

section \<open>The callback needs the lock its caller holds\<close>

lemma callback_blocked:
  "rt_mu rt = Writer \<Longrightarrow> new = GatewayMaintenance \<or> new = GatewayOnline \<Longrightarrow>
   main_status_callback g old new (rt, sd) = Blocked"
  by (simp add: main_status_callback_def lift_rt_def DevicesByGateway_def reading_in_writer)

lemma SetGatewayStatus_main:
  "rt_mu rt = Free \<Longrightarrow> SetGatewayStatus (Some main_status_callback) g GatewayMaintenance (rt, sd) =
     (case gm_get (rt_gateways rt) g of
        None \<Rightarrow> Done (False, rt, sd)
      | Some gw \<Rightarrow> if gw_status gw = GatewayMaintenance then Done (True, rt, sd) else Blocked)"
  by (cases rt) (auto simp: SetGatewayStatus_def rt_Lock_def rt_Unlock_def run_callback_def Let_def callback_blocked
      split: option.split)

lemma UpdateHeartbeat_main:
  "rt_mu rt = Free \<Longrightarrow> UpdateHeartbeat (Some main_status_callback) now g (rt, sd) =
     (case gm_get (rt_gateways rt) g of
        None \<Rightarrow> Done (rt, sd)
      | Some gw \<Rightarrow> if gw_status gw = GatewayOnline then Done (UpdateHeartbeat_body now g rt, sd) else Blocked)"
  by (cases rt) (auto simp: UpdateHeartbeat_def UpdateHeartbeat_body_def rt_Lock_def rt_Unlock_def run_callback_def
      Let_def callback_blocked split: option.split)

lemma each_set_status:
  "rt_mu rt = Free \<Longrightarrow> g \<in> set gs \<Longrightarrow> gm_get (rt_gateways rt) g = Some gw \<Longrightarrow> gw_status gw \<noteq> GatewayMaintenance \<Longrightarrow>
   each (\<lambda>gwID s. and_then (SetGatewayStatus (Some main_status_callback) gwID GatewayMaintenance s) (\<lambda>(_, rt, sd). Done (rt, sd)))
     gs (rt, sd) = Blocked"
proof (induction gs)
  case (Cons x gs)
  then show ?case by (auto simp: SetGatewayStatus_main split: option.split)
qed simp

lemma stale_listed:
  assumes "gm_ok (rt_gateways rt)" and "gm_get (rt_gateways rt) g = Some gw"
    and "seconds_of m < unix now - gw_last_heartbeat gw" and "unix now - gw_last_heartbeat gw \<le> seconds_of off"
  shows "g \<in> set (fst (StaleGateways_body now m off rt))"
  using assms gm_get_in_set [OF assms(2)] by (force simp: StaleGateways_body_def Let_def)

text \<open>C29: the sidecar locks itself up at the first gateway that falls silent. When a health tick
  finds an online gateway past the maintenance timeout and not yet past the heartbeat timeout (a
  gateway past both is removed), \<open>SetGatewayStatus\<close> calls the callback of \<open>main\<close> with the
  route table's lock held, the callback asks for the same lock, and the tick never ends. With the
  lock never released, every later call of a device's tool, of \<open>__system__.list_devices\<close> and, for
  a given device, of \<open>__system__.diagnose_connectivity\<close> waits for ever too; the two tools that do
  not read the route table, \<open>get_device_schema\<close> and \<open>get_job_status\<close>, still answer.\<close>

theorem maintenance_deadlock:
  assumes "rt_mu rt = Free" and "gm_ok (rt_gateways rt)" and "gm_get (rt_gateways rt) g = Some gw"
    and "gw_status gw = GatewayOnline"
    and "seconds_of (sc_maintenance_timeout (ro_cfg r)) < unix now - gw_last_heartbeat gw"
    and "unix now - gw_last_heartbeat gw \<le> seconds_of (sc_heartbeat_timeout (ro_cfg r))"
  shows "health_tick r (Some main_status_callback) main_on_remove healthy now (rt, sd) = Blocked
    \<and> makeDeviceInvokeHandler sf clk d c args (rt\<lparr>rt_mu := Writer\<rparr>, sd') = Blocked
    \<and> handleListDevices (rt\<lparr>rt_mu := Writer\<rparr>, sd') = Blocked
    \<and> handleDiagnose ro probe later (Inr dev) (rt\<lparr>rt_mu := Writer\<rparr>, sd') = Blocked
    \<and> (h \<in> {GetSchemaTool, GetJobStatusTool} \<longrightarrow>
        (\<exists>res. run_handler cx h args (rt\<lparr>rt_mu := Writer\<rparr>, sd') = Done (res, (rt\<lparr>rt_mu := Writer\<rparr>, sd'))))"
proof -
  have "g \<in> set (fst (StaleGateways_body now (sc_maintenance_timeout (ro_cfg r)) (sc_heartbeat_timeout (ro_cfg r)) rt))"
    using stale_listed [OF assms(2,3,5,6)] .
  moreover have "gw_status gw \<noteq> GatewayMaintenance" using assms(4) by (simp add: gateway_states)
  ultimately have "health_tick r (Some main_status_callback) main_on_remove healthy now (rt, sd) = Blocked"
    using each_set_status [OF assms(1) _ assms(3)] assms(1)
    by (simp add: health_tick_def lift_rt_def StaleGateways_free split: prod.split) fastforce
  then show ?thesis
    by (auto simp: makeDeviceInvokeHandler_def getGatewayStatus_def AllDevices_def reading_in_writer handleListDevices_def lift_rt_def
        handleDiagnose_def Lookup_def run_handler_def)
qed

definition demo_table :: route_table where
  "demo_table = Register_body 0 \<lparr>gw_id = ''gw_1'', gw_url = ''http://10.0.0.2:8080'', gw_devices = [''shelf_01''],
     gw_last_heartbeat = 0, gw_status = []\<rparr> NewRouteTable"

theorem maintenance_deadlock_witness:
  "health_tick (NewRouter [] 0 None) (Some main_status_callback) main_on_remove (\<lambda>_. True) (75 * second)
     (demo_table, NewSidecarServer NewDedupWindow NewProgressTracker) = Blocked"
proof -
  have t: "rt_mu demo_table = Free" "gm_ok (rt_gateways demo_table)"
    "gm_get (rt_gateways demo_table) ''gw_1'' = Some \<lparr>gw_id = ''gw_1'', gw_url = ''http://10.0.0.2:8080'',
       gw_devices = [''shelf_01''], gw_last_heartbeat = 0, gw_status = GatewayOnline\<rparr>"
    by (simp_all add: demo_table_def Register_body_def NewRouteTable_def unix_def second_def)
  show ?thesis
    using maintenance_deadlock [OF t, where r = "NewRouter [] 0 None" and now = "75 * second"]
    by (simp add: NewRouter_def DefaultGlobalConfig_def seconds_of_def second_def unix_def)
qed

section \<open>A sidecar's requests are accepted by a daemon with the same secret\<close>

lemma ForwardInvoke_posts:
  "rt_mu rt = Free \<Longrightarrow> Lookup_body (fl_device f) rt = Some url \<Longrightarrow>
   ForwardInvoke r sf ff post now f rt =
     (case post \<lparr>og_url = url @ ''/invoke'', og_authorization = setAuthHeader r now,
          og_body = msg_Marshal sf (invoke_message now f)\<rparr> of
        Inl e \<Rightarrow> Done (Inl (InvokeDaemon e), rt)
      | Inr resp \<Rightarrow> (case ParseSSEMessage ff resp of None \<Rightarrow> Done (Inl DecodeResponse, rt) | Some msg \<Rightarrow> Done (Inr msg, rt)))"
  by (simp add: ForwardInvoke_def Lookup_free)

lemma ForwardInvoke_unknown:
  "rt_mu rt = Free \<Longrightarrow> Lookup_body (fl_device f) rt = None \<Longrightarrow>
   ForwardInvoke r sf ff post now f rt = Done (Inl (RouteNotFound (fl_device f)), rt)"
  by (simp add: ForwardInvoke_def Lookup_free)

end
