(* ===== verification/Hooks.thy ===== *)
theory Hooks
  imports Wiring
begin

text \<open>
  What discovery, static gateways, the status callback and the health tick leave alone, given what
  the two hooks that \<open>main.go\<close> installs leave alone: everything these operations do to the
  sidecar besides the route table goes through \<open>RegisterDeviceTools\<close> and
  \<open>UnregisterDeviceTools\<close>.
\<close>

section \<open>Sequences of steps\<close>

lemma and_then_Done: "and_then x k = Done y \<longleftrightarrow> (\<exists>a. x = Done a \<and> k a = Done y)"
  by (cases x) auto

lemma each_keeps:
  assumes "each f xs s = Done s'" and "P s"
    and "\<And>x s s'. x \<in> set xs \<Longrightarrow> P s \<Longrightarrow> f x s = Done s' \<Longrightarrow> P s'"
  shows "P s'"
  using assms
proof (induction xs arbitrary: s)
  case (Cons x xs)
  obtain s1 where s1: "f x s = Done s1" "each f xs s1 = Done s'" using Cons.prems(1) by (auto simp: and_then_Done)
  have "P s1" using Cons.prems(3) [OF _ Cons.prems(2) s1(1)] by simp
  then show ?case using Cons.IH [OF s1(2)] Cons.prems(3) by (metis list.set_intros(2))
qed simp

lemma lift_rt_sidecar: "lift_rt f s = Done (a, s') \<Longrightarrow> snd s' = snd s"
  by (auto simp: lift_rt_def split: outcome.splits prod.splits)

lemma compile_all_tools:
  "gm_get (sd_tools (compile_all cfg m sd)) k =
     (case find (\<lambda>c. k = dev_id (dc_device cfg) @ ''.'' @ cap_name c) (rev (dc_capabilities cfg)) of
        Some c \<Rightarrow> Some (CompileTool (dev_id (dc_device cfg)) c m, DeviceTool (dev_id (dc_device cfg)) c)
      | None \<Rightarrow> gm_get (sd_tools sd) k)"
proof -
  let ?d = "dev_id (dc_device cfg)"
  let ?add = "\<lambda>c (sd :: sidecar). sd\<lparr>sd_tools := gm_put (tool_name (CompileTool ?d c m)) (CompileTool ?d c m, DeviceTool ?d c) (sd_tools sd)\<rparr>"
  have nm: "tool_name (CompileTool ?d c m) = ?d @ ''.'' @ cap_name c" for c by (simp add: CompileTool_def)
  have "gm_get (sd_tools (fold ?add cs sd)) k = (case find (\<lambda>c. k = ?d @ ''.'' @ cap_name c) (rev cs) of
        Some c \<Rightarrow> Some (CompileTool ?d c m, DeviceTool ?d c) | None \<Rightarrow> gm_get (sd_tools sd) k)" for cs
    by (induction cs rule: rev_induct) (auto simp: nm)
  then show ?thesis unfolding compile_all_def Let_def .
qed

text \<open>Compiling changes the tools and nothing else, whatever the rest holds.\<close>

lemma compile_all_rest:
  "\<exists>f. \<forall>sd. compile_all cfg m sd = sd\<lparr>sd_tools := f (sd_tools sd)\<rparr>"
proof -
  let ?d = "dev_id (dc_device cfg)"
  let ?add = "\<lambda>c (sd :: sidecar). sd\<lparr>sd_tools := gm_put (tool_name (CompileTool ?d c m)) (CompileTool ?d c m, DeviceTool ?d c) (sd_tools sd)\<rparr>"
  have "\<exists>f. \<forall>sd. fold ?add cs sd = sd\<lparr>sd_tools := f (sd_tools sd)\<rparr>" for cs
  proof (induction cs)
    case Nil
    show ?case by (rule exI [of _ "\<lambda>t. t"]) simp
  next
    case (Cons c cs)
    then obtain f where "\<forall>sd. fold ?add cs sd = sd\<lparr>sd_tools := f (sd_tools sd)\<rparr>" ..
    then show ?case by (intro exI [of _ "\<lambda>t. f (gm_put (tool_name (CompileTool ?d c m)) (CompileTool ?d c m, DeviceTool ?d c) t)"]) simp
  qed
  then show ?thesis unfolding compile_all_def Let_def .
qed

lemma compile_all_fields [simp]:
  "sd_progress (compile_all cfg m sd) = sd_progress sd" "sd_flights (compile_all cfg m sd) = sd_flights sd"
  "sd_configs (compile_all cfg m sd) = sd_configs sd" "sd_dedup (compile_all cfg m sd) = sd_dedup sd"
  "sd_tools (compile_all cfg m (sd\<lparr>sd_configs := x\<rparr>)) = sd_tools (compile_all cfg m sd)"
  using compile_all_rest [of cfg m] by auto

text \<open>The two hooks, in one equation each.\<close>

lemma RegisterDeviceTools_Done:
  assumes "RegisterDeviceTools cfg s = Done s'"
  shows "\<exists>m. snd s' = compile_all cfg m ((snd s)\<lparr>sd_configs := gm_put (dev_id (dc_device cfg)) cfg (sd_configs (snd s))\<rparr>)"
  using assms by (cases s) (auto simp: RegisterDeviceTools_def Let_def and_then_Done)

lemma UnregisterDeviceTools_Done:
  assumes "UnregisterDeviceTools d s = Done s'"
  shows "(gm_get (sd_configs (snd s)) d = None \<and> s' = s)
    \<or> (\<exists>cfg. gm_get (sd_configs (snd s)) d = Some cfg
        \<and> snd s' = (snd s)\<lparr>sd_tools := fold (\<lambda>c. gm_del (d @ ''.'' @ cap_name c)) (dc_capabilities cfg) (sd_tools (snd s)),
            sd_configs := gm_del d (sd_configs (snd s))\<rparr>)"
  using assms by (cases s) (auto simp: UnregisterDeviceTools_def split: option.splits)

section \<open>What gateways answer\<close>

definition answers_only :: "(device_config \<Rightarrow> bool) \<Rightarrow> (string \<Rightarrow> string option \<Rightarrow> string + device_config list) \<Rightarrow> bool" where
  "answers_only announced http_get \<longleftrightarrow> (\<forall>u a cfgs. http_get u a = Inr cfgs \<longrightarrow> (\<forall>cfg \<in> set cfgs. announced cfg))"

lemma fold_gm_del: "gm_get (fold (\<lambda>c. gm_del (g c)) cs m) k = (if k \<in> g ` set cs then None else gm_get m k)"
  by (induction cs arbitrary: m) auto

section \<open>An interface: what the hooks keep\<close>

text \<open>\<open>announced\<close> are the configurations that gateways may send; \<open>keeps\<close> is a property of the
  sidecar that registering such a configuration and unregistering any device preserve.\<close>

locale device_hooks =
  fixes announced :: "device_config \<Rightarrow> bool" and keeps :: "sidecar \<Rightarrow> bool"
  assumes register: "announced cfg \<Longrightarrow> keeps (snd s) \<Longrightarrow> RegisterDeviceTools cfg s = Done s' \<Longrightarrow> keeps (snd s')"
    and unregister: "keeps (snd s) \<Longrightarrow> UnregisterDeviceTools d s = Done s' \<Longrightarrow> keeps (snd s')"
    and known: "keeps sd \<Longrightarrow> gm_get (sd_configs sd) d = Some cfg \<Longrightarrow> announced cfg"
begin

lemma fetch_keeps:
  assumes "fetchAndRegisterDevices r main_on_discover http_get now g u s = Done s'" and "answers_only announced http_get" and "keeps (snd s)"
  shows "keeps (snd s')"
proof (cases "http_get (u @ ''/devices'') (setAuthHeader r now)")
  case (Inl e)
  with assms show ?thesis by (simp add: fetchAndRegisterDevices_def main_on_discover_def)
next
  case (Inr cfgs)
  have each: "each (\<lambda>cfg s. and_then (RegisterDeviceTools cfg s)
      (\<lambda>s. and_then (lift_rt (AddDevice now g (dev_id (dc_device cfg))) s) (\<lambda>(_, s). Done s))) cfgs s = Done s'"
    using assms(1) Inr by (simp add: fetchAndRegisterDevices_def main_on_discover_def)
  have ann: "announced cfg" if "cfg \<in> set cfgs" for cfg using assms(2) Inr that by (auto simp: answers_only_def)
  show ?thesis
  proof (rule each_keeps [OF each, where P = "\<lambda>s. keeps (snd s)"])
    fix cfg s s'
    assume "cfg \<in> set cfgs" "keeps (snd s)" and "and_then (RegisterDeviceTools cfg s)
      (\<lambda>s. and_then (lift_rt (AddDevice now g (dev_id (dc_device cfg))) s) (\<lambda>(_, s). Done s)) = Done s'"
    then obtain s1 where s1: "RegisterDeviceTools cfg s = Done s1" "snd s' = snd s1"
      by (auto simp: and_then_Done dest: lift_rt_sidecar)
    show "keeps (snd s')" using register [OF ann [OF \<open>cfg \<in> set cfgs\<close>] \<open>keeps (snd s)\<close> s1(1)] s1(2) by simp
  qed (rule assms(3))
qed

lemma static_keeps:
  "AddStaticGateway r main_on_discover http_get now g u s = Done s' \<Longrightarrow> answers_only announced http_get \<Longrightarrow> keeps (snd s) \<Longrightarrow> keeps (snd s')"
  by (auto simp: AddStaticGateway_def and_then_Done dest!: lift_rt_sidecar intro: fetch_keeps)

lemma main_keeps:
  assumes "main_sidecar http_get now gcfg = Done s" and "answers_only announced http_get"
    and "keeps (NewSidecarServer (NewDedupWindowWithTTL (sc_dedup_ttl (gc_sidecar gcfg))) NewProgressTracker)"
  shows "keeps (snd s)"
  using assms(1) unfolding main_sidecar_def main_static_gateways_def Let_def
  by (rule each_keeps [where P = "\<lambda>s. keeps (snd s)"]) (auto simp: assms(3) split: if_splits intro: static_keeps [OF _ assms(2)])

lemma discover_keeps:
  "discover_entry r main_on_discover http_get now entry s = Done s' \<Longrightarrow> answers_only announced http_get \<Longrightarrow> keeps (snd s) \<Longrightarrow> keeps (snd s')"
  by (auto simp: discover_entry_def and_then_Done Let_def split: if_splits option.splits
      dest!: lift_rt_sidecar intro: fetch_keeps)

lemma refresh_keeps: "RefreshDeviceTools d s = Done s' \<Longrightarrow> keeps (snd s) \<Longrightarrow> keeps (snd s')"
  by (auto simp: RefreshDeviceTools_def split: option.splits intro: register [OF known])

lemma callback_keeps: "main_status_callback g old new s = Done s' \<Longrightarrow> keeps (snd s) \<Longrightarrow> keeps (snd s')"
  by (auto simp: main_status_callback_def and_then_Done split: if_splits dest!: lift_rt_sidecar
      elim!: each_keeps [where P = "\<lambda>s. keeps (snd s)"] intro: refresh_keeps)

lemma set_status_keeps:
  "SetGatewayStatus (Some main_status_callback) g st s = Done (b, s') \<Longrightarrow> keeps (snd s) \<Longrightarrow> keeps (snd s')"
  by (cases s; cases s') (auto simp: SetGatewayStatus_def run_callback_def Let_def
      split: outcome.splits option.splits if_splits dest!: callback_keeps)

lemma heartbeat_keeps:
  "UpdateHeartbeat (Some main_status_callback) now g s = Done s' \<Longrightarrow> keeps (snd s) \<Longrightarrow> keeps (snd s')"
  by (cases s; cases s') (auto simp: UpdateHeartbeat_def run_callback_def Let_def
      split: outcome.splits option.splits if_splits dest!: callback_keeps)

lemma remove_keeps:
  assumes "each (\<lambda>d s. case main_on_remove of None \<Rightarrow> Done s | Some fn \<Rightarrow> fn d s) ds s = Done s'" and "keeps (snd s)"
  shows "keeps (snd s')"
  using assms(1) by (rule each_keeps [where P = "\<lambda>s. keeps (snd s)"]) (auto simp: main_on_remove_def assms(2) intro: unregister)

lemma health_keeps:
  assumes "health_tick r (Some main_status_callback) main_on_remove healthy now s = Done s'" and "keeps (snd s)"
  shows "keeps (snd s')"
proof -
  obtain m f s1 s2 s3 gws s4 where
    st: "lift_rt (StaleGateways now (sc_maintenance_timeout (ro_cfg r)) (sc_heartbeat_timeout (ro_cfg r))) s = Done ((m, f), s1)"
    and set: "each (\<lambda>g s. and_then (SetGatewayStatus (Some main_status_callback) g GatewayMaintenance s) (\<lambda>(_, rt, sd). Done (rt, sd))) m s1 = Done s2"
    and off: "each (\<lambda>g s. and_then (lift_rt (Unregister g) s) (\<lambda>(removed, s).
          each (\<lambda>d s. case main_on_remove of None \<Rightarrow> Done s | Some fn \<Rightarrow> fn d s) removed s)) f s2 = Done s3"
    and gws: "lift_rt Gateways s3 = Done (gws, s4)"
    and beat: "each (\<lambda>gw s. if healthy (gw_url gw @ ''/healthz'') then UpdateHeartbeat (Some main_status_callback) now (gw_id gw) s
          else Done s) gws s4 = Done s'"
    using assms(1) unfolding health_tick_def and_then_Done by (auto simp: and_then_Done)
  have 1: "keeps (snd s1)" using lift_rt_sidecar [OF st] assms(2) by simp
  have 2: "keeps (snd s2)"
    by (rule each_keeps [OF set, where P = "\<lambda>s. keeps (snd s)"]) (auto simp: 1 and_then_Done dest: set_status_keeps)
  have 3: "keeps (snd s3)"
    by (rule each_keeps [OF off, where P = "\<lambda>s. keeps (snd s)"]) (auto simp: 2 and_then_Done dest!: lift_rt_sidecar intro: remove_keeps)
  have 4: "keeps (snd s4)" using lift_rt_sidecar [OF gws] 3 by simp
  show ?thesis
    by (rule each_keeps [OF beat, where P = "\<lambda>s. keeps (snd s)"]) (auto simp: 4 split: if_splits dest: heartbeat_keeps)
qed

end

end
