(* ===== verification/SidecarCalls.thy ===== *)
theory SidecarCalls
  imports Hooks
begin

text \<open>
  Lemmas on the sidecar's handlers (\<open>internal/sidecar/server.go\<close>): what one call changes,
  what its repetition does, and which tools registration and removal leave behind.
\<close>

section \<open>A call and its repetition\<close>

lemma call_accepted:
  assumes "rt_mu rt = Free"
    and "makeDeviceInvokeHandler sf clk d c args (rt, sd) = Done (SideJSON out, s')"
  shows "fst (dedup_Allow (cc_dedup clk) (cc_delay clk) (call_key sf d c args) (sd_dedup sd))
    \<and> s' = (rt, sd\<lparr>sd_dedup := snd (dedup_Allow (cc_dedup clk) (cc_delay clk) (call_key sf d c args) (sd_dedup sd)),
        sd_progress := pt_Register (cc_created clk) (''job_'' @ itoa (cc_job clk)) (''req_'' @ itoa (cc_request clk)) d (sd_progress sd),
        sd_flights := sd_flights sd @ [\<lparr>fl_device = d, fl_capability = cap_name c, fl_params = args,
          fl_request_id = ''req_'' @ itoa (cc_request clk), fl_job_id = ''job_'' @ itoa (cc_job clk)\<rparr>]\<rparr>)"
proof -
  obtain st where "getGatewayStatus d rt = Done (st, rt)" using getGatewayStatus_free [OF assms(1)] by blast
  with assms(2) show ?thesis by (auto simp: makeDeviceInvokeHandler_def Let_def split: if_splits prod.splits)
qed

lemma call_accepts:
  assumes "getGatewayStatus d rt = Done (st, rt)" and "st \<noteq> GatewayMaintenance"
    and "fst (dedup_Allow (cc_dedup clk) (cc_delay clk) (call_key sf d c args) (sd_dedup sd))"
  shows "\<exists>out sd1. makeDeviceInvokeHandler sf clk d c args (rt, sd) = Done (SideJSON out, (rt, sd1))"
  using assms by (cases "dedup_Allow (cc_dedup clk) (cc_delay clk) (call_key sf d c args) (sd_dedup sd)")
    (simp add: makeDeviceInvokeHandler_def Let_def)

lemma call_refused:
  assumes "rt_mu rt = Free"
    and "\<not> fst (dedup_Allow (cc_dedup clk) (cc_delay clk) (call_key sf d c args) (sd_dedup sd))"
  shows "\<exists>msg. makeDeviceInvokeHandler sf clk d c args (rt, sd) = Done (SideError msg, (rt, sd))"
proof -
  obtain st where st: "getGatewayStatus d rt = Done (st, rt)" using getGatewayStatus_free [OF assms(1)] by blast
  have "dedup_Allow (cc_dedup clk) (cc_delay clk) (call_key sf d c args) (sd_dedup sd) = (False, sd_dedup sd)"
    using assms(2) by (simp add: dedup_Allow_def split: if_splits option.splits)
  with st show ?thesis by (simp add: makeDeviceInvokeHandler_def Let_def)
qed

text \<open>C16: one intention, one invocation: an accepted call starts exactly one goroutine, with the
  call's arguments, and registers one pending job, both named after its reading of the clock,
  \<open>job_<nanoseconds>\<close>. The same call made again before the window has passed is refused and
  changes nothing: no second job, no second request to the daemon. In between any other calls and
  clean-ups may have gone through the dedup window, in the order of their times, and everything
  else in the sidecar and the route table may have changed, as long as the table's lock is free.\<close>

theorem repeated_call_flies_once:
  assumes "rt_mu rt = Free" and "makeDeviceInvokeHandler sf clk d c args (rt, sd) = Done (SideJSON out, (rt1, sd1))"
    and "dedup_good (sd_dedup sd)" and "0 \<le> cc_delay clk"
    and "rt_mu rt2 = Free" and "sd_dedup sd2 = snd (gate_run dedup_ask dedup_cleanup (sd_dedup sd1) es)"
    and "sorted (cc_dedup clk # map event_time es @ [cc_dedup clk2])"
    and "cc_dedup clk2 - cc_dedup clk < dw_ttl (sd_dedup sd)"
  shows "(\<exists>f. sd_flights sd1 = sd_flights sd @ [f] \<and> fl_device f = d \<and> fl_capability f = cap_name c \<and> fl_params f = args
      \<and> fl_job_id f = ''job_'' @ itoa (cc_job clk) \<and> fl_request_id f = ''req_'' @ itoa (cc_request clk)
      \<and> (\<forall>k. GetJob k (sd_progress sd1) \<noteq> GetJob k (sd_progress sd) \<longrightarrow> k = fl_job_id f)
      \<and> map_option job_status (GetJob (fl_job_id f) (sd_progress sd1)) = Some ''pending'')
    \<and> (\<exists>msg. makeDeviceInvokeHandler sf clk2 d c args (rt2, sd2) = Done (SideError msg, (rt2, sd2)))"
proof -
  let ?k = "call_key sf d c args" let ?res = "dedup_Allow (cc_dedup clk) (cc_delay clk) ?k (sd_dedup sd)"
  from call_accepted [OF assms(1,2)] have ok: "fst ?res" and sd1: "sd1 = sd\<lparr>sd_dedup := snd ?res,
        sd_progress := pt_Register (cc_created clk) (''job_'' @ itoa (cc_job clk)) (''req_'' @ itoa (cc_request clk)) d (sd_progress sd),
        sd_flights := sd_flights sd @ [\<lparr>fl_device = d, fl_capability = cap_name c, fl_params = args,
          fl_request_id = ''req_'' @ itoa (cc_request clk), fl_job_id = ''job_'' @ itoa (cc_job clk)\<rparr>]\<rparr>" by simp_all
  have "\<not> fst (dedup_Allow (cc_dedup clk2) (cc_delay clk2) ?k (sd_dedup sd2))"
    using window_refuses [OF assms(3) ok assms(4,7,8)] by (simp add: assms(6) sd1)
  from call_refused [OF assms(5) this] show ?thesis by (auto simp: sd1 jobs)
qed

definition lamp_call :: call_clock where
  "lamp_call = \<lparr>cc_dedup = 5, cc_delay = 1, cc_job = 7, cc_request = 8, cc_created = 9\<rparr>"

lemma lamp_accepted:
  "fst (dedup_Allow (cc_dedup clk) (cc_delay clk) (call_key (\<lambda>_. []) d (plain_capability ''on'' zero_implementation) GNil) (sd_dedup sd)) \<Longrightarrow>
   \<exists>out sd1. makeDeviceInvokeHandler (\<lambda>_. []) clk d (plain_capability ''on'' zero_implementation) GNil (NewRouteTable, sd)
     = Done (SideJSON out, (NewRouteTable, sd1))"
proof -
  have "getGatewayStatus d NewRouteTable = Done (GatewayOnline, NewRouteTable)"
    by (simp add: getGatewayStatus_def AllDevices_free NewRouteTable_def) (simp add: AllDevices_body_def)
  then show "fst (dedup_Allow (cc_dedup clk) (cc_delay clk) (call_key (\<lambda>_. []) d (plain_capability ''on'' zero_implementation) GNil) (sd_dedup sd)) \<Longrightarrow> ?thesis"
    using call_accepts [of d NewRouteTable GatewayOnline clk "\<lambda>_. []"] by (simp add: gateway_states)
qed

theorem repeated_call_flies_once_witness:
  "\<exists>out sd1 sd2 msg. makeDeviceInvokeHandler (\<lambda>_. []) lamp_call ''lamp'' (plain_capability ''on'' zero_implementation) GNil
      (NewRouteTable, NewSidecarServer NewDedupWindow NewProgressTracker) = Done (SideJSON out, (NewRouteTable, sd1))
   \<and> length (sd_flights sd1) = 1
   \<and> sd2 = sd1\<lparr>sd_dedup := dedup_cleanup 900 (snd (dedup_Allow 800 1 ''another'' (sd_dedup sd1)))\<rparr>
   \<and> makeDeviceInvokeHandler (\<lambda>_. []) (lamp_call\<lparr>cc_dedup := 1000\<rparr>) ''lamp'' (plain_capability ''on'' zero_implementation) GNil
      (NewRouteTable, sd2) = Done (SideError msg, (NewRouteTable, sd2))"
proof -
  let ?sd = "NewSidecarServer NewDedupWindow NewProgressTracker" and ?c = "plain_capability ''on'' zero_implementation"
    and ?clk2 = "lamp_call\<lparr>cc_dedup := 1000\<rparr>"
  have free: "rt_mu NewRouteTable = Free" by (simp add: NewRouteTable_def)
  have "fst (dedup_Allow (cc_dedup lamp_call) (cc_delay lamp_call) k (sd_dedup ?sd))" for k
    by (simp add: dedup_Allow_def NewDedupWindow_def NewDedupWindowWithTTL_def NewSidecarServer_def)
  then obtain out sd1 where call: "makeDeviceInvokeHandler (\<lambda>_. []) lamp_call ''lamp'' ?c GNil (NewRouteTable, ?sd)
      = Done (SideJSON out, (NewRouteTable, sd1))" using lamp_accepted by blast
  let ?sd2 = "sd1\<lparr>sd_dedup := dedup_cleanup 900 (snd (dedup_Allow 800 1 ''another'' (sd_dedup sd1)))\<rparr>"
  have good: "dedup_good (sd_dedup ?sd)" by (simp add: dedup_good_def NewSidecarServer_def NewDedupWindow_def NewDedupWindowWithTTL_def)
  have "sd_dedup ?sd2 = snd (gate_run dedup_ask dedup_cleanup (sd_dedup sd1) [Ask 800 (''another'', 1), Tidy 900])"
    by (simp add: split_def Let_def)
  moreover have "sorted (cc_dedup lamp_call # map event_time [Ask 800 (''another'', 1 :: duration), Tidy 900] @ [cc_dedup ?clk2])"
    by (simp add: lamp_call_def)
  moreover have "cc_dedup ?clk2 - cc_dedup lamp_call < dw_ttl (sd_dedup ?sd)" "0 \<le> cc_delay lamp_call"
    by (simp_all add: lamp_call_def NewSidecarServer_def NewDedupWindow_def NewDedupWindowWithTTL_def second_def)
  ultimately show ?thesis using repeated_call_flies_once [OF free call good _ free] call
    by (fastforce simp: NewSidecarServer_def)
qed

section \<open>Two calls in one nanosecond\<close>

text \<open>A job id is a reading of the clock. An accepted call that reads the nanosecond of an earlier
  one takes over its entry in the job tracker, whatever state that job was in: a settled job is
  pending again, its result gone, and the id now stands for the other device.\<close>

theorem same_nanosecond_overwrites:
  assumes "rt_mu rt = Free" and "makeDeviceInvokeHandler sf clk d c args (rt, sd) = Done (SideJSON out, (rt1, sd1))"
    and "GetJob (''job_'' @ itoa (cc_job clk)) (sd_progress sd) = Some j"
  shows "\<exists>j'. GetJob (''job_'' @ itoa (cc_job clk)) (sd_progress sd1) = Some j' \<and> job_status j' = ''pending''
    \<and> job_device_id j' = d \<and> job_result j' = GNil"
  using call_accepted [OF assms(1,2)] by (simp add: jobs)

theorem same_nanosecond_overwrites_witness:
  "\<exists>out sd1 j. makeDeviceInvokeHandler (\<lambda>_. []) lamp_call ''lamp'' (plain_capability ''on'' zero_implementation) GNil (NewRouteTable,
      NewSidecarServer NewDedupWindow (pt_Complete ''job_7'' (GStr ''done'') (pt_Register 0 ''job_7'' ''req_7'' ''fan'' NewProgressTracker)))
     = Done (SideJSON out, (NewRouteTable, sd1))
   \<and> GetJob ''job_7'' (sd_progress sd1) = Some j \<and> job_status j = ''pending'' \<and> job_device_id j = ''lamp''"
proof -
  let ?p = "pt_Complete ''job_7'' (GStr ''done'') (pt_Register 0 ''job_7'' ''req_7'' ''fan'' NewProgressTracker)"
  let ?sd = "NewSidecarServer NewDedupWindow ?p"
  have jn: "''job_'' @ itoa (cc_job lamp_call) = ''job_7''" by code_simp
  have free: "rt_mu NewRouteTable = Free" by (simp add: NewRouteTable_def)
  have "fst (dedup_Allow (cc_dedup lamp_call) (cc_delay lamp_call) k (sd_dedup ?sd))" for k
    by (simp add: dedup_Allow_def NewDedupWindow_def NewDedupWindowWithTTL_def NewSidecarServer_def)
  then obtain out sd1 where call: "makeDeviceInvokeHandler (\<lambda>_. []) lamp_call ''lamp'' (plain_capability ''on'' zero_implementation) GNil
      (NewRouteTable, ?sd) = Done (SideJSON out, (NewRouteTable, sd1))" using lamp_accepted by blast
  obtain j where "GetJob ''job_7'' (sd_progress ?sd) = Some j" by (simp add: NewSidecarServer_def jobs)
  from same_nanosecond_overwrites [OF free call, unfolded jn, OF this] call show ?thesis by auto
qed

section \<open>Tools that outlive their device\<close>

lemma RegisterDeviceTools_cases:
  "RegisterDeviceTools cfg s = Done s' \<Longrightarrow>
   \<exists>m. sd_tools (snd s') = sd_tools (compile_all cfg m (snd s)) \<and> sd_configs (snd s') = gm_put (dev_id (dc_device cfg)) cfg (sd_configs (snd s))"
  using RegisterDeviceTools_Done [of cfg s s'] by auto

text \<open>Removing a device removes the tools of the configuration seen last, and only those: a
  capability that an earlier configuration of the same device had and the last one has not keeps
  its tool after the device is gone, and with the configuration forgotten no later removal takes it
  away.\<close>

theorem stale_tool_survives:
  assumes "RegisterDeviceTools cfg1 s = Done s1" and "RegisterDeviceTools cfg2 s1 = Done s2"
    and "dev_id (dc_device cfg1) = d" and "dev_id (dc_device cfg2) = d" and "UnregisterDeviceTools d s2 = Done s3"
  shows "(\<forall>c. cap_name c \<in> cap_name ` set (dc_capabilities cfg2) \<longrightarrow> gm_get (sd_tools (snd s3)) (d @ ''.'' @ cap_name c) = None)
    \<and> (\<forall>c. cap_name c \<in> cap_name ` set (dc_capabilities cfg1) - cap_name ` set (dc_capabilities cfg2) \<longrightarrow>
          gm_get (sd_tools (snd s3)) (d @ ''.'' @ cap_name c) \<noteq> None)
    \<and> UnregisterDeviceTools d s3 = Done s3"
proof -
  obtain m1 where t1: "sd_tools (snd s1) = sd_tools (compile_all cfg1 m1 (snd s))"
    using RegisterDeviceTools_cases [OF assms(1)] by blast
  obtain m2 where t2: "sd_tools (snd s2) = sd_tools (compile_all cfg2 m2 (snd s1))"
    and c2: "sd_configs (snd s2) = gm_put d cfg2 (sd_configs (snd s1))"
    using RegisterDeviceTools_cases [OF assms(2)] assms(4) by blast
  have s3: "snd s3 = (snd s2)\<lparr>sd_tools := fold (\<lambda>c. gm_del (d @ ''.'' @ cap_name c)) (dc_capabilities cfg2) (sd_tools (snd s2)),
      sd_configs := gm_del d (sd_configs (snd s2))\<rparr>"
    using assms(5) by (cases s2) (use c2 in \<open>auto simp: UnregisterDeviceTools_def\<close>)
  have look: "gm_get (sd_tools (snd s3)) (d @ CHR ''.'' # x) =
      (if x \<in> cap_name ` set (dc_capabilities cfg2) then None else gm_get (sd_tools (snd s2)) (d @ CHR ''.'' # x))" for x
    using fold_gm_del [of "\<lambda>c. d @ ''.'' @ cap_name c" "dc_capabilities cfg2" "sd_tools (snd s2)" "d @ ''.'' @ x"]
    by (auto simp: s3)
  have "gm_get (sd_tools (snd s2)) (d @ ''.'' @ cap_name c) \<noteq> None"
    if "cap_name c \<in> cap_name ` set (dc_capabilities cfg1)" for c
    using that assms(3) by (force simp: t2 compile_all_tools t1 find_None_iff split: option.split)
  moreover have "UnregisterDeviceTools d s3 = Done s3"
    by (cases s3) (use s3 in \<open>simp add: UnregisterDeviceTools_def\<close>)
  ultimately show ?thesis by (intro conjI allI impI) (simp_all add: look, blast)
qed

definition lamp_v1 :: device_config where
  "lamp_v1 = \<lparr>dc_device = \<lparr>dev_id = ''lamp'', dev_name = [], dev_type = ''direct'', dev_capabilities = []\<rparr>,
     dc_capabilities = [plain_capability ''on'' zero_implementation, plain_capability ''dim'' zero_implementation]\<rparr>"

definition lamp_v2 :: device_config where
  "lamp_v2 = lamp_v1\<lparr>dc_capabilities := [plain_capability ''on'' zero_implementation]\<rparr>"

theorem stale_tool_survives_witness:
  "\<exists>s1 s2 s3. RegisterDeviceTools lamp_v1 (NewRouteTable, NewSidecarServer NewDedupWindow NewProgressTracker) = Done s1
     \<and> RegisterDeviceTools lamp_v2 s1 = Done s2 \<and> UnregisterDeviceTools ''lamp'' s2 = Done s3
     \<and> gm_get (sd_tools (snd s3)) ''lamp.on'' = None \<and> gm_get (sd_tools (snd s3)) ''lamp.dim'' \<noteq> None"
proof -
  have reg: "\<exists>sd'. RegisterDeviceTools cfg (NewRouteTable, sd) = Done (NewRouteTable, sd')" for cfg sd
  proof -
    obtain st where "getGatewayStatus (dev_id (dc_device cfg)) NewRouteTable = Done (st, NewRouteTable)"
      using getGatewayStatus_free [of NewRouteTable] by (auto simp: NewRouteTable_def)
    then show ?thesis by (simp add: RegisterDeviceTools_def Let_def)
  qed
  obtain sd1 where s1: "RegisterDeviceTools lamp_v1 (NewRouteTable, NewSidecarServer NewDedupWindow NewProgressTracker)
      = Done (NewRouteTable, sd1)" using reg by blast
  obtain sd2 where s2: "RegisterDeviceTools lamp_v2 (NewRouteTable, sd1) = Done (NewRouteTable, sd2)" using reg by blast
  obtain s3 where s3: "UnregisterDeviceTools ''lamp'' (NewRouteTable, sd2) = Done s3"
    by (cases "gm_get (sd_configs sd2) ''lamp''") (auto simp: UnregisterDeviceTools_def)
  have d: "dev_id (dc_device lamp_v1) = ''lamp''" "dev_id (dc_device lamp_v2) = ''lamp''" by (simp_all add: lamp_v1_def lamp_v2_def)
  note gone = stale_tool_survives [OF s1 s2 d s3]
  have "gm_get (sd_tools (snd s3)) (''lamp'' @ ''.'' @ cap_name (plain_capability ''on'' zero_implementation)) = None"
    by (rule gone [THEN conjunct1, rule_format]) (simp add: lamp_v2_def)
  moreover have "gm_get (sd_tools (snd s3)) (''lamp'' @ ''.'' @ cap_name (plain_capability ''dim'' zero_implementation)) \<noteq> None"
    by (rule gone [THEN conjunct2, THEN conjunct1, rule_format]) (simp add: lamp_v1_def lamp_v2_def plain_capability_def)
  moreover have "cap_name (plain_capability n i) = n" for n i by (simp add: plain_capability_def)
  ultimately show ?thesis using s1 s2 s3 by (cases s3) auto
qed

end
