(* ===== verification/SidecarRuns.thy ===== *)
theory SidecarRuns
  imports Hooks
begin

text \<open>
  The sidecar as a state machine: tool calls, their goroutines coming back, discovery, health
  ticks, clean-ups, in any order. The first component of a state remembers the job ids given out so
  far; a job id is a reading of the clock, and nothing keeps two calls from reading the same
  nanosecond.
\<close>

section \<open>Job ids\<close>

definition job_name :: "go_time \<Rightarrow> string" where
  "job_name t = ''job_'' @ itoa t"

lemma nat_dec_inj: "nat_dec m = nat_dec n \<Longrightarrow> m = n"
  by (metis digits_val_nat_dec option.inject)

lemma itoa_inj: "itoa i = itoa j \<Longrightarrow> i = j"
proof -
  have minus: "nat_dec n \<noteq> CHR ''-'' # s" for n s
    using nat_dec_head [of n] digit_facts by fastforce
  assume "itoa i = itoa j"
  then show ?thesis
    using minus nat_dec_inj [of "nat i" "nat j"] nat_dec_inj [of "nat (- i)" "nat (- j)"]
    by (auto simp: itoa_def split: if_splits) (metis minus)+
qed

lemma job_name_inj: "job_name s = job_name t \<longleftrightarrow> s = t"
  by (auto simp: job_name_def dest: itoa_inj)

section \<open>Steps\<close>

text \<open>What does not change in a run; \<open>se_announced\<close> are the configurations that gateways may send.\<close>

record side_env =
  se_router :: router
  se_announced :: "device_config \<Rightarrow> bool"
  se_show_float :: "rat \<Rightarrow> string"
  se_float_of :: "string \<Rightarrow> rat option"

text \<open>An accepted call has given out its job id.\<close>

definition issue :: "side_result \<Rightarrow> string \<Rightarrow> string list \<Rightarrow> string list" where
  "issue res jobID ids = (case res of SideJSON _ \<Rightarrow> jobID # ids | _ \<Rightarrow> ids)"

inductive side_step :: "side_env \<Rightarrow> string list \<times> side \<Rightarrow> string list \<times> side \<Rightarrow> bool" for env where
  call: "gm_get (sd_tools (snd s)) name = Some (mt, DeviceTool d c) \<Longrightarrow>
    makeDeviceInvokeHandler (se_show_float env) clk d c args s = Done (res, s') \<Longrightarrow>
    side_step env (ids, s) (issue res (job_name (cc_job clk)) ids, s')"
| land: "f \<in> set (sd_flights (snd s)) \<Longrightarrow>
    land (se_router env) (se_show_float env) (se_float_of env) post now f s = Done s' \<Longrightarrow>
    side_step env (ids, s) (ids, s')"
| tidy: "side_step env (ids, (rt, sd)) (ids, (rt, sd\<lparr>sd_dedup := dedup_cleanup t1 (sd_dedup sd),
    sd_progress := pt_cleanup t2 (sd_progress sd)\<rparr>))"
| discover: "answers_only (se_announced env) http_get \<Longrightarrow>
    discover_entry (se_router env) main_on_discover http_get now entry s = Done s' \<Longrightarrow>
    side_step env (ids, s) (ids, s')"
| health: "health_tick (se_router env) (Some main_status_callback) main_on_remove healthy now s = Done s' \<Longrightarrow>
    side_step env (ids, s) (ids, s')"

inductive side_reach :: "side_env \<Rightarrow> string list \<times> side \<Rightarrow> bool" for env where
  start: "answers_only (se_announced env) http_get \<Longrightarrow> main_sidecar http_get now gcfg = Done s \<Longrightarrow> side_reach env ([], s)"
| step: "side_reach env x \<Longrightarrow> side_step env x y \<Longrightarrow> side_reach env y"

inductive_cases side_stepE [consumes 1, case_names call land tidy discover health]: "side_step env (ids, s) (ids', s')"

section \<open>What the other operations leave alone\<close>

text \<open>Discovery and health ticks do not touch jobs and flights.\<close>

definition same_jobs :: "side \<Rightarrow> side \<Rightarrow> bool" where
  "same_jobs s s' \<longleftrightarrow> sd_progress (snd s') = sd_progress (snd s) \<and> sd_flights (snd s') = sd_flights (snd s)"

text \<open>The hooks keep any given jobs and flights, whatever gateways announce.\<close>

interpretation kept: device_hooks "\<lambda>_. True" "\<lambda>sd. sd_progress sd = p \<and> sd_flights sd = f" for p f
  by unfold_locales (auto dest!: RegisterDeviceTools_Done UnregisterDeviceTools_Done)

lemma discover_same_jobs:
  "discover_entry r main_on_discover http_get now entry s = Done s' \<Longrightarrow> same_jobs s s'"
  using kept.discover_keeps by (auto simp: same_jobs_def answers_only_def)

lemma health_same_jobs:
  "health_tick r (Some main_status_callback) main_on_remove healthy now s = Done s' \<Longrightarrow> same_jobs s s'"
  using kept.health_keeps by (auto simp: same_jobs_def)

section \<open>Invariant: a pending job has a goroutine\<close>

definition flying :: "sidecar \<Rightarrow> string \<Rightarrow> nat" where
  "flying sd k = length (filter (\<lambda>f. fl_job_id f = k) (sd_flights sd))"

definition in_flight :: "sidecar \<Rightarrow> string \<Rightarrow> bool" where
  "in_flight sd k \<longleftrightarrow> (\<exists>f \<in> set (sd_flights sd). fl_job_id f = k)"

definition settled :: "job \<Rightarrow> bool" where
  "settled j \<longleftrightarrow> job_status j = ''completed'' \<and> job_progress j = 100 \<or> job_status j = ''error''"

definition job_ok :: "string list \<Rightarrow> sidecar \<Rightarrow> string \<Rightarrow> job \<Rightarrow> bool" where
  "job_ok ids sd k j \<longleftrightarrow> k \<in> set ids \<and> (if job_status j = ''pending'' then 0 < flying sd k else settled j)
     \<and> (count_list ids k = 1 \<and> 0 < flying sd k \<longrightarrow> job_status j = ''pending'')"

definition jobs_ok :: "string list \<Rightarrow> sidecar \<Rightarrow> bool" where
  "jobs_ok ids sd \<longleftrightarrow> tracker_ok (sd_progress sd) \<and> (\<forall>k. flying sd k \<le> count_list ids k)
     \<and> (\<forall>k j. GetJob k (sd_progress sd) = Some j \<longrightarrow> job_ok ids sd k j)"

lemma jobs_okI:
  "tracker_ok (sd_progress sd) \<Longrightarrow> (\<And>k. flying sd k \<le> count_list ids k) \<Longrightarrow>
   (\<And>k j. GetJob k (sd_progress sd) = Some j \<Longrightarrow> job_ok ids sd k j) \<Longrightarrow> jobs_ok ids sd"
  by (simp add: jobs_ok_def)

lemma jobs_okD:
  assumes "jobs_ok ids sd"
  shows "tracker_ok (sd_progress sd)" and "flying sd k \<le> count_list ids k"
    and "GetJob k (sd_progress sd) = Some j \<Longrightarrow> job_ok ids sd k j"
  using assms by (simp_all add: jobs_ok_def)

lemma in_flight_flying: "in_flight sd k \<longleftrightarrow> 0 < flying sd k"
  by (auto simp: in_flight_def flying_def filter_empty_conv)

lemma settled_not_pending: "settled j \<Longrightarrow> job_status j \<noteq> ''pending''"
  by (auto simp: settled_def)

lemma flying_fields [simp]:
  "flying (sd\<lparr>sd_progress := p\<rparr>) k = flying sd k" "flying (sd\<lparr>sd_dedup := dw\<rparr>) k = flying sd k"
  by (simp_all add: flying_def)

lemma flying_start: "flying (sd\<lparr>sd_flights := sd_flights sd @ [f]\<rparr>) k = flying sd k + (if fl_job_id f = k then 1 else 0)"
  by (simp add: flying_def)

lemma flying_end: "f \<in> set (sd_flights sd) \<Longrightarrow>
   flying (sd\<lparr>sd_flights := remove1 f (sd_flights sd)\<rparr>) k = flying sd k - (if fl_job_id f = k then 1 else 0)"
  by (simp add: flying_def filter_remove1 length_remove1)

lemma job_ok_same: "flying sd' k = flying sd k \<Longrightarrow> job_ok ids sd' k j = job_ok ids sd k j"
  by (simp add: job_ok_def)

lemma jobs_ok_same:
  assumes "same_jobs s s'" and "jobs_ok ids (snd s)"
  shows "jobs_ok ids (snd s')"
proof -
  have fl: "flying (snd s') k = flying (snd s) k" for k using assms(1) by (simp add: same_jobs_def flying_def)
  have p: "sd_progress (snd s') = sd_progress (snd s)" using assms(1) by (simp add: same_jobs_def)
  show ?thesis
    by (rule jobs_okI) (simp_all only: p fl job_ok_same [OF fl] jobs_okD [OF assms(2)])
qed

lemma jobs_ok_new: "jobs_ok ids (NewSidecarServer dw NewProgressTracker)"
  by (rule jobs_okI) (simp_all add: NewSidecarServer_def tracker_ok_new flying_def, simp add: GetJob_def NewProgressTracker_def)

lemma jobs_ok_dedup: "jobs_ok ids (sd\<lparr>sd_dedup := dw\<rparr>) = jobs_ok ids sd"
  by (simp add: jobs_ok_def job_ok_def)

lemma jobs_ok_call:
  assumes ok: "jobs_ok ids sd" and f: "fl_job_id f = i"
  shows "jobs_ok (i # ids) (sd\<lparr>sd_progress := pt_Register c i r d (sd_progress sd), sd_flights := sd_flights sd @ [f]\<rparr>)"
    (is "jobs_ok _ ?sd")
proof (rule jobs_okI)
  show "tracker_ok (sd_progress ?sd)" using jobs_okD(1) [OF ok] by (simp add: tracker_ok_steps)
next
  fix k
  have fl: "flying ?sd k = flying sd k + (if i = k then 1 else 0)"
    using flying_start [of "sd\<lparr>sd_progress := pt_Register c i r d (sd_progress sd)\<rparr>" f k] f by simp
  then show "flying ?sd k \<le> count_list (i # ids) k" using jobs_okD(2) [OF ok, of k] by simp
  fix j assume j: "GetJob k (sd_progress ?sd) = Some j"
  show "job_ok (i # ids) ?sd k j"
  proof (cases "k = i")
    case True
    then show ?thesis using j fl by (auto simp: job_ok_def jobs)
  next
    case False
    then have "job_ok ids sd k j" using j jobs_okD(3) [OF ok] by (simp add: jobs)
    then show ?thesis using False fl by (auto simp: job_ok_def)
  qed
qed

lemma jobs_ok_tidy:
  assumes "jobs_ok ids sd"
  shows "jobs_ok ids (sd\<lparr>sd_dedup := dw, sd_progress := pt_cleanup t2 (sd_progress sd)\<rparr>)"
proof (rule jobs_okI)
  fix k j assume "GetJob k (sd_progress (sd\<lparr>sd_dedup := dw, sd_progress := pt_cleanup t2 (sd_progress sd)\<rparr>)) = Some j"
  then have "GetJob k (sd_progress sd) = Some j"
    using jobs_okD(1) [OF assms] by (simp add: jobs split: option.splits if_splits)
  from jobs_okD(3) [OF assms this] show "job_ok ids (sd\<lparr>sd_dedup := dw, sd_progress := pt_cleanup t2 (sd_progress sd)\<rparr>) k j"
    by (simp add: job_ok_def)
qed (use jobs_okD [OF assms] in \<open>simp_all add: tracker_ok_steps\<close>)

lemma jobs_ok_land:
  assumes ok: "jobs_ok ids sd" and f: "f \<in> set (sd_flights sd)"
    and p: "p = pt_Fail (fl_job_id f) e (sd_progress sd) \<or> p = pt_Complete (fl_job_id f) v (sd_progress sd)"
  shows "jobs_ok ids (sd\<lparr>sd_flights := remove1 f (sd_flights sd), sd_progress := p\<rparr>)" (is "jobs_ok _ ?sd")
proof (rule jobs_okI)
  show "tracker_ok (sd_progress ?sd)" using p jobs_okD(1) [OF ok] by (auto simp: tracker_ok_steps)
next
  fix k
  have fl: "flying ?sd k = flying sd k - (if fl_job_id f = k then 1 else 0)"
    using flying_end [OF f, of k] by (simp add: flying_def)
  then show le: "flying ?sd k \<le> count_list ids k" using jobs_okD(2) [OF ok, of k] by simp
  fix j assume "GetJob k (sd_progress ?sd) = Some j"
  then have j: "GetJob k p = Some j" by simp
  show "job_ok ids ?sd k j"
  proof (cases "k = fl_job_id f")
    case True
    then obtain j0 where "GetJob k (sd_progress sd) = Some j0" using j p by (auto simp: jobs)
    from jobs_okD(3) [OF ok this] have "k \<in> set ids" by (simp add: job_ok_def)
    moreover have "settled j" using True j p by (auto simp: jobs settled_def)
    moreover from this have "job_status j \<noteq> ''pending''" by (rule settled_not_pending)
    moreover have "flying ?sd k \<le> count_list ids k - 1" using True fl jobs_okD(2) [OF ok, of k] by simp
    ultimately show ?thesis unfolding job_ok_def by (intro conjI) auto
  next
    case False
    then have "GetJob k (sd_progress sd) = Some j" using j p by (auto simp: jobs)
    from jobs_okD(3) [OF ok this] show ?thesis using False fl by (auto simp: job_ok_def)
  qed
qed

text \<open>What a call leaves behind: nothing, a dedup entry, or a job with its goroutine.\<close>

lemma call_effect:
  assumes "makeDeviceInvokeHandler sf clk d c args (rt, sd) = Done (res, s')"
  shows "(\<exists>dw. (\<forall>out. res \<noteq> SideJSON out) \<and> snd s' = sd\<lparr>sd_dedup := dw\<rparr>) \<or>
    (\<exists>out dw f. res = SideJSON out \<and> fl_job_id f = job_name (cc_job clk) \<and> snd s' = sd\<lparr>sd_dedup := dw,
       sd_progress := pt_Register (cc_created clk) (job_name (cc_job clk)) (fl_request_id f) d (sd_progress sd),
       sd_flights := sd_flights sd @ [f]\<rparr>)"
proof -
  obtain ok dw where al: "dedup_Allow (cc_dedup clk) (cc_delay clk) (call_key sf d c args) (sd_dedup sd) = (ok, dw)" by fastforce
  let ?f = "\<lparr>fl_device = d, fl_capability = cap_name c, fl_params = args,
     fl_request_id = ''req_'' @ itoa (cc_request clk), fl_job_id = job_name (cc_job clk)\<rparr>"
  have "(\<exists>e. res = SideError e) \<and> (snd s' = sd \<or> snd s' = sd\<lparr>sd_dedup := dw\<rparr>) \<or>
    (\<exists>out. res = SideJSON out) \<and> snd s' = sd\<lparr>sd_dedup := dw,
       sd_progress := pt_Register (cc_created clk) (job_name (cc_job clk)) (fl_request_id ?f) d (sd_progress sd),
       sd_flights := sd_flights sd @ [?f]\<rparr>"
    using assms al by (auto simp: makeDeviceInvokeHandler_def and_then_Done Let_def job_name_def split: if_splits)
  moreover have "sd = sd\<lparr>sd_dedup := sd_dedup sd\<rparr>" by simp
  ultimately show ?thesis by (elim disjE exE conjE) (metis side_result.distinct(1) flight.select_convs(5))+
qed

lemma jobs_ok_handler:
  assumes "makeDeviceInvokeHandler sf clk d c args s = Done (res, s')" and "jobs_ok ids (snd s)"
  shows "jobs_ok (issue res (job_name (cc_job clk)) ids) (snd s')"
proof -
  obtain rt sd where s: "s = (rt, sd)" by (cases s)
  from call_effect [OF assms(1) [unfolded s]] show ?thesis
  proof (elim disjE exE conjE)
    fix dw assume "\<forall>out. res \<noteq> SideJSON out" "snd s' = sd\<lparr>sd_dedup := dw\<rparr>"
    then show ?thesis using assms(2) s by (cases res) (simp_all add: issue_def jobs_ok_dedup)
  next
    fix out dw f assume "res = SideJSON out" "fl_job_id f = job_name (cc_job clk)" "snd s' = sd\<lparr>sd_dedup := dw,
       sd_progress := pt_Register (cc_created clk) (job_name (cc_job clk)) (fl_request_id f) d (sd_progress sd),
       sd_flights := sd_flights sd @ [f]\<rparr>"
    then show ?thesis using jobs_ok_call [of ids "sd\<lparr>sd_dedup := dw\<rparr>" f] assms(2) s
      by (simp add: issue_def jobs_ok_dedup)
  qed
qed

lemma land_effect:
  assumes "land r sf ff post now f s = Done s'"
  shows "\<exists>p. snd s' = (snd s)\<lparr>sd_flights := remove1 f (sd_flights (snd s)), sd_progress := p\<rparr>
    \<and> ((\<exists>e. p = pt_Fail (fl_job_id f) e (sd_progress (snd s))) \<or> (\<exists>v. p = pt_Complete (fl_job_id f) v (sd_progress (snd s))))"
proof -
  obtain res rt where "ForwardInvoke r sf ff post now f (fst s) = Done (res, rt)"
    using assms by (auto simp: land_def and_then_Done)
  then show ?thesis using assms by (cases res) (auto simp: land_def Let_def)
qed

lemma jobs_ok_landing:
  assumes "land r sf ff post now f s = Done s'" and "f \<in> set (sd_flights (snd s))" and "jobs_ok ids (snd s)"
  shows "jobs_ok ids (snd s')"
  using land_effect [OF assms(1)]
  by (auto simp: jobs_ok_land [OF assms(3,2) disjI1 [OF refl]] jobs_ok_land [OF assms(3,2) disjI2 [OF refl]])

lemma jobs_ok_step:
  assumes "side_step env (ids, s) (ids', s')" and ok: "jobs_ok ids (snd s)"
  shows "jobs_ok ids' (snd s')"
  using assms(1)
proof (cases rule: side_stepE)
  case (call name mt d c clk args res)
  then show ?thesis using jobs_ok_handler [OF _ ok] by blast
next
  case (land f post now)
  then show ?thesis using jobs_ok_landing [OF _ _ ok] by blast
next
  case (tidy rt sd t1 t2)
  then show ?thesis using ok jobs_ok_tidy by simp
next
  case (discover http_get now entry)
  then show ?thesis using jobs_ok_same [OF discover_same_jobs ok] by blast
next
  case (health healthy now)
  then show ?thesis using jobs_ok_same [OF health_same_jobs ok] by blast
qed

lemma main_same_jobs:
  "main_sidecar http_get now gcfg = Done s \<Longrightarrow>
   same_jobs (NewRouteTable, NewSidecarServer (NewDedupWindowWithTTL (sc_dedup_ttl (gc_sidecar gcfg))) NewProgressTracker) s"
  using kept.main_keeps by (auto simp: same_jobs_def answers_only_def)

lemma reachable_jobs_ok: "side_reach env x \<Longrightarrow> jobs_ok (fst x) (snd (snd x))"
proof (induction rule: side_reach.induct)
  case (start http_get now gcfg s)
  then show ?case using jobs_ok_same [OF main_same_jobs] jobs_ok_new by fastforce
next
  case (step x y)
  then show ?case using jobs_ok_step by (metis prod.collapse)
qed

text \<open>A settled job stays as it is until it is forgotten, unless its id is given out again.\<close>

definition forgets :: "side \<Rightarrow> side \<Rightarrow> job \<Rightarrow> bool" where
  "forgets s s' j \<longleftrightarrow> (\<exists>t1 t2. s' = (fst s, (snd s)\<lparr>sd_dedup := dedup_cleanup t1 (sd_dedup (snd s)),
     sd_progress := pt_cleanup t2 (sd_progress (snd s))\<rparr>) \<and> job_created_at j + jobTTL < t2)"

lemma job_kept:
  assumes "side_step env (ids, s) (ids', s')" and ok: "jobs_ok ids (snd s)"
    and j: "GetJob k (sd_progress (snd s)) = Some j" and "job_status j \<noteq> ''pending''" and "count_list ids' k = 1"
  shows "GetJob k (sd_progress (snd s')) = Some j \<or> GetJob k (sd_progress (snd s')) = None \<and> forgets s s' j"
  using assms(1)
proof (cases rule: side_stepE)
  case (call name mt d c clk args res)
  have "count_list ids k \<noteq> 0" using jobs_okD(3) [OF ok j] by (simp add: job_ok_def count_list_0_iff)
  then have "k \<noteq> job_name (cc_job clk)" if "res = SideJSON out" for out
    using assms(5) call(1) that by (auto simp: issue_def)
  moreover obtain rt sd where "s = (rt, sd)" by (cases s)
  ultimately show ?thesis using call_effect call(3) j by (fastforce simp: jobs)
next
  case (land f post now)
  have "count_list ids k = 1" using assms(5) land(1) by simp
  then have "k \<noteq> fl_job_id f"
    using jobs_okD(3) [OF ok j] assms(4) in_flight_flying [of "snd s" k] land(2) by (auto simp: job_ok_def in_flight_def)
  then show ?thesis using land_effect [OF land(3)] j by (auto simp: jobs)
next
  case (tidy rt sd t2 t1)
  then have "s' = (fst s, (snd s)\<lparr>sd_dedup := dedup_cleanup t1 (sd_dedup (snd s)), sd_progress := pt_cleanup t2 (sd_progress (snd s))\<rparr>)" by simp
  then have "job_created_at j + jobTTL < t2 \<longrightarrow> forgets s s' j" unfolding forgets_def by blast
  then show ?thesis using j tidy jobs_okD(1) [OF ok] by (auto simp: jobs split: option.splits)
next
  case (discover http_get now entry)
  then show ?thesis using j discover_same_jobs [OF discover(3)] by (simp add: same_jobs_def)
next
  case (health healthy now)
  then show ?thesis using j health_same_jobs [OF health(2)] by (simp add: same_jobs_def)
qed

text \<open>C2: the job of an accepted call tells the truth, in every reachable state of the sidecar and
  whatever the clocks read: while it is pending a goroutine runs for its id, and when it is not it
  is completed with progress 100 or in error. If only one call has been given its id, it is pending
  for as long as that goroutine runs; and once it has a result, a step after which still only one
  call has its id leaves it unchanged, unless the step is the clean-up and the job is older than
  ten minutes, which forgets it. (Job ids are clock readings; nothing else makes them unique, see
  \<open>same_nanosecond_overwrites\<close>.)\<close>

theorem job_lifecycle:
  assumes "side_reach env (ids, s)" and "GetJob k (sd_progress (snd s)) = Some j"
  shows "(if job_status j = ''pending'' then in_flight (snd s) k else settled j)
    \<and> (count_list ids k = 1 \<longrightarrow> in_flight (snd s) k \<longrightarrow> job_status j = ''pending'')
    \<and> (\<forall>ids' s'. job_status j \<noteq> ''pending'' \<longrightarrow> side_step env (ids, s) (ids', s') \<longrightarrow> count_list ids' k = 1 \<longrightarrow>
         GetJob k (sd_progress (snd s')) = Some j \<or> GetJob k (sd_progress (snd s')) = None \<and> forgets s s' j)"
proof -
  have ok: "jobs_ok ids (snd s)" using reachable_jobs_ok [OF assms(1)] by simp
  show ?thesis using job_kept [OF _ ok assms(2)] jobs_okD(3) [OF ok assms(2)]
    unfolding job_ok_def in_flight_flying by blast
qed

section \<open>A call and its answer\<close>

text \<open>A sidecar that knows one device, called once; then the answer.\<close>

definition lamp_config :: device_config where
  "lamp_config = \<lparr>dc_device = \<lparr>dev_id = ''lamp'', dev_name = [], dev_type = ''direct'', dev_capabilities = []\<rparr>,
     dc_capabilities = [plain_capability ''on'' zero_implementation]\<rparr>"

definition lamp_entry :: mdns_entry where
  "lamp_entry = \<lparr>me_name = ''gw_1._devagent._tcp.local.'', me_addr_v4 = Some ''10.0.0.2'', me_port = 8080, me_info = []\<rparr>"

definition lamp_env :: side_env where
  "lamp_env = \<lparr>se_router = NewRouter [] 0 None, se_announced = \<lambda>_. True, se_show_float = \<lambda>_. [], se_float_of = \<lambda>_. None\<rparr>"

definition lamp_clock :: call_clock where
  "lamp_clock = \<lparr>cc_dedup = 5, cc_delay = 1, cc_job = 7, cc_request = 8, cc_created = 9\<rparr>"

lemma lamp_boots: "main_sidecar (\<lambda>_ _. Inr []) 0 DefaultGlobalConfig
    = Done (NewRouteTable, NewSidecarServer NewDedupWindow NewProgressTracker)"
  by (simp add: main_sidecar_def main_static_gateways_def Let_def DefaultGlobalConfig_def NewDedupWindow_def)

lemma lamp_discovers:
  "\<exists>s. discover_entry (se_router lamp_env) main_on_discover (\<lambda>_ _. Inr [lamp_config]) 0 lamp_entry
     (NewRouteTable, NewSidecarServer NewDedupWindow NewProgressTracker) = Done s
   \<and> rt_mu (fst s) = Free \<and> (\<forall>row \<in> set (AllDevices_body (fst s)). dr_status row = GatewayOnline)
   \<and> (\<exists>mt. gm_get (sd_tools (snd s)) ''lamp.on'' = Some (mt, DeviceTool ''lamp'' (plain_capability ''on'' zero_implementation)))
   \<and> sd_dedup (snd s) = NewDedupWindow"
proof -
  have c: "contains_str service_suffix ''gw_1._devagent._tcp.local.''"
    "takeWhile (\<lambda>c. c \<noteq> CHR ''.'') ''gw_1._devagent._tcp.local.'' = ''gw_1''"
    by code_simp+
  let ?g = "\<lparr>gw_id = ''gw_1'', gw_url = ''http://10.0.0.2:'' @ itoa 8080, gw_devices = [], gw_last_heartbeat = 0, gw_status = ''online''\<rparr>"
  let ?rt = "Register_body 0 ?g NewRouteTable"
  have rt: "rt_mu ?rt = Free" "rt_mu NewRouteTable = Free" "AllDevices_body ?rt = []"
    by (simp_all add: NewRouteTable_def Register_body_def AllDevices_body_def gm_put_def)
  have add: "rt_mu (AddDevice_body 0 ''gw_1'' ''lamp'' ?rt) = Free"
    "\<forall>row \<in> set (AllDevices_body (AddDevice_body 0 ''gw_1'' ''lamp'' ?rt)). dr_status row = GatewayOnline"
    using rt(1) by (simp_all add: AddDevice_body_def Register_body_def NewRouteTable_def AllDevices_body_def Let_def gm_put_def gm_get_def)
  have u: "unix 0 = 0" by (simp add: unix_def)
  have nm: "tool_name (CompileTool ''lamp'' (plain_capability ''on'' zero_implementation) m) = ''lamp.on''" for m
    by (simp add: CompileTool_def plain_capability_def)
  have "discover_entry (se_router lamp_env) main_on_discover (\<lambda>_ _. Inr [lamp_config]) 0 lamp_entry
     (NewRouteTable, NewSidecarServer NewDedupWindow NewProgressTracker)
     = Done (AddDevice_body 0 ''gw_1'' ''lamp'' ?rt, compile_all lamp_config False
         ((NewSidecarServer NewDedupWindow NewProgressTracker)\<lparr>sd_configs := [(''lamp'', lamp_config)]\<rparr>))"
    using c rt by (simp add: discover_entry_def Let_def lift_rt_def lockfree fetchAndRegisterDevices_def main_on_discover_def
        RegisterDeviceTools_def getGatewayStatus_def lamp_config_def gm_put_def NewSidecarServer_def gateway_states lamp_entry_def u
        del: contains_str.simps takeWhile.simps)
  moreover have "gm_get (sd_tools (compile_all lamp_config False sd)) ''lamp.on''
      = Some (CompileTool ''lamp'' (plain_capability ''on'' zero_implementation) False, DeviceTool ''lamp''
          (plain_capability ''on'' zero_implementation))
    \<and> sd_dedup (compile_all lamp_config False sd) = sd_dedup sd" for sd
    by (simp add: compile_all_def lamp_config_def Let_def nm)
  ultimately show ?thesis using add
    by (intro exI [of _ "(AddDevice_body 0 ''gw_1'' ''lamp'' ?rt, compile_all lamp_config False
         ((NewSidecarServer NewDedupWindow NewProgressTracker)\<lparr>sd_configs := [(''lamp'', lamp_config)]\<rparr>))"])
      (simp add: NewSidecarServer_def)
qed

theorem job_lifecycle_witness:
  "\<exists>s j. side_reach lamp_env ([''job_7''], s) \<and> GetJob ''job_7'' (sd_progress (snd s)) = Some j
     \<and> job_status j = ''pending'' \<and> in_flight (snd s) ''job_7''"
proof -
  obtain s0 mt where d: "discover_entry (se_router lamp_env) main_on_discover (\<lambda>_ _. Inr [lamp_config]) 0 lamp_entry
     (NewRouteTable, NewSidecarServer NewDedupWindow NewProgressTracker) = Done s0"
    and free: "rt_mu (fst s0) = Free" and on: "\<forall>row \<in> set (AllDevices_body (fst s0)). dr_status row = GatewayOnline"
    and mt: "gm_get (sd_tools (snd s0)) ''lamp.on'' = Some (mt, DeviceTool ''lamp'' (plain_capability ''on'' zero_implementation))"
    and dw: "sd_dedup (snd s0) = NewDedupWindow" using lamp_discovers by blast
  have "side_reach lamp_env ([], (NewRouteTable, NewSidecarServer NewDedupWindow NewProgressTracker))"
    by (rule side_reach.start [OF _ lamp_boots]) (simp add: answers_only_def)
  then have r0: "side_reach lamp_env ([], s0)" by (rule side_reach.step) (rule side_step.discover [OF _ d], simp add: answers_only_def lamp_env_def)
  obtain rt sd where s0: "s0 = (rt, sd)" by (cases s0)
  have st: "getGatewayStatus ''lamp'' rt = Done (GatewayOnline, rt)"
    using free on s0 by (auto simp: getGatewayStatus_def AllDevices_free dest: find_SomeD split: option.split)
  have jn: "''job_'' @ itoa 7 = ''job_7''" by code_simp
  obtain dw where "dedup_Allow 5 1 (call_key (se_show_float lamp_env) ''lamp'' (plain_capability ''on'' zero_implementation) GNil)
      NewDedupWindow = (True, dw)"
    by (simp add: dedup_Allow_def NewDedupWindow_def NewDedupWindowWithTTL_def)
  then obtain out s1 where "makeDeviceInvokeHandler (se_show_float lamp_env) lamp_clock ''lamp''
      (plain_capability ''on'' zero_implementation) GNil s0 = Done (SideJSON out, s1)"
    and j: "GetJob ''job_7'' (sd_progress (snd s1)) \<noteq> None"
    using st s0 dw jn by (auto simp: makeDeviceInvokeHandler_def Let_def gateway_states lamp_clock_def jobs)
  then have "side_step lamp_env ([], s0) ([''job_7''], s1)"
    using side_step.call [OF mt, of lamp_env lamp_clock GNil "SideJSON out" s1 "[]"] jn by (simp add: lamp_clock_def issue_def job_name_def)
  with r0 have reach: "side_reach lamp_env ([''job_7''], s1)" by (rule side_reach.step)
  from j obtain job where job: "GetJob ''job_7'' (sd_progress (snd s1)) = Some job" by blast
  moreover have "job_status job = ''pending''"
    using job \<open>makeDeviceInvokeHandler _ _ _ _ _ _ = _\<close> jn s0
    by (auto simp: makeDeviceInvokeHandler_def and_then_Done Let_def lamp_clock_def jobs split: if_splits prod.splits)
  ultimately have "in_flight (snd s1) ''job_7''" using job_lifecycle [OF reach job] by simp
  then show ?thesis using reach job \<open>job_status job = ''pending''\<close> by blast
qed

end
