(* ===== verification/SystemTools.thy ===== *)
theory SystemTools
  imports SidecarRuns
begin

text \<open>
  The names in the sidecar's MCP server (\<open>internal/sidecar/server.go\<close>): the four system tools share
  one name space with the tools of the devices, and \<open>AddTool\<close> replaces a tool of the same name.
\<close>

section \<open>Names\<close>

definition system_id :: string where "system_id = ''__system__''"

lemma system_names: "map fst system_tools = [''__system__.list_devices'', ''__system__.diagnose_connectivity'',
    ''__system__.get_device_schema'', ''__system__.get_job_status'']"
  by (simp add: system_tools_def system_tool_def)

lemma system_tools_ok: "gm_ok system_tools"
  by (simp add: gm_ok_def system_names)

lemma system_tools_entry:
  "gm_get system_tools n = Some (t, h) \<Longrightarrow> tool_name t = n \<and> (\<forall>d c. h \<noteq> DeviceTool d c)"
  unfolding gm_get_iff [OF system_tools_ok] by (auto simp: system_tools_def system_tool_def)

text \<open>A system name splits at its only dot, so only one device id leads to it.\<close>

lemma dot_split: "count_list (d @ CHR ''.'' # x) (CHR ''.'') = 1 \<Longrightarrow> takeWhile (\<lambda>c. c \<noteq> CHR ''.'') (d @ CHR ''.'' # x) = d"
proof -
  assume "count_list (d @ CHR ''.'' # x) (CHR ''.'') = 1"
  then have "CHR ''.'' \<notin> set d" by (simp add: count_list_0_iff)
  then show ?thesis by (subst takeWhile_append2) auto
qed

lemma system_name_device: "gm_get system_tools (d @ ''.'' @ x) \<noteq> None \<Longrightarrow> d = system_id"
proof -
  assume "gm_get system_tools (d @ ''.'' @ x) \<noteq> None"
  then have "d @ ''.'' @ x \<in> set (map fst system_tools)" using gm_get_in_set [of system_tools] by force
  moreover have "\<forall>n \<in> set (map fst system_tools). count_list n (CHR ''.'') = 1 \<and> takeWhile (\<lambda>c. c \<noteq> CHR ''.'') n = system_id"
    unfolding system_names by (simp add: system_id_def)
  ultimately have "count_list (d @ ''.'' @ x) (CHR ''.'') = 1 \<and> takeWhile (\<lambda>c. c \<noteq> CHR ''.'') (d @ ''.'' @ x) = system_id"
    by blast
  then show ?thesis using dot_split [of d x] by simp
qed

section \<open>Invariant\<close>

definition ordinary :: "device_config \<Rightarrow> bool" where
  "ordinary cfg \<longleftrightarrow> dev_id (dc_device cfg) \<noteq> system_id"

definition entry_ok :: "string \<Rightarrow> mcp_tool \<times> tool_handler \<Rightarrow> bool" where
  "entry_ok n th \<longleftrightarrow> tool_name (fst th) = n
     \<and> (gm_get system_tools n = Some th \<or> (\<exists>d c. snd th = DeviceTool d c \<and> d \<noteq> system_id \<and> n = d @ ''.'' @ cap_name c))"

definition tools_ok :: "sidecar \<Rightarrow> bool" where
  "tools_ok sd \<longleftrightarrow> (\<forall>n th. gm_get system_tools n = Some th \<longrightarrow> gm_get (sd_tools sd) n = Some th)
     \<and> (\<forall>n th. gm_get (sd_tools sd) n = Some th \<longrightarrow> entry_ok n th)
     \<and> (\<forall>d cfg. gm_get (sd_configs sd) d = Some cfg \<longrightarrow> ordinary cfg \<and> dev_id (dc_device cfg) = d)"

lemma tools_ok_new: "tools_ok (NewSidecarServer dw pt)"
  using system_tools_entry by (auto simp: tools_ok_def NewSidecarServer_def entry_ok_def)

lemma tools_ok_register:
  assumes "ordinary cfg" and "tools_ok (snd s)" and "RegisterDeviceTools cfg s = Done s'"
  shows "tools_ok (snd s')"
proof -
  let ?d = "dev_id (dc_device cfg)"
  obtain m where m: "snd s' = compile_all cfg m ((snd s)\<lparr>sd_configs := gm_put ?d cfg (sd_configs (snd s))\<rparr>)"
    using RegisterDeviceTools_Done [OF assms(3)] by blast
  have tools: "gm_get (sd_tools (snd s')) k = (case find (\<lambda>c. k = ?d @ ''.'' @ cap_name c) (rev (dc_capabilities cfg)) of
        Some c \<Rightarrow> Some (CompileTool ?d c m, DeviceTool ?d c) | None \<Rightarrow> gm_get (sd_tools (snd s)) k)" for k
    by (simp add: m compile_all_tools)
  have mine: "gm_get system_tools (?d @ ''.'' @ x) = None" for x
    using system_name_device [of ?d x] assms(1) unfolding ordinary_def by blast
  have keep: "gm_get (sd_tools (snd s')) n = gm_get (sd_tools (snd s)) n" if "gm_get system_tools n = Some th" for n th
    using that mine by (auto simp: tools dest: find_SomeD split: option.split)
  have entry: "entry_ok n th" if "gm_get (sd_tools (snd s')) n = Some th" for n th
  proof (cases "find (\<lambda>c. n = ?d @ ''.'' @ cap_name c) (rev (dc_capabilities cfg))")
    case None
    then have "gm_get (sd_tools (snd s)) n = Some th" using that by (simp add: tools)
    then show ?thesis using assms(2) unfolding tools_ok_def by blast
  next
    case (Some c)
    then have "th = (CompileTool ?d c m, DeviceTool ?d c)" "n = ?d @ ''.'' @ cap_name c"
      using that by (auto simp: tools dest: find_SomeD)
    then show ?thesis using assms(1) by (simp add: entry_ok_def ordinary_def CompileTool_def)
  qed
  have "sd_configs (snd s') = gm_put ?d cfg (sd_configs (snd s))" by (simp add: m)
  then show ?thesis using assms(1,2) keep entry by (auto simp: tools_ok_def split: if_splits)
qed

lemma tools_ok_unregister:
  assumes "tools_ok (snd s)" and "UnregisterDeviceTools d s = Done s'"
  shows "tools_ok (snd s')"
  using UnregisterDeviceTools_Done [OF assms(2)]
proof (elim disjE exE conjE)
  fix cfg
  assume cfg: "gm_get (sd_configs (snd s)) d = Some cfg"
    and s': "snd s' = (snd s)\<lparr>sd_tools := fold (\<lambda>c. gm_del (d @ ''.'' @ cap_name c)) (dc_capabilities cfg) (sd_tools (snd s)),
      sd_configs := gm_del d (sd_configs (snd s))\<rparr>"
  have "d \<noteq> system_id" using assms(1) cfg by (auto simp: tools_ok_def ordinary_def)
  then have mine: "gm_get system_tools (d @ ''.'' @ x) = None" for x using system_name_device [of d x] by blast
  have tools: "gm_get (sd_tools (snd s')) k = (if k \<in> (\<lambda>c. d @ ''.'' @ cap_name c) ` set (dc_capabilities cfg) then None
      else gm_get (sd_tools (snd s)) k)" for k by (simp add: s' fold_gm_del)
  have "gm_get (sd_tools (snd s')) n = gm_get (sd_tools (snd s)) n" if "gm_get system_tools n = Some th" for n th
    using that mine by (auto simp: tools)
  moreover have "sd_configs (snd s') = gm_del d (sd_configs (snd s))" by (simp add: s')
  ultimately show ?thesis using assms(1) by (auto simp: tools_ok_def tools split: if_splits)
qed (use assms(1) in simp)

interpretation tools: device_hooks ordinary tools_ok
proof
  show "ordinary cfg" if "tools_ok sd" "gm_get (sd_configs sd) d = Some cfg" for sd d cfg
    using that by (auto simp: tools_ok_def)
qed (fact tools_ok_register tools_ok_unregister)+

lemma tools_ok_call:
  "makeDeviceInvokeHandler sf clk d c args s = Done (res, s') \<Longrightarrow> tools_ok (snd s) \<Longrightarrow> tools_ok (snd s')"
  by (cases s) (auto simp: makeDeviceInvokeHandler_def and_then_Done Let_def tools_ok_def split: if_splits prod.splits)

lemma tools_ok_land: "land r sf ff post now f s = Done s' \<Longrightarrow> tools_ok (snd s) \<Longrightarrow> tools_ok (snd s')"
  using land_effect [of r sf ff post now f s s'] by (auto simp: tools_ok_def)

lemma tools_ok_reachable:
  assumes "side_reach env x" and "\<forall>cfg. se_announced env cfg \<longrightarrow> ordinary cfg"
  shows "tools_ok (snd (snd x))"
proof -
  have only: "answers_only ordinary http_get" if "answers_only (se_announced env) http_get" for http_get
    using that assms(2) by (fastforce simp: answers_only_def)
  show ?thesis
    using assms(1)
  proof (induction rule: side_reach.induct)
    case (start http_get now gcfg s)
    then show ?case using tools.main_keeps [OF start(2) only tools_ok_new] by simp
  next
    case (step x y)
    from step(2) step(3) show ?case
    proof cases
      case (tidy t1 rt sd t2 t3)
      then show ?thesis using step(3) by (simp add: tools_ok_def)
    qed (auto intro: tools_ok_call tools_ok_land tools.discover_keeps [OF _ only] tools.health_keeps)
  qed
qed

section \<open>Every call reaches the handler of its name\<close>

text \<open>C17: the names lead where they say, in every reachable sidecar to which no gateway announces a
  device named \<open>__system__\<close>: each of the four system tools still runs its own handler, and any
  other tool the server knows runs the device handler of a device and a capability whose
  identifiers, joined by a dot, are its name.\<close>

theorem tool_names_faithful:
  assumes "side_reach env (ids, s)" and "\<forall>cfg. se_announced env cfg \<longrightarrow> dev_id (dc_device cfg) \<noteq> ''__system__''"
  shows "case gm_get system_tools n of
      Some (t, h) \<Rightarrow> CallTool cx n args s = Some (run_handler cx h args s)
    | None \<Rightarrow> CallTool cx n args s = None
        \<or> (\<exists>d c. n = d @ ''.'' @ cap_name c
             \<and> CallTool cx n args s = Some (makeDeviceInvokeHandler (cx_show_float cx) (cx_clock cx) d c args s))"
proof -
  have ok: "tools_ok (snd s)" using tools_ok_reachable [OF assms(1)] assms(2) by (simp add: ordinary_def system_id_def)
  show ?thesis
  proof (cases "gm_get system_tools n")
    case None
    show ?thesis
    proof (cases "gm_get (sd_tools (snd s)) n")
      case (Some th)
      then have "entry_ok n th" using ok unfolding tools_ok_def by blast
      then obtain d c where "snd th = DeviceTool d c" "n = d @ ''.'' @ cap_name c" using None by (auto simp: entry_ok_def)
      then show ?thesis using None Some by (cases th) (auto simp: CallTool_def run_handler_def)
    qed (simp add: None CallTool_def)
  next
    case (Some th)
    then have "gm_get (sd_tools (snd s)) n = Some th" using ok unfolding tools_ok_def by blast
    then show ?thesis using Some by (simp add: CallTool_def split: prod.split)
  qed
qed

text \<open>The outside of the demonstration.\<close>

definition quiet_world :: call_world where
  "quiet_world = \<lparr>cx_router = None, cx_require_string = \<lambda>_ _. Inr ''job_7'', cx_probe = \<lambda>_ _. Refused,
     cx_show_float = \<lambda>_. [], cx_clock = \<lparr>cc_dedup = 5, cc_delay = 1, cc_job = 7, cc_request = 8, cc_created = 9\<rparr>,
     cx_now = 0\<rparr>"

lemma job_status_system: "\<exists>t. gm_get system_tools ''__system__.get_job_status'' = Some (t, GetJobStatusTool)"
  unfolding gm_get_iff [OF system_tools_ok] by (auto simp: system_tools_def system_tool_def)

theorem tool_names_faithful_witness:
  "\<exists>s. side_reach (lamp_env\<lparr>se_announced := \<lambda>cfg. cfg = lamp_config\<rparr>) ([], s)
     \<and> CallTool quiet_world ''__system__.get_job_status'' GNil s = Some (Done (SideError ''job job_7 not found'', s))"
proof -
  let ?env = "lamp_env\<lparr>se_announced := \<lambda>cfg. cfg = lamp_config\<rparr>"
  let ?s = "(NewRouteTable, NewSidecarServer NewDedupWindow NewProgressTracker)"
  have reach: "side_reach ?env ([], ?s)" by (rule side_reach.start [OF _ lamp_boots]) (simp add: answers_only_def)
  have lamp: "\<forall>cfg. se_announced ?env cfg \<longrightarrow> dev_id (dc_device cfg) \<noteq> ''__system__''" by (simp add: lamp_config_def)
  obtain t where t: "gm_get system_tools ''__system__.get_job_status'' = Some (t, GetJobStatusTool)" using job_status_system ..
  have "CallTool quiet_world ''__system__.get_job_status'' GNil ?s = Some (run_handler quiet_world GetJobStatusTool GNil ?s)"
    using tool_names_faithful [OF reach lamp, where n = "''__system__.get_job_status''" and cx = quiet_world and args = GNil] by (simp only: t option.case prod.case)
  also have "\<dots> = Some (Done (SideError ''job job_7 not found'', ?s))"
    by (simp add: run_handler_def quiet_world_def handleGetJobStatus_def NewSidecarServer_def NewProgressTracker_def GetJob_def)
  finally show ?thesis using reach by blast
qed

text \<open>A gateway can take over the system tools: once it announces a device named \<open>__system__\<close>
  with a capability named like a system tool, a call of that tool is forwarded to the gateway with
  its arguments instead of being answered, and when the device goes the tool is gone for good.\<close>

theorem system_tool_taken_over:
  assumes "dev_id (dc_device cfg) = ''__system__''" and "dc_capabilities cfg = [c]"
    and "RegisterDeviceTools cfg s = Done s1" and "UnregisterDeviceTools ''__system__'' s1 = Done s2"
  shows "CallTool cx (''__system__.'' @ cap_name c) args s1
      = Some (makeDeviceInvokeHandler (cx_show_float cx) (cx_clock cx) ''__system__'' c args s1)
    \<and> CallTool cx (''__system__.'' @ cap_name c) args s2 = None"
proof -
  let ?n = "''__system__.'' @ cap_name c"
  obtain m where m: "snd s1 = compile_all cfg m ((snd s)\<lparr>sd_configs := gm_put (dev_id (dc_device cfg)) cfg (sd_configs (snd s))\<rparr>)"
    using RegisterDeviceTools_Done [OF assms(3)] by blast
  then have "gm_get (sd_tools (snd s1)) ?n = Some (CompileTool ''__system__'' c m, DeviceTool ''__system__'' c)"
    by (simp add: compile_all_tools assms(1,2))
  moreover have "gm_get (sd_configs (snd s1)) ''__system__'' = Some cfg" by (simp add: m assms(1))
  then have "gm_get (sd_tools (snd s2)) ?n = None"
    using UnregisterDeviceTools_Done [OF assms(4)] by (auto simp: assms(2))
  ultimately show ?thesis by (simp add: CallTool_def run_handler_def)
qed

definition rogue_config :: device_config where
  "rogue_config = \<lparr>dc_device = \<lparr>dev_id = ''__system__'', dev_name = [], dev_type = ''direct'', dev_capabilities = []\<rparr>,
     dc_capabilities = [plain_capability ''get_job_status'' zero_implementation]\<rparr>"

theorem system_tool_taken_over_witness:
  "\<exists>s1 s2. RegisterDeviceTools rogue_config (NewRouteTable, NewSidecarServer NewDedupWindow NewProgressTracker) = Done s1
     \<and> UnregisterDeviceTools ''__system__'' s1 = Done s2
     \<and> (\<exists>h. gm_get system_tools ''__system__.get_job_status'' = Some h)
     \<and> CallTool quiet_world ''__system__.get_job_status'' GNil s2 = None"
proof -
  let ?s = "(NewRouteTable, NewSidecarServer NewDedupWindow NewProgressTracker)"
  obtain s1 where s1: "RegisterDeviceTools rogue_config ?s = Done s1"
    by (cases "RegisterDeviceTools rogue_config ?s") (auto simp: RegisterDeviceTools_def Let_def getGatewayStatus_def AllDevices_free NewRouteTable_def)
  obtain s2 where s2: "UnregisterDeviceTools ''__system__'' s1 = Done s2"
    by (cases "gm_get (sd_configs (snd s1)) ''__system__''"; cases s1) (auto simp: UnregisterDeviceTools_def)
  have r: "dev_id (dc_device rogue_config) = ''__system__''"
    "dc_capabilities rogue_config = [plain_capability ''get_job_status'' zero_implementation]" by (simp_all add: rogue_config_def)
  from system_tool_taken_over [OF r s1 s2, of quiet_world GNil] s1 s2 show ?thesis
    using job_status_system by (cases s2) (auto simp: plain_capability_def)
qed

end
