(* ===== verification/Discovery.thy ===== *)
theory Discovery
  imports SidecarCalls Wiring
begin

text \<open>
  What discovery and the health check of \<open>internal/sidecar/router.go\<close> achieve with the hooks
  of \<open>main.go\<close>: a discovered device can be called, and a gateway that answers stays online.
\<close>

section \<open>A discovered device can be called\<close>

abbreviation has_tool :: "sidecar \<Rightarrow> string \<Rightarrow> capability \<Rightarrow> bool" where
  "has_tool sd d c \<equiv> gm_get (sd_tools sd) (d @ ''.'' @ cap_name c) \<noteq> None"

lemma register_completes:
  assumes "rt_mu rt = Free"
  shows "\<exists>sd'. RegisterDeviceTools cfg (rt, sd) = Done (rt, sd')
    \<and> (\<forall>c \<in> set (dc_capabilities cfg). has_tool sd' (dev_id (dc_device cfg)) c)
    \<and> (\<forall>k. gm_get (sd_tools sd) k \<noteq> None \<longrightarrow> gm_get (sd_tools sd') k \<noteq> None)"
proof -
  obtain st where "getGatewayStatus (dev_id (dc_device cfg)) rt = Done (st, rt)" using getGatewayStatus_free [OF assms] by blast
  then obtain sd' where r: "RegisterDeviceTools cfg (rt, sd) = Done (rt, sd')" by (simp add: RegisterDeviceTools_def Let_def)
  then obtain m where t: "sd_tools sd' = sd_tools (compile_all cfg m sd)" using RegisterDeviceTools_cases by fastforce
  have "has_tool sd' (dev_id (dc_device cfg)) c" if "c \<in> set (dc_capabilities cfg)" for c
    using that by (auto simp: t compile_all_tools find_None_iff split: option.split)
  moreover have "gm_get (sd_tools sd) k \<noteq> None \<longrightarrow> gm_get (sd_tools sd') k \<noteq> None" for k
    by (simp add: t compile_all_tools split: option.split)
  ultimately show ?thesis using r by blast
qed

text \<open>What a gateway's announcements make of a device's route: a device that the gateway did not list
  before is routed to it, and one that it listed keeps the route it has, whatever that is.\<close>

definition rerouted :: "string \<Rightarrow> route_table \<Rightarrow> route_table \<Rightarrow> bool" where
  "rerouted g rt rt' \<longleftrightarrow> (\<forall>d. (listed rt g d \<longrightarrow> listed rt' g d)
     \<and> route rt' d = (if listed rt' g d \<and> \<not> listed rt g d then Some g else route rt d))"

lemma rerouted_AddDevice: "rerouted g (AddDevice_body now g d rt) rt' \<Longrightarrow> rerouted g rt rt' \<and> listed rt' g d"
  unfolding rerouted_def by (auto simp: table_effects)

lemma rerouted_Register:
  "gateways_ok rt \<Longrightarrow> gw_id gw = g \<Longrightarrow> gw_devices gw = [] \<Longrightarrow> rerouted g (Register_body now gw rt) rt' = rerouted g rt rt'"
  by (simp add: rerouted_def table_effects)

text \<open>The loop over the configurations a gateway sent.\<close>

lemma fetch_loop:
  assumes "rt_mu rt = Free" and "url_of rt g = Some u"
  shows "\<exists>rt' sd'. each (\<lambda>cfg s. and_then (RegisterDeviceTools cfg s) (\<lambda>s.
        and_then (lift_rt (AddDevice now g (dev_id (dc_device cfg))) s) (\<lambda>(_, s). Done s))) cfgs (rt, sd) = Done (rt', sd')
    \<and> rt_mu rt' = Free \<and> url_of rt' g = Some u \<and> rerouted g rt rt'
    \<and> (\<forall>k. gm_get (sd_tools sd) k \<noteq> None \<longrightarrow> gm_get (sd_tools sd') k \<noteq> None)
    \<and> (\<forall>cfg \<in> set cfgs. listed rt' g (dev_id (dc_device cfg))
        \<and> (\<forall>c \<in> set (dc_capabilities cfg). has_tool sd' (dev_id (dc_device cfg)) c))"
  using assms
proof (induction cfgs arbitrary: rt sd)
  case Nil
  then show ?case by (simp add: rerouted_def)
next
  case (Cons cfg cfgs)
  let ?d = "dev_id (dc_device cfg)"
  let ?rt = "AddDevice_body now g ?d rt"
  obtain sd1 where r: "RegisterDeviceTools cfg (rt, sd) = Done (rt, sd1)"
    and tools: "\<forall>c \<in> set (dc_capabilities cfg). has_tool sd1 ?d c"
    and kept: "\<forall>k. gm_get (sd_tools sd) k \<noteq> None \<longrightarrow> gm_get (sd_tools sd1) k \<noteq> None"
    using register_completes [OF Cons.prems(1)] by blast
  have a: "lift_rt (AddDevice now g ?d) (rt, sd1) = Done ((), (?rt, sd1))"
    using Cons.prems(1) by (simp add: lift_rt_def AddDevice_free)
  have "rt_mu ?rt = Free" "url_of ?rt g = Some u" using Cons.prems by (simp_all add: table_effects)
  from Cons.IH [OF this, of sd1] obtain rt' sd' where
    loop: "each (\<lambda>cfg s. and_then (RegisterDeviceTools cfg s) (\<lambda>s.
        and_then (lift_rt (AddDevice now g (dev_id (dc_device cfg))) s) (\<lambda>(_, s). Done s))) cfgs (?rt, sd1) = Done (rt', sd')"
    and ok: "rt_mu rt' = Free" "url_of rt' g = Some u" "rerouted g ?rt rt'"
    "\<forall>k. gm_get (sd_tools sd1) k \<noteq> None \<longrightarrow> gm_get (sd_tools sd') k \<noteq> None"
    "\<forall>cfg \<in> set cfgs. listed rt' g (dev_id (dc_device cfg))
        \<and> (\<forall>c \<in> set (dc_capabilities cfg). has_tool sd' (dev_id (dc_device cfg)) c)" by blast
  have full: "each (\<lambda>cfg s. and_then (RegisterDeviceTools cfg s) (\<lambda>s.
        and_then (lift_rt (AddDevice now g (dev_id (dc_device cfg))) s) (\<lambda>(_, s). Done s))) (cfg # cfgs) (rt, sd) = Done (rt', sd')"
    using r a loop by simp
  have routes: "rerouted g rt rt'" "listed rt' g ?d" using rerouted_AddDevice [OF ok(3)] by simp_all
  have "\<forall>k. gm_get (sd_tools sd) k \<noteq> None \<longrightarrow> gm_get (sd_tools sd') k \<noteq> None" using kept ok(4) by blast
  moreover have "\<forall>c \<in> set (dc_capabilities cfg). has_tool sd' ?d c" using tools ok(4) by blast
  then have "\<forall>cfg \<in> set (cfg # cfgs). listed rt' g (dev_id (dc_device cfg))
        \<and> (\<forall>c \<in> set (dc_capabilities cfg). has_tool sd' (dev_id (dc_device cfg)) c)"
    using ok(5) routes(2) by (simp only: list.set ball_simps)
  ultimately show ?case using full ok(1,2) routes(1) by blast
qed

text \<open>A discovered device can be called: when an mDNS entry of a devagent gateway has been
  handled, discovery has come to its end with the lock free, every capability of every device
  the gateway listed has its tool, and the device is routed to the announced address, or keeps
  the route it had if the gateway listed it before.\<close>

lemma discovery_makes_callable:
  assumes "rt_mu rt = Free" and "gateways_ok rt"
    and "contains_str service_suffix (me_name entry)" and "me_addr_v4 entry = Some addr"
    and "g = takeWhile (\<lambda>c. c \<noteq> CHR ''.'') (me_name entry)"
    and "u = (if ''tls=1'' \<in> set (me_info entry) then ''https'' else ''http'') @ ''://'' @ addr @ '':'' @ itoa (me_port entry)"
    and "http_get (u @ ''/devices'') (setAuthHeader r now) = Inr cfgs"
    and "cfg \<in> set cfgs" and "c \<in> set (dc_capabilities cfg)" and "d = dev_id (dc_device cfg)"
  shows "\<exists>rt' sd'. discover_entry r main_on_discover http_get now entry (rt, sd) = Done (rt', sd')
    \<and> rt_mu rt' = Free \<and> url_of rt' g = Some u \<and> route rt' d = (if listed rt g d then route rt d else Some g)
    \<and> gm_get (sd_tools sd') (d @ ''.'' @ cap_name c) \<noteq> None"
proof -
  let ?gw = "\<lparr>gw_id = g, gw_url = u, gw_devices = [], gw_last_heartbeat = unix now, gw_status = ''online''\<rparr>"
  let ?rt = "Register_body now ?gw rt"
  have rt: "rt_mu ?rt = Free" "url_of ?rt g = Some u" using assms(1,2) by (simp_all add: url_Register)
  from fetch_loop [OF rt, of now cfgs sd] obtain rt' sd' where
    loop: "each (\<lambda>cfg s. and_then (RegisterDeviceTools cfg s) (\<lambda>s.
        and_then (lift_rt (AddDevice now g (dev_id (dc_device cfg))) s) (\<lambda>(_, s). Done s))) cfgs (?rt, sd) = Done (rt', sd')"
    and ok: "rt_mu rt' = Free" "url_of rt' g = Some u" "rerouted g ?rt rt'" "listed rt' g d" "has_tool sd' d c"
    using assms(8-10) by blast
  have "rerouted g rt rt'" using ok(3) rerouted_Register [OF assms(2), of ?gw g now rt'] by simp
  then have "route rt' d = (if listed rt g d then route rt d else Some g)" using ok(4) by (simp add: rerouted_def)
  moreover have "discover_entry r main_on_discover http_get now entry (rt, sd)
      = fetchAndRegisterDevices r main_on_discover http_get now g u (?rt, sd)"
    using assms(1,3,4) by (simp add: discover_entry_def Let_def lift_rt_def Register_free assms(5,6))
  moreover have "\<dots> = Done (rt', sd')" using loop by (simp add: fetchAndRegisterDevices_def main_on_discover_def assms(7))
  ultimately show ?thesis using ok by simp
qed

lemma discovery_makes_callable_demo:
  "\<exists>rt' sd'. discover_entry (NewRouter [] 0 None) main_on_discover (\<lambda>_ _. Inr [lamp_v2]) 0
      \<lparr>me_name = ''gw_1._devagent._tcp.local.'', me_addr_v4 = Some ''10.0.0.2'', me_port = 8080, me_info = []\<rparr>
      (NewRouteTable, NewSidecarServer NewDedupWindow NewProgressTracker) = Done (rt', sd')
    \<and> Lookup_body ''lamp'' rt' = Some (''http://10.0.0.2:'' @ itoa 8080)
    \<and> gm_get (sd_tools sd') ''lamp.on'' \<noteq> None"
proof -
  let ?entry = "\<lparr>me_name = ''gw_1._devagent._tcp.local.'', me_addr_v4 = Some ''10.0.0.2'', me_port = 8080, me_info = []\<rparr>"
  have c: "contains_str service_suffix (me_name ?entry)" "takeWhile (\<lambda>c. c \<noteq> CHR ''.'') (me_name ?entry) = ''gw_1''"
    by code_simp+
  have t: "rt_mu NewRouteTable = Free" "gateways_ok NewRouteTable" "\<not> listed NewRouteTable ''gw_1'' ''lamp''"
    by (simp_all add: NewRouteTable_def gateways_ok_def listed_def)
  have l: "plain_capability ''on'' zero_implementation \<in> set (dc_capabilities lamp_v2)" "''lamp'' = dev_id (dc_device lamp_v2)"
    "cap_name (plain_capability ''on'' zero_implementation) = ''on''"
    by (simp_all add: lamp_v2_def lamp_v1_def plain_capability_def)
  from discovery_makes_callable [OF t(1,2) c(1) _ c(2) [symmetric] refl _ _ l(1,2), of "''10.0.0.2''" "\<lambda>_ _. Inr [lamp_v2]"
      "NewRouter [] 0 None" 0 "[lamp_v2]" "NewSidecarServer NewDedupWindow NewProgressTracker"]
  show ?thesis using t(3) by (auto simp: l(3) Lookup_body_route)
qed

section \<open>A health tick without a silent gateway\<close>

lemma remove_tools_done: "\<exists>sd'. UnregisterDeviceTools d (rt, sd) = Done (rt, sd')"
  by (simp add: UnregisterDeviceTools_def split: option.split)

lemma remove_all_done:
  "\<exists>sd'. each (\<lambda>d s. case main_on_remove of None \<Rightarrow> Done s | Some fn \<Rightarrow> fn d s) ds (rt, sd) = Done (rt, sd')"
proof (induction ds arbitrary: sd)
  case (Cons d ds)
  obtain sd1 where "UnregisterDeviceTools d (rt, sd) = Done (rt, sd1)" using remove_tools_done by blast
  then show ?case using Cons by (simp add: main_on_remove_def)
qed simp

lemma remove_offline:
  assumes "rt_mu rt = Free" and "gateways_ok rt"
  shows "\<exists>rt' sd'. each (\<lambda>gwID s. and_then (lift_rt (Unregister gwID) s) (\<lambda>(removed, s).
        each (\<lambda>deviceID s. case main_on_remove of None \<Rightarrow> Done s | Some fn \<Rightarrow> fn deviceID s) removed s)) offs (rt, sd) = Done (rt', sd')
    \<and> rt_mu rt' = Free \<and> gateways_ok rt'
    \<and> (\<forall>g. gm_get (rt_gateways rt') g = (if g \<in> set offs then None else gm_get (rt_gateways rt) g))"
  using assms
proof (induction offs arbitrary: rt sd)
  case (Cons g offs)
  let ?rt = "snd (Unregister_body g rt)"
  obtain sd1 where sd1: "each (\<lambda>d s. case main_on_remove of None \<Rightarrow> Done s | Some fn \<Rightarrow> fn d s) (fst (Unregister_body g rt)) (?rt, sd)
      = Done (?rt, sd1)" using remove_all_done by blast
  have "rt_mu ?rt = Free" "gateways_ok ?rt" using Cons.prems gateways_ok_Unregister by simp_all
  from Cons.IH [OF this, of sd1] obtain rt' sd' where
    loop: "each (\<lambda>gwID s. and_then (lift_rt (Unregister gwID) s) (\<lambda>(removed, s).
        each (\<lambda>deviceID s. case main_on_remove of None \<Rightarrow> Done s | Some fn \<Rightarrow> fn deviceID s) removed s)) offs (?rt, sd1) = Done (rt', sd')"
    and ok: "rt_mu rt' = Free" "gateways_ok rt'"
    "\<forall>h. gm_get (rt_gateways rt') h = (if h \<in> set offs then None else gm_get (rt_gateways ?rt) h)" by blast
  have "lift_rt (Unregister g) (rt, sd) = Done (fst (Unregister_body g rt), (?rt, sd))"
    using Cons.prems(1) by (simp add: lift_rt_def Unregister_free split: prod.split)
  moreover have "gm_get (rt_gateways ?rt) h = (if h = g then None else gm_get (rt_gateways rt) h)" for h
    by (simp add: Unregister_body_def split: option.split)
  ultimately show ?case using loop sd1 ok by (intro exI [of _ rt'] exI [of _ sd']) auto
qed simp

lemma beat_online:
  "gw_status m = GatewayOnline \<Longrightarrow> m\<lparr>gw_last_heartbeat := t, gw_status := GatewayOnline\<rparr> = m\<lparr>gw_last_heartbeat := t\<rparr>"
  by (cases m) simp

lemma refresh_loop:
  assumes "rt_mu rt = Free" and "\<forall>g m. gm_get (rt_gateways rt) g = Some m \<longrightarrow> gw_status m = GatewayOnline"
  shows "\<exists>rt'. each (\<lambda>gw s. if healthy (gw_url gw @ ''/healthz'') then UpdateHeartbeat (Some main_status_callback) now (gw_id gw) s
        else Done s) gws (rt, sd) = Done (rt', sd)
    \<and> rt_mu rt' = Free
    \<and> (\<forall>g. gm_get (rt_gateways rt') g = map_option (\<lambda>m. if \<exists>gw \<in> set gws. gw_id gw = g \<and> healthy (gw_url gw @ ''/healthz'')
        then m\<lparr>gw_last_heartbeat := unix now\<rparr> else m) (gm_get (rt_gateways rt) g))"
  using assms
proof (induction gws arbitrary: rt)
  case Nil
  have "map_option (\<lambda>m. m) x = x" for x :: "gateway_meta option" by (simp add: option.map_ident)
  with Nil show ?case by simp
next
  case (Cons gw gws)
  show ?case
  proof (cases "healthy (gw_url gw @ ''/healthz'')")
    case False
    with Cons.IH [OF Cons.prems] show ?thesis by auto
  next
    case True
    let ?rt = "UpdateHeartbeat_body now (gw_id gw) rt"
    have beat: "gm_get (rt_gateways ?rt) g = map_option (\<lambda>m. if g = gw_id gw then m\<lparr>gw_last_heartbeat := unix now\<rparr> else m)
        (gm_get (rt_gateways rt) g)" for g
      using Cons.prems(2) beat_online
      by (cases "gm_get (rt_gateways rt) g") (auto simp: UpdateHeartbeat_body_def split: option.split)
    have step: "UpdateHeartbeat (Some main_status_callback) now (gw_id gw) (rt, sd) = Done (?rt, sd)"
      using Cons.prems by (auto simp: UpdateHeartbeat_main UpdateHeartbeat_body_def split: option.split)
    have "rt_mu ?rt = Free" using Cons.prems(1) by (simp add: UpdateHeartbeat_body_def split: option.split)
    moreover have "\<forall>g m. gm_get (rt_gateways ?rt) g = Some m \<longrightarrow> gw_status m = GatewayOnline"
      using Cons.prems(2) by (auto simp: beat)
    ultimately obtain rt' where
      loop: "each (\<lambda>gw s. if healthy (gw_url gw @ ''/healthz'') then UpdateHeartbeat (Some main_status_callback) now (gw_id gw) s
        else Done s) gws (?rt, sd) = Done (rt', sd)"
      and ok: "rt_mu rt' = Free"
      "\<forall>g. gm_get (rt_gateways rt') g = map_option (\<lambda>m. if \<exists>gw \<in> set gws. gw_id gw = g \<and> healthy (gw_url gw @ ''/healthz'')
        then m\<lparr>gw_last_heartbeat := unix now\<rparr> else m) (gm_get (rt_gateways ?rt) g)"
      using Cons.IH [of ?rt] by blast
    have "each (\<lambda>gw s. if healthy (gw_url gw @ ''/healthz'') then UpdateHeartbeat (Some main_status_callback) now (gw_id gw) s
        else Done s) (gw # gws) (rt, sd) = Done (rt', sd)" using step loop True by simp
    moreover have "gm_get (rt_gateways rt') g = map_option (\<lambda>m. if \<exists>x \<in> set (gw # gws). gw_id x = g \<and> healthy (gw_url x @ ''/healthz'')
        then m\<lparr>gw_last_heartbeat := unix now\<rparr> else m) (gm_get (rt_gateways rt) g)" for g
      using True by (cases "gm_get (rt_gateways rt) g") (auto simp: ok(2) beat)
    ultimately show ?thesis using ok(1) by blast
  qed
qed

lemma listed_once:
  assumes "gateways_ok rt" and "gm_get (rt_gateways rt) g = Some m"
  shows "(\<exists>gw \<in> set (map snd (rt_gateways rt)). gw_id gw = g \<and> P gw) \<longleftrightarrow> P m"
proof -
  have get: "gm_get (rt_gateways rt) k = Some v" if "(k, v) \<in> set (rt_gateways rt)" for k v
    using assms(1) that by (simp add: gateways_ok_def gm_get_iff)
  have "gw = m" if "gw \<in> set (map snd (rt_gateways rt))" "gw_id gw = g" for gw
  proof -
    from that(1) obtain x where "x \<in> set (rt_gateways rt)" "gw = snd x" by auto
    then have "(fst x, gw) \<in> set (rt_gateways rt)" by simp
    then obtain k where "(k, gw) \<in> set (rt_gateways rt)" ..
    then have "gm_get (rt_gateways rt) k = Some gw" by (rule get)
    then show ?thesis using assms that(2) by (auto simp: gateways_ok_def)
  qed
  moreover have "m \<in> set (map snd (rt_gateways rt))" using gm_get_in_set [OF assms(2)] by force
  moreover have "gw_id m = g" using assms by (auto simp: gateways_ok_def)
  ultimately show ?thesis by blast
qed

lemma nobody_in_between:
  assumes ok: "gm_ok (rt_gateways rt)"
    and "\<forall>g m. gm_get (rt_gateways rt) g = Some m \<longrightarrow> unix now - gw_last_heartbeat m \<le> seconds_of mt
        \<or> seconds_of off < unix now - gw_last_heartbeat m"
  shows "\<exists>offs. StaleGateways_body now mt off rt = ([], offs)
    \<and> (\<forall>g. g \<in> set offs \<longleftrightarrow> (\<exists>m. gm_get (rt_gateways rt) g = Some m \<and> seconds_of off < unix now - gw_last_heartbeat m))"
proof -
  let ?dead = "\<lambda>m. seconds_of off < unix now - gw_last_heartbeat m"
  let ?mnt = "map fst (filter (\<lambda>(k, m). \<not> ?dead m \<and> seconds_of mt < unix now - gw_last_heartbeat m) (rt_gateways rt))"
  have "g \<notin> set ?mnt" for g
    unfolding keys_filter [OF ok] using assms(2) by (simp add: not_less) (metis not_less)
  then have "?mnt = []" by (cases ?mnt) auto
  then show ?thesis using keys_filter [OF ok] by (simp add: StaleGateways_body_def Let_def)
qed

text \<open>What a tick leaves of a gateway, when nobody answers late.\<close>

definition after_tick :: "(string \<Rightarrow> bool) \<Rightarrow> go_time \<Rightarrow> duration \<Rightarrow> gateway_meta \<Rightarrow> gateway_meta option" where
  "after_tick healthy now offline gw =
     (if seconds_of offline < unix now - gw_last_heartbeat gw then None
      else if healthy (gw_url gw @ ''/healthz'') then Some (gw\<lparr>gw_last_heartbeat := unix now\<rparr>)
      else Some gw)"

text \<open>C37: a health tick with no gateway between the two timeouts does its work: with all gateways
  online it comes to its end with the lock free, the gateways silent for longer than the
  heartbeat timeout are gone, those that answered the probe carry the time of the tick, and the
  others are as they were.\<close>

theorem health_tick_exact:
  assumes "rt_mu rt = Free" and "gateways_ok rt"
    and "\<forall>g m. gm_get (rt_gateways rt) g = Some m \<longrightarrow> gw_status m = GatewayOnline"
    and "\<forall>g m. gm_get (rt_gateways rt) g = Some m \<longrightarrow>
        unix now - gw_last_heartbeat m \<le> seconds_of (sc_maintenance_timeout (ro_cfg r))
        \<or> seconds_of (sc_heartbeat_timeout (ro_cfg r)) < unix now - gw_last_heartbeat m"
  shows "\<exists>rt' sd'. health_tick r (Some main_status_callback) main_on_remove healthy now (rt, sd) = Done (rt', sd')
    \<and> rt_mu rt' = Free
    \<and> (\<forall>g. gm_get (rt_gateways rt') g =
        Option.bind (gm_get (rt_gateways rt) g) (after_tick healthy now (sc_heartbeat_timeout (ro_cfg r))))"
proof -
  let ?off = "sc_heartbeat_timeout (ro_cfg r)" and ?mt = "sc_maintenance_timeout (ro_cfg r)"
  let ?dead = "\<lambda>m. seconds_of ?off < unix now - gw_last_heartbeat m"
  obtain offs where sg: "StaleGateways_body now ?mt ?off rt = ([], offs)"
    and dead: "\<And>g. g \<in> set offs \<longleftrightarrow> (\<exists>m. gm_get (rt_gateways rt) g = Some m \<and> ?dead m)"
    using nobody_in_between [OF _ assms(4)] assms(2) by (auto simp: gateways_ok_def)
  from remove_offline [OF assms(1,2), of offs sd] obtain rt1 sd1 where
    loop1: "each (\<lambda>gwID s. and_then (lift_rt (Unregister gwID) s) (\<lambda>(removed, s).
        each (\<lambda>deviceID s. case main_on_remove of None \<Rightarrow> Done s | Some fn \<Rightarrow> fn deviceID s) removed s)) offs (rt, sd) = Done (rt1, sd1)"
    and ok1: "rt_mu rt1 = Free" "gateways_ok rt1"
    "\<And>g. gm_get (rt_gateways rt1) g = (if g \<in> set offs then None else gm_get (rt_gateways rt) g)" by blast
  have "\<forall>g m. gm_get (rt_gateways rt1) g = Some m \<longrightarrow> gw_status m = GatewayOnline" using assms(3) by (simp add: ok1(3))
  from refresh_loop [OF ok1(1) this, of healthy now "map snd (rt_gateways rt1)" sd1] obtain rt' where
    loop2: "each (\<lambda>gw s. if healthy (gw_url gw @ ''/healthz'') then UpdateHeartbeat (Some main_status_callback) now (gw_id gw) s
        else Done s) (map snd (rt_gateways rt1)) (rt1, sd1) = Done (rt', sd1)"
    and ok2: "rt_mu rt' = Free"
    "\<And>g. gm_get (rt_gateways rt') g = map_option (\<lambda>m. if \<exists>gw \<in> set (map snd (rt_gateways rt1)). gw_id gw = g
        \<and> healthy (gw_url gw @ ''/healthz'') then m\<lparr>gw_last_heartbeat := unix now\<rparr> else m) (gm_get (rt_gateways rt1) g)" by blast
  have "health_tick r (Some main_status_callback) main_on_remove healthy now (rt, sd) = Done (rt', sd1)"
    using assms(1) ok1(1) loop1 loop2
    by (simp add: health_tick_def lift_rt_def StaleGateways_free Gateways_free sg)
  moreover have "gm_get (rt_gateways rt') g = Option.bind (gm_get (rt_gateways rt) g) (after_tick healthy now ?off)" for g
  proof (cases "gm_get (rt_gateways rt1) g")
    case None
    then have "gm_get (rt_gateways rt) g = None \<or> (\<exists>m. gm_get (rt_gateways rt) g = Some m \<and> ?dead m)"
      by (simp add: ok1(3) dead split: if_splits)
    then show ?thesis using None by (auto simp: ok2(2) after_tick_def)
  next
    case (Some m)
    then have "gm_get (rt_gateways rt) g = Some m" "\<not> ?dead m" using dead by (auto simp: ok1(3) split: if_splits)
    then show ?thesis unfolding ok2(2) listed_once [OF ok1(2) Some] by (simp add: Some after_tick_def)
  qed
  ultimately show ?thesis using ok2(1) by blast
qed

theorem health_tick_exact_witness:
  "\<exists>rt' sd'. health_tick (NewRouter [] 0 None) (Some main_status_callback) main_on_remove (\<lambda>_. True) (30 * second)
      (demo_table, NewSidecarServer NewDedupWindow NewProgressTracker) = Done (rt', sd')
    \<and> map_option gw_last_heartbeat (gm_get (rt_gateways rt') ''gw_1'') = Some 30"
proof -
  have "gateways_ok NewRouteTable" by (simp add: NewRouteTable_def gateways_ok_def)
  then have t: "rt_mu demo_table = Free" "gateways_ok demo_table"
    by (simp_all add: demo_table_def gateways_ok_Register) (simp add: NewRouteTable_def)
  have g: "gm_get (rt_gateways demo_table) g = (if g = ''gw_1'' then Some \<lparr>gw_id = ''gw_1'', gw_url = ''http://10.0.0.2:8080'',
       gw_devices = [''shelf_01''], gw_last_heartbeat = 0, gw_status = GatewayOnline\<rparr> else None)" for g
    by (simp add: demo_table_def Register_body_def NewRouteTable_def unix_def second_def)
  have u: "unix (30 * second) = 30" by (simp add: unix_def second_def)
  have b: "seconds_of (sc_maintenance_timeout (ro_cfg (NewRouter [] 0 None))) \<ge> 30"
    "seconds_of (sc_heartbeat_timeout (ro_cfg (NewRouter [] 0 None))) \<ge> 30"
    by (simp_all add: NewRouter_def DefaultGlobalConfig_def seconds_of_def second_def)
  have "\<forall>g m. gm_get (rt_gateways demo_table) g = Some m \<longrightarrow> gw_status m = GatewayOnline" by (simp add: g)
  moreover have "\<forall>g m. gm_get (rt_gateways demo_table) g = Some m \<longrightarrow>
        unix (30 * second) - gw_last_heartbeat m \<le> seconds_of (sc_maintenance_timeout (ro_cfg (NewRouter [] 0 None)))
        \<or> seconds_of (sc_heartbeat_timeout (ro_cfg (NewRouter [] 0 None))) < unix (30 * second) - gw_last_heartbeat m"
    using b by (simp add: g u)
  ultimately obtain rt' sd' where
    "health_tick (NewRouter [] 0 None) (Some main_status_callback) main_on_remove (\<lambda>_. True) (30 * second)
      (demo_table, NewSidecarServer NewDedupWindow NewProgressTracker) = Done (rt', sd')"
    "gm_get (rt_gateways rt') ''gw_1'' = Option.bind (gm_get (rt_gateways demo_table) ''gw_1'')
        (after_tick (\<lambda>_. True) (30 * second) (sc_heartbeat_timeout (ro_cfg (NewRouter [] 0 None))))"
    using health_tick_exact [OF t, where r = "NewRouter [] 0 None" and now = "30 * second"
        and healthy = "\<lambda>_. True" and sd = "NewSidecarServer NewDedupWindow NewProgressTracker"] by blast
  then show ?thesis using b by (auto simp: g after_tick_def u)
qed

end
