(* ===== verification/EndToEnd.thy ===== *)
theory EndToEnd
  imports Daemon Sidecar
begin

text \<open>
  A call on its way from the sidecar's goroutine (\<open>internal/sidecar\<close>) to the daemon's
  \<open>/invoke\<close> handler (\<open>internal/daemon/server.go\<close>) and back into the job tracker.
  HTTP itself is not modelled: a request arrives as it was sent, an answer as it was written.
\<close>

section \<open>The two ends joined\<close>

definition arrives :: "string \<Rightarrow> outgoing \<Rightarrow> http_request" where
  "arrives addr out = \<lparr>hr_method = ''POST'', hr_remote_addr = addr,
     hr_authorization = (case og_authorization out of None \<Rightarrow> [] | Some a \<Rightarrow> a), hr_body = Inr (og_body out)\<rparr>"

text \<open>What a client reads: \<open>Encode\<close> and \<open>http.Error\<close> end the body with a line break.\<close>

definition answer_body :: "(rat \<Rightarrow> string) \<Rightarrow> http_outcome \<Rightarrow> string + string" where
  "answer_body sf r =
     (case r of
        Replied st (BMessage m) \<Rightarrow> Inr (msg_Marshal sf m @ [CHR 0x0A])
      | Replied st (BText t) \<Rightarrow> Inr (t @ [CHR 0x0A])
      | _ \<Rightarrow> Inl ''EOF'')"

text \<open>The daemon as the sidecar sees it; a handler that never returns runs into the client's timeout.\<close>

definition daemon_at :: "(rat \<Rightarrow> string) \<Rightarrow> world \<Rightarrow> string \<Rightarrow> go_time \<Rightarrow> daemon_server \<Rightarrow> outgoing \<Rightarrow> string + string" where
  "daemon_at sf w addr now ds out =
     (case handleHTTPInvoke w now (arrives addr out) ds of
        None \<Rightarrow> Inl ''timeout''
      | Some (r, _, _) \<Rightarrow> answer_body sf r)"

definition same_secret :: "string \<Rightarrow> duration \<Rightarrow> router \<Rightarrow> daemon_server \<Rightarrow> bool" where
  "same_secret secret ttl r ds \<longleftrightarrow> (\<exists>cfg. r = NewRouter secret ttl cfg)
     \<and> ds_tokenManager ds = (if secret = [] then None else Some (NewTokenManager secret))"

definition lifetime :: "duration \<Rightarrow> duration" where
  "lifetime ttl = (if ttl \<le> 0 then 300 * second else ttl)"

section \<open>The request passes the daemon's guards\<close>

lemma Mint_not_empty: "Mint tm caps ttl now \<noteq> []"
  by (simp add: Mint_def Let_def)

lemma token_read:
  assumes "same_secret secret ttl r ds" and "secret \<noteq> []" and "unix later \<le> unix (now + lifetime ttl)"
    and "- (2 ^ 63) \<le> unix (now + lifetime ttl)" and "unix (now + lifetime ttl) < 2 ^ 63"
  shows "\<exists>t. setAuthHeader r now = Some (''Bearer '' @ t) \<and> trim_bearer (''Bearer '' @ t) \<noteq> []
    \<and> ds_tokenManager ds = Some (NewTokenManager secret)
    \<and> Verify (NewTokenManager secret) (trim_bearer (''Bearer '' @ t)) later
        = Inr \<lparr>tc_caps = Some [''*''], tc_exp = unix (now + lifetime ttl)\<rparr>"
proof -
  let ?tm = "NewTokenManager secret" let ?t = "Mint ?tm (Some [''*'']) (lifetime ttl) now"
  have "valid_utf8 ''*''" by code_simp
  then have "claims_ok \<lparr>tc_caps = Some [''*''], tc_exp = unix (now + lifetime ttl)\<rparr>" using assms(4,5) by (simp add: claims_ok_def)
  from Mint_accepted [OF this assms(3)] have "Verify ?tm ?t later = Inr \<lparr>tc_caps = Some [''*''], tc_exp = unix (now + lifetime ttl)\<rparr>" .
  moreover have "setAuthHeader r now = Some (''Bearer '' @ ?t)" "ds_tokenManager ds = Some ?tm"
    using assms(1,2) by (auto simp: same_secret_def setAuthHeader_def NewRouter_def lifetime_def Let_def)
  ultimately show ?thesis by (intro exI [of _ ?t]) (simp add: trim_bearer_def Mint_not_empty)
qed

lemma token_passes:
  assumes "same_secret secret ttl r ds" and "unix later \<le> unix (now + lifetime ttl)"
    and "- (2 ^ 63) \<le> unix (now + lifetime ttl)" and "unix (now + lifetime ttl) < 2 ^ 63"
    and "hr_authorization req = (case setAuthHeader r now of None \<Rightarrow> [] | Some a \<Rightarrow> a)"
  shows "check_token later req msg ds = None" and "authorized later req ds"
proof -
  have "check_token later req msg ds = None \<and> authorized later req ds"
  proof (cases "secret = []")
    case True
    with assms(1) show ?thesis by (simp add: check_token_def authorized_def same_secret_def)
  next
    case False
    from token_read [OF assms(1) False assms(2-4)] show ?thesis
      using assms(5) by (auto simp: check_token_def authorized_def Let_def CheckCap_def)
  qed
  then show "check_token later req msg ds = None" "authorized later req ds" by simp_all
qed

lemma request_dispatched:
  assumes "same_secret secret ttl r ds" and "unix later \<le> unix (now + lifetime ttl)"
    and "- (2 ^ 63) \<le> unix (now + lifetime ttl)" and "unix (now + lifetime ttl) < 2 ^ 63"
    and "message_ok sf (wd_float_of w) (invoke_message now f)"
    and "Allow later addr (ds_rateLimiter ds) = (True, rl)"
  shows "handleHTTPInvoke w later (arrives addr \<lparr>og_url = url, og_authorization = setAuthHeader r now,
        og_body = msg_Marshal sf (invoke_message now f)\<rparr>) ds
    = dispatch_invoke w later (message_read (invoke_message now f)) (ds\<lparr>ds_rateLimiter := rl\<rparr>)"
proof -
  have "same_secret secret ttl r (ds\<lparr>ds_rateLimiter := rl\<rparr>)" using assms(1) by (simp add: same_secret_def)
  from token_passes(1) [OF this assms(2-4)] show ?thesis
    using assms(6) by (simp add: handleHTTPInvoke_def arrives_def Parse_Marshal [OF assms(5)])
qed

text \<open>The daemon's own texts are valid UTF-8, the Chinese one included.\<close>

lemma timeout_text_valid: "valid_utf8 timeout_text"
  by code_simp


section \<open>The diagnosis of a device\<close>

text \<open>What the sidecar decodes from the answer to \<open>/readyz\<close>; a field that is missing is zero.\<close>

definition read_ready :: "http_outcome \<Rightarrow> readyz" where
  "read_ready r =
     (case r of
        Replied st (BInfo info) \<Rightarrow> Ready (gm_get info ''serial_connected'' = Some (GBool True))
          (case gm_get info ''device_count'' of Some (GInt n) \<Rightarrow> n | _ \<Rightarrow> 0)
      | _ \<Rightarrow> BadBody)"

lemma read_readyz: "read_ready (handleReadyz ds) =
   Ready (\<exists>h. ds_hal ds = Some h \<and> hal_IsConnected h) (int (length (ListDevices (ds_registry ds))))"
  by (auto simp: read_ready_def handleReadyz_def Let_def gm_get_def split: option.split)

text \<open>C18: the diagnosis of a device with a route tells what its gateway can do: while the route
  table's lock is free, \<open>diagnose_connectivity\<close> names the gateway's URL and reports the way to the
  device as \<open>ok\<close> exactly if the daemon behind it answers \<open>/readyz\<close> within the ten seconds of the
  HTTP client, has a connected bridge and at least one device; a gateway that is silent, refuses or
  is late is \<open>unreachable\<close>, any other \<open>not_ready\<close>. The call changes nothing.\<close>

theorem diagnose_reports_link:
  assumes "rt_mu rt = Free" and "Lookup_body d rt = Some url"
    and "probe (url @ ''/readyz'') (setAuthHeader r now) \<in> {Silent, Refused, After t (read_ready (handleReadyz ds))}"
  shows "\<exists>info. handleDiagnose (Some r) probe now (Inr d) (rt, sd) = Done (SideJSON info, (rt, sd))
    \<and> gm_get info ''gateway_url'' = Some (GStr url)
    \<and> gm_get info ''gateway_to_device'' = Some (GStr
        (if probe (url @ ''/readyz'') (setAuthHeader r now) = After t (read_ready (handleReadyz ds)) \<and> t < 10 * second
         then if (\<exists>h. ds_hal ds = Some h \<and> hal_IsConnected h) \<and> ListDevices (ds_registry ds) \<noteq> [] then ''ok'' else ''not_ready''
         else ''unreachable''))"
proof -
  have "await (probe (url @ ''/readyz'') (setAuthHeader r now)) =
      (if probe (url @ ''/readyz'') (setAuthHeader r now) = After t (read_ready (handleReadyz ds)) \<and> t < 10 * second
       then Some (read_ready (handleReadyz ds)) else None)"
    using assms(3) by (auto simp: httpTimeout_def)
  then show ?thesis using assms(1,2)
    by (simp add: handleDiagnose_def lift_rt_free Lookup_free AllDevices_free Let_def read_readyz gm_get_def)
qed

text \<open>A gateway whose devices all run natively has no bridge; it reports itself ready on \<open>/readyz\<close>,
  and the diagnosis, which looks at \<open>serial_connected\<close> and not at \<open>status\<close>, calls it not ready.\<close>

theorem native_gateway_not_ready:
  assumes "rt_mu rt = Free" and "Lookup_body d rt = Some url" and "ds_hal ds = None" and "ListDevices (ds_registry ds) \<noteq> []"
    and "probe (url @ ''/readyz'') (setAuthHeader r now) = After 0 (read_ready (handleReadyz ds))"
  shows "(\<exists>info. handleReadyz ds = Replied 200 (BInfo info) \<and> gm_get info ''status'' = Some (GStr ''ok''))
    \<and> (\<exists>info. handleDiagnose (Some r) probe now (Inr d) (rt, sd) = Done (SideJSON info, (rt, sd))
        \<and> gm_get info ''gateway_to_device'' = Some (GStr ''not_ready''))"
  using assms
  by (simp add: handleReadyz_def handleDiagnose_def lift_rt_free Lookup_free AllDevices_free Let_def read_ready_def
      httpTimeout_def second_def gm_get_def)

section \<open>A concrete call\<close>

definition echo_flight :: flight where
  "echo_flight = \<lparr>fl_device = ''mock'', fl_capability = ''run'', fl_params = GMap [(''command'', GStr ''echo hi'')],
     fl_request_id = ''req_8'', fl_job_id = ''job_7''\<rparr>"

definition echo_router :: router where
  "echo_router = NewRouter guard_secret (60 * second) None"

definition echo_table :: route_table where
  "echo_table = AddDevice_body 0 ''gw_1'' ''mock'' (Register_body 0 \<lparr>gw_id = ''gw_1'', gw_url = ''http://gw1:8080'',
     gw_devices = [], gw_last_heartbeat = 0, gw_status = []\<rparr> NewRouteTable)"

definition echo_sidecar :: sidecar where
  "echo_sidecar = (NewSidecarServer NewDedupWindow (pt_Register 0 ''job_7'' ''req_8'' ''mock'' NewProgressTracker))
     \<lparr>sd_flights := [echo_flight]\<rparr>"

definition echo_reply :: sse_message where
  "echo_reply = zero_message\<lparr>sm_type := ''invoke_result'', sm_request_id := ''req_8'', sm_device_id := ''mock'',
     sm_capability := ''run'', sm_status := ''ok'', sm_result := GStruct [(''status'', GStr ''ok''), (''stdout'', GStr ''hi''),
       (''stderr'', GStr []), (''exit_code'', GInt 0)]\<rparr>"

lemma echo_route: "rt_mu echo_table = Free" "Lookup_body ''mock'' echo_table = Some ''http://gw1:8080''"
  by (simp_all add: echo_table_def Register_body_def AddDevice_body_def NewRouteTable_def Lookup_body_def Let_def)

lemma echo_texts:
  "valid_utf8 ''invoke''" "valid_utf8 ''invoke_result''" "valid_utf8 ''mock''" "valid_utf8 ''run''" "valid_utf8 ''command''" "valid_utf8 ''echo hi''"
  "valid_utf8 []" "valid_utf8 ''req_8''" "valid_utf8 ''job_7''" "valid_utf8 ''ok''" "valid_utf8 ''hi''" "valid_utf8 ''status''" "valid_utf8 ''stdout''"
  "valid_utf8 ''stderr''" "valid_utf8 ''exit_code''"
  by code_simp+

lemma echo_runs:
  "ShellExecute g False run echo_capability [(''command'', GStr ''echo hi'')]
     = (finish (run (shell_timeout echo_capability) [''sh'', ''-c'', ''echo hi'']), Some [''sh'', ''-c'', ''echo hi''])"
proof -
  have "extractBaseCommand ''echo hi'' = ''echo''" "validateCommandSafety ''echo hi'' = None" by code_simp+
  then show ?thesis by (simp add: ShellExecute_def echo_command echo_allows shell_argv_def Let_def)
qed

lemma echo_dispatched:
  "dispatch_invoke echo_world 0 (message_read (invoke_message 0 echo_flight)) (guarded_daemon\<lparr>ds_rateLimiter := rl\<rparr>)
     = Some (Replied 200 (BMessage echo_reply), Some [''sh'', ''-c'', ''echo hi''], guarded_daemon\<lparr>ds_rateLimiter := rl\<rparr>)"
proof -
  have m: "message_read (invoke_message 0 echo_flight) = echo_message\<lparr>sm_request_id := ''req_8'', sm_job_id := ''job_7''\<rparr>"
    by (simp add: message_read_def invoke_message_def echo_flight_def echo_message_def zero_message_def unix_def)
  have c: "cap_name echo_capability = ''run''" "im_native (cap_implementation echo_capability) = ''shell''"
    by (simp_all add: echo_capability_def plain_capability_def)
  have h: "ds_nativeHandlers guarded_daemon = NewNativeHandlerRegistry" by (simp add: guarded_daemon_def NewDaemonServer_def Let_def)
  have g: "GetDevice ''mock'' (ds_registry guarded_daemon) = Some \<lparr>rd_config = guarded_config, rd_last_seen = 0, rd_static = True\<rparr>"
    by (simp add: GetDevice_def guarded_daemon_def reg_Register_def put_device_def NewDeviceRegistry_def guarded_config_def)
  show ?thesis
    by (simp add: m dispatch_invoke_def echo_message_def zero_message_def g guarded_config_def c invokeCore_def
        ExecuteNative_def h NewNativeHandlerRegistry_def gm_get_def echo_world_def echo_runs finish_def Let_def
        request_params_def invoke_reply_def reply_message_def echo_reply_def unix_def)
qed


section \<open>A concrete diagnosis\<close>

theorem diagnose_reports_link_witness:
  "\<exists>info. handleDiagnose (Some echo_router) (\<lambda>u a. if u = ''http://gw1:8080/readyz'' then After second (read_ready (handleReadyz guarded_daemon))
      else Refused) 0 (Inr ''mock'') (echo_table, echo_sidecar) = Done (SideJSON info, (echo_table, echo_sidecar))
    \<and> gm_get info ''gateway_to_device'' = Some (GStr ''not_ready'')"
proof -
  let ?probe = "\<lambda>u a. if u = ''http://gw1:8080/readyz'' then After second (read_ready (handleReadyz guarded_daemon)) else Refused"
  have p: "?probe (''http://gw1:8080'' @ ''/readyz'') (setAuthHeader echo_router 0)
      \<in> {Silent, Refused, After second (read_ready (handleReadyz guarded_daemon))}" by simp
  have "ds_hal guarded_daemon = None" by (simp add: guarded_daemon_def NewDaemonServer_def Let_def)
  then show ?thesis using diagnose_reports_link [where probe = ?probe and sd = echo_sidecar, OF echo_route p]
    by (simp add: second_def) blast
qed

theorem native_gateway_not_ready_witness:
  "\<exists>info. handleReadyz guarded_daemon = Replied 200 (BInfo info) \<and> gm_get info ''status'' = Some (GStr ''ok'')"
proof -
  let ?probe = "\<lambda>(u :: string) (a :: string option). After 0 (read_ready (handleReadyz guarded_daemon))"
  have "ds_hal guarded_daemon = None" "ListDevices (ds_registry guarded_daemon) \<noteq> []"
    by (simp_all add: guarded_daemon_def NewDaemonServer_def Let_def reg_Register_def put_device_def ListDevices_def
        NewDeviceRegistry_def gm_put_def)
  from native_gateway_not_ready [where probe = ?probe, OF echo_route this refl] show ?thesis by blast
qed

end
