(* ===== verification/Announce.thy ===== *)
theory Announce
  imports Discovery EndToEnd
begin

text \<open>
  A daemon's announcement as the sidecar reads it: what \<open>startMDNS\<close> publishes and \<open>Start\<close>
  serves (\<open>internal/daemon/server.go\<close>), against the URL that \<open>Discover\<close> makes of it
  (\<open>internal/sidecar/router.go\<close>). The mDNS library and HTTP are not modelled: an entry carries
  the published instance, port and records, a request reaches a server only under its own URL.
\<close>

section \<open>The two ends joined\<close>

text \<open>The entry that a query finds for a daemon on the host \<open>addr\<close>.\<close>

definition announces :: "string \<Rightarrow> string \<Rightarrow> daemon_server \<Rightarrow> mdns_entry \<Rightarrow> bool" where
  "announces version addr ds entry \<longleftrightarrow> me_name entry = ds_gatewayID ds @ ''._devagent._tcp.local.''
     \<and> me_addr_v4 entry = Some addr \<and> me_port entry = ds_port ds \<and> me_info entry = mdns_txt version ds"

definition daemon_url :: "string \<Rightarrow> daemon_server \<Rightarrow> string" where
  "daemon_url addr ds = listen_scheme ds @ ''://'' @ addr @ '':'' @ itoa (ds_port ds)"

definition half_tls :: "daemon_server \<Rightarrow> bool" where
  "half_tls ds \<longleftrightarrow> tls_cert (gc_tls (ds_cfg ds)) \<noteq> [] \<and> tls_key (gc_tls (ds_cfg ds)) = []"

text \<open>\<open>GET\<close> on the daemon; \<open>wire\<close> is what JSON makes of a configuration.\<close>

definition fetch_from :: "(device_config \<Rightarrow> device_config) \<Rightarrow> string \<Rightarrow> string \<Rightarrow> go_time \<Rightarrow> daemon_server
    \<Rightarrow> string \<Rightarrow> string option \<Rightarrow> string + device_config list" where
  "fetch_from wire addr client now ds url auth =
     (if \<not> prefix (daemon_url addr ds) url then Inl ''connection refused''
      else case mux (drop (length (daemon_url addr ds)) url) of
        DevicesEndpoint \<Rightarrow>
          (case handleHTTPDevices now \<lparr>hr_method = ''GET'', hr_remote_addr = client,
               hr_authorization = (case auth of None \<Rightarrow> [] | Some a \<Rightarrow> a), hr_body = Inr []\<rparr> ds of
             Replied st (BDevices cfgs) \<Rightarrow> Inr (map wire cfgs)
           | _ \<Rightarrow> Inl ''decode'')
      | _ \<Rightarrow> Inl ''decode'')"

section \<open>What the sidecar reads\<close>

lemma entry_named:
  assumes "announces version addr ds entry" and "CHR ''.'' \<notin> set (ds_gatewayID ds)"
  shows "contains_str service_suffix (me_name entry)"
    and "takeWhile (\<lambda>c. c \<noteq> CHR ''.'') (me_name entry) = ds_gatewayID ds"
proof -
  have n: "me_name entry = ds_gatewayID ds @ service_suffix @ ''local.''"
    using assms(1) by (simp add: announces_def service_suffix_def)
  then show "contains_str service_suffix (me_name entry)" by (simp add: contains_str_sublist sublist_appendI)
  have "takeWhile (\<lambda>c. c \<noteq> CHR ''.'') (ds_gatewayID ds @ CHR ''.'' # rest) = ds_gatewayID ds" for rest
    using assms(2) by (subst takeWhile_append2) auto
  then show "takeWhile (\<lambda>c. c \<noteq> CHR ''.'') (me_name entry) = ds_gatewayID ds"
    by (simp add: n service_suffix_def)
qed

lemma entry_scheme:
  "announces version addr ds entry \<Longrightarrow>
   (if ''tls=1'' \<in> set (me_info entry) then ''https'' else ''http'') @ ''://'' @ addr @ '':'' @ itoa (me_port entry)
     = (if half_tls ds then ''https://'' @ addr @ '':'' @ itoa (ds_port ds) else daemon_url addr ds)"
  by (auto simp: announces_def mdns_txt_def daemon_url_def listen_scheme_def half_tls_def)

lemma discovery_of_daemon:
  assumes "announces version addr ds entry" and "CHR ''.'' \<notin> set (ds_gatewayID ds)" and "rt_mu rt = Free"
  shows "discover_entry r main_on_discover http_get now entry (rt, sd)
    = fetchAndRegisterDevices r main_on_discover http_get now (ds_gatewayID ds)
        (if half_tls ds then ''https://'' @ addr @ '':'' @ itoa (ds_port ds) else daemon_url addr ds)
        (Register_body now \<lparr>gw_id = ds_gatewayID ds,
            gw_url = (if half_tls ds then ''https://'' @ addr @ '':'' @ itoa (ds_port ds) else daemon_url addr ds),
            gw_devices = [], gw_last_heartbeat = unix now, gw_status = ''online''\<rparr> rt, sd)"
proof -
  have "me_addr_v4 entry = Some addr" using assms(1) by (simp add: announces_def)
  then show ?thesis using assms(3) entry_named [OF assms(1,2)] entry_scheme [OF assms(1)]
    by (simp add: discover_entry_def Let_def lift_rt_def Register_free)
qed

section \<open>A daemon's devices become tools\<close>

text \<open>JSON keeps the identifiers of a configuration; it does not keep a string that is not UTF-8.\<close>

definition wire_keeps :: "(device_config \<Rightarrow> device_config) \<Rightarrow> device_config \<Rightarrow> bool" where
  "wire_keeps wire cfg \<longleftrightarrow> dev_id (dc_device (wire cfg)) = dev_id (dc_device cfg)
     \<and> map cap_name (dc_capabilities (wire cfg)) = map cap_name (dc_capabilities cfg)"

lemma fetch_devices:
  assumes "same_secret secret ttl r ds" and "unix later \<le> unix (now + lifetime ttl)"
    and "- (2 ^ 63) \<le> unix (now + lifetime ttl)" and "unix (now + lifetime ttl) < 2 ^ 63"
  shows "fetch_from wire addr client later ds (daemon_url addr ds @ ''/devices'') (setAuthHeader r now)
    = Inr (map (\<lambda>d. wire (Sanitized (rd_config d))) (ListDevices (ds_registry ds)))"
  using token_passes(2) [OF assms(1-4), of "\<lparr>hr_method = ''GET'', hr_remote_addr = client,
      hr_authorization = (case setAuthHeader r now of None \<Rightarrow> [] | Some a \<Rightarrow> a), hr_body = Inr []\<rparr>"]
  by (simp add: fetch_from_def mux_def handleHTTPDevices_def)

lemma registered_listed:
  assumes "registry_ok reg" and "GetDevice d reg = Some dev"
  shows "dev \<in> set (ListDevices reg)" and "dev_id (dc_device (rd_config dev)) = d"
  using assms gm_get_in_set [of "rg_devices reg" d dev] by (force simp: GetDevice_def ListDevices_def registry_ok_def)+

lemma wired_capability:
  assumes "wire_keeps wire (Sanitized (rd_config dev))" and "c \<in> set (dc_capabilities (rd_config dev))"
  shows "\<exists>c'. c' \<in> set (dc_capabilities (wire (Sanitized (rd_config dev)))) \<and> cap_name c' = cap_name c"
proof -
  have "map cap_name (dc_capabilities (wire (Sanitized (rd_config dev)))) = map cap_name (dc_capabilities (rd_config dev))"
    using assms(1) by (simp add: wire_keeps_def Sanitized_def o_def)
  then have "cap_name c \<in> set (map cap_name (dc_capabilities (wire (Sanitized (rd_config dev)))))" using assms(2) by simp
  then show ?thesis by auto
qed


text \<open>A daemon with a certificate but no key cannot be used: it serves plain HTTP and announces
  TLS, so the sidecar registers it under an HTTPS address nobody listens on, fetches nothing from
  it and gets no tool.\<close>

theorem half_tls_unreachable:
  assumes "rt_mu rt = Free" and "gateways_ok rt" and "announces version addr ds entry"
    and "CHR ''.'' \<notin> set (ds_gatewayID ds)" and "half_tls ds"
  shows "\<exists>rt'. discover_entry r main_on_discover (fetch_from wire addr client later ds) now entry (rt, sd) = Done (rt', sd)
    \<and> url_of rt' (ds_gatewayID ds) = Some (''https://'' @ addr @ '':'' @ itoa (ds_port ds))
    \<and> fetch_from wire addr client later ds (''https://'' @ addr @ '':'' @ itoa (ds_port ds) @ path) auth = Inl ''connection refused''"
proof -
  have "listen_scheme ds = ''http''" using assms(5) by (simp add: listen_scheme_def half_tls_def)
  then have refused: "fetch_from wire addr client later ds (''https://'' @ addr @ '':'' @ itoa (ds_port ds) @ p) a = Inl ''connection refused''" for p a
    by (simp add: fetch_from_def daemon_url_def)
  then show ?thesis unfolding discovery_of_daemon [OF assms(3,4,1)] using assms(2,5) refused [of "''/devices''"]
    by (simp add: fetchAndRegisterDevices_def main_on_discover_def url_Register)
qed

section \<open>A concrete announcement\<close>

text \<open>The daemon of the demonstration, with the certificate and key given.\<close>

definition tls_daemon :: "string \<Rightarrow> string \<Rightarrow> daemon_server" where
  "tls_daemon cert key = guarded_daemon\<lparr>ds_cfg := DefaultGlobalConfig\<lparr>gc_tls := \<lparr>tls_cert = cert, tls_key = key\<rparr>\<rparr>\<rparr>"

definition tls_entry :: "string \<Rightarrow> string \<Rightarrow> mdns_entry" where
  "tls_entry cert key = \<lparr>me_name = ''gw_1._devagent._tcp.local.'', me_addr_v4 = Some ''10.0.0.2'', me_port = 8080,
     me_info = mdns_txt ''1.0'' (tls_daemon cert key)\<rparr>"

lemma tls_daemon_simps [simp]:
  "ds_gatewayID (tls_daemon cert key) = ''gw_1''" "ds_port (tls_daemon cert key) = 8080"
  "ds_tokenManager (tls_daemon cert key) = Some (NewTokenManager guard_secret)"
  "ds_registry (tls_daemon cert key) = reg_Register 0 guarded_config NewDeviceRegistry"
  "half_tls (tls_daemon cert key) \<longleftrightarrow> cert \<noteq> [] \<and> key = []"
  by (simp_all add: tls_daemon_def guarded_daemon_def NewDaemonServer_def Let_def half_tls_def)

lemma tls_announced: "announces ''1.0'' ''10.0.0.2'' (tls_daemon cert key) (tls_entry cert key)"
  by (simp add: announces_def tls_entry_def)

lemma empty_table: "rt_mu NewRouteTable = Free" "gateways_ok NewRouteTable" "\<not> listed NewRouteTable g d"
  by (simp_all add: NewRouteTable_def gateways_ok_def listed_def)


theorem half_tls_unreachable_witness:
  "\<exists>rt'. discover_entry echo_router main_on_discover (fetch_from (\<lambda>c. c) ''10.0.0.2'' ''10.0.0.1:5000'' 0 (tls_daemon ''cert.pem'' []))
      0 (tls_entry ''cert.pem'' []) (NewRouteTable, NewSidecarServer NewDedupWindow NewProgressTracker)
      = Done (rt', NewSidecarServer NewDedupWindow NewProgressTracker)
    \<and> url_of rt' ''gw_1'' = Some (''https://10.0.0.2:'' @ itoa 8080)"
proof -
  have "CHR ''.'' \<notin> set (ds_gatewayID (tls_daemon ''cert.pem'' []))" "half_tls (tls_daemon ''cert.pem'' [])" by simp_all
  from half_tls_unreachable [OF empty_table(1,2) tls_announced this] show ?thesis by (fastforce simp: append_assoc)
qed

end
