(* ===== verification/IntegrationTest.thy ===== *)
theory IntegrationTest
  imports SystemTools Announce
begin

text \<open>
  The scripted test of the repository, \<open>cmd/integration_test/main.go\<close>, run on the model. A section
  of the script is the list of its checks in order, each with its label and whether the script goes
  on after it; the first check that fails ends the script with exit code 1. What is printed besides
  the label is kept for the calls of the sidecar's tools only. The in-process MCP client is the dispatch of the server (\<open>CallTool\<close>), the
  test HTTP servers are the handlers themselves.
\<close>

section \<open>Running a script\<close>

datatype script_end = AllPassed "string list" | ExitedAt string "string list"

type_synonym checks = "(string \<times> bool) list"

fun run_checks :: "checks \<Rightarrow> script_end" where
  "run_checks [] = AllPassed []"
| "run_checks ((l, ok) # rest) =
     (if \<not> ok then ExitedAt l []
      else case run_checks rest of AllPassed ls \<Rightarrow> AllPassed (l # ls) | ExitedAt m ls \<Rightarrow> ExitedAt m (l # ls))"

text \<open>The steps of the first section: calls through the client, and direct calls of Go methods.\<close>

datatype side_op = Calls string string goval | Does "side \<Rightarrow> side outcome"

text \<open>What the calls are answered, in order; \<open>None\<close> is an error of the client, or a call that never
  ends, and the last of the list.\<close>

fun run_ops :: "call_world \<Rightarrow> side_op list \<Rightarrow> side \<Rightarrow> (string \<times> side_result option) list" where
  "run_ops cx [] s = []"
| "run_ops cx (Calls label name args # ops) s =
     (case CallTool cx name args s of
        Some (Done (res, s')) \<Rightarrow> (label, Some res) # run_ops cx ops s'
      | _ \<Rightarrow> [(label, None)])"
| "run_ops cx (Does f # ops) s =
     (case f s of Done s' \<Rightarrow> run_ops cx ops s' | Blocked \<Rightarrow> [(''blocked'', None)])"

text \<open>The outside: whether the MCP library makes a client and shakes hands, and what it lists of a
  server's tools; the rest for the calls, for the handlers, the CBOR library, the files and their YAML, the
  environment, what JSON makes of a configuration, number printing, and the clock.\<close>

record test_world =
  tw_client_ok :: bool
  tw_initialize_ok :: bool
  tw_list_tools :: "string list \<Rightarrow> string list option"
  tw_call :: call_world
  tw_daemon :: world
  tw_show_float :: "rat \<Rightarrow> string"
  tw_cbor_enc :: "params \<Rightarrow> string + bytes"
  tw_cbor_dec :: "bytes \<Rightarrow> string + params option"
  tw_read :: "string \<Rightarrow> string + string"
  tw_device_yaml :: "string \<Rightarrow> string + device_config"
  tw_global_yaml :: "string \<Rightarrow> global_config \<Rightarrow> string + global_config"
  tw_env :: "string \<Rightarrow> string"
  tw_wire :: "device_config \<Rightarrow> device_config"
  tw_now :: go_time
  tw_later :: go_time

section \<open>The sections of the script\<close>

definition gw_1 :: gateway_meta where
  "gw_1 = \<lparr>gw_id = ''gw_1'', gw_url = ''http://192.168.1.50:8080'', gw_devices = [''shelf_01'', ''shelf_02''],
     gw_last_heartbeat = 0, gw_status = []\<rparr>"

definition sidecar_answers :: "test_world \<Rightarrow> (string \<times> side_result option) list" where
  "sidecar_answers tw =
     run_ops ((tw_call tw)\<lparr>cx_router := Some (NewRouter [] (300 * second) None)\<rparr>)
       [Calls ''list_devices'' ''__system__.list_devices'' GNil,
        Does (\<lambda>(rt, sd). and_then (rt_Register (tw_now tw) gw_1 rt) (\<lambda>(_, rt). Done (rt, sd))),
        Calls ''list_devices (registered)'' ''__system__.list_devices'' GNil,
        Calls ''diagnose (shelf_01)'' ''__system__.diagnose_connectivity'' (GMap [(''device_id'', GStr ''shelf_01'')]),
        Calls ''diagnose (unknown_dev)'' ''__system__.diagnose_connectivity'' (GMap [(''device_id'', GStr ''unknown_dev'')]),
        Calls ''get_job_status (nonexistent)'' ''__system__.get_job_status'' (GMap [(''job_id'', GStr ''nonexistent'')]),
        Does (\<lambda>(rt, sd). Done (rt, sd\<lparr>sd_progress := UpdateProgress ''job_test_1'' 50 ''running''
          (pt_Register (tw_now tw) ''job_test_1'' ''req_001'' ''shelf_01'' (sd_progress sd))\<rparr>)),
        Calls ''get_job_status (job_test_1)'' ''__system__.get_job_status'' (GMap [(''job_id'', GStr ''job_test_1'')])]
       (NewRouteTable, NewSidecarServer NewDedupWindow NewProgressTracker)"

text \<open>The script goes on after a call whatever the tool answers, an error text included.\<close>

definition sidecar_checks :: "test_world \<Rightarrow> checks" where
  "sidecar_checks tw =
     [(''client'', tw_client_ok tw), (''Initialize'', tw_initialize_ok tw),
      (''ListTools'', tw_list_tools tw (map fst (sd_tools (NewSidecarServer NewDedupWindow NewProgressTracker))) \<noteq> None)]
     @ map (\<lambda>(l, answer). (l, answer \<noteq> None)) (sidecar_answers tw)"

text \<open>A file that cannot be loaded is only warned about; \<open>cfg.Capabilities[0]\<close> panics on an empty list.\<close>

definition yaml_checks :: "test_world \<Rightarrow> checks" where
  "yaml_checks tw =
     (case LoadDeviceConfig (tw_read tw) (tw_device_yaml tw) ''configs/example_device.yaml'' of
        Inl e \<Rightarrow> [(''yaml warning'', True)]
      | Inr cfg \<Rightarrow> [(''yaml'', True), (''compile'', dc_capabilities cfg \<noteq> [])])"

definition plain_property :: "string \<Rightarrow> int list \<Rightarrow> property_schema" where
  "plain_property ty enums = \<lparr>ps_type = ty, ps_enum = enums, ps_unit = [], ps_min = None, ps_max = None\<rparr>"

definition relay_config :: device_config where
  "relay_config = \<lparr>dc_device = \<lparr>dev_id = ''shelf_01'', dev_name = utf8 [0xE8, 0xB4, 0xA7, 0xE6, 0x9E, 0xB6, 0xE6, 0x8E, 0xA7, 0xE5, 0x88, 0xB6, 0xE5, 0x99, 0xA8],
       dev_type = ''mcu_proxy'', dev_capabilities = []\<rparr>,
     dc_capabilities = [\<lparr>cap_name = ''set_relay'',
       cap_description = utf8 [0xE6, 0x8E, 0xA7, 0xE5, 0x88, 0xB6, 0xE7, 0xBB, 0xA7, 0xE7, 0x94, 0xB5, 0xE5, 0x99, 0xA8], cap_intent_id = 0,
       cap_input_schema = \<lparr>is_type = ''object'',
         is_properties = [(''pin'', plain_property ''integer'' [1, 2, 3]), (''state'', plain_property ''boolean'' [])],
         is_required = [''pin'', ''state'']\<rparr>,
       cap_implementation = zero_implementation\<lparr>im_proxy := ''uart'', im_protocol := ''uRPC'',
         im_cmd_map := [(''set_relay'', \<lparr>cm_cmd = 161, cm_fmt = ''{pin} {state}''\<rparr>)]\<rparr>\<rparr>]\<rparr>"

definition daemon_checks :: "test_world \<Rightarrow> checks" where
  "daemon_checks tw =
     (let ds = NewDaemonServer ''gw_test'' 0 [] None;
          ds = ds\<lparr>ds_registry := reg_Register (tw_now tw) relay_config (ds_registry ds)\<rparr>;
          ds = registerDeviceTools relay_config ds
      in [(''daemon client'', tw_client_ok tw), (''daemon Initialize'', tw_initialize_ok tw),
          (''daemon tools'', tw_list_tools tw (map fst (ds_tools ds)) = Some [''shelf_01.set_relay''])])"

definition dcp_checks :: "test_world \<Rightarrow> checks" where
  "dcp_checks tw =
     (let intentID = IntentID ''shelf_01.set_relay'';
          ps = [(''pin'', GFloat 1), (''state'', GBool True)]
      in [(''encode call'', \<not> isl (EncodeDCPCall (tw_cbor_enc tw) 1 intentID ps)),
          (''encode dry-run'', \<not> isl (EncodeDCPDryRun (tw_cbor_enc tw) 1 intentID ps)),
          (''decode'', case EncodeDCPCall (tw_cbor_enc tw) 1 intentID ps of
              Inl e \<Rightarrow> False
            | Inr f \<Rightarrow> (case DecodeDCPFrame (tw_cbor_dec tw) f of Inl e \<Rightarrow> False | Inr frame \<Rightarrow> True)),
          (''encode reply'', \<not> isl (EncodeDCPReply (tw_cbor_enc tw) 1 intentID DCPReplyOK [(''queue_depth'', GInt 0)]))])"

text \<open>The script prints the first 20 and the last 8 characters of the token, which must exist.\<close>

definition token_checks :: "test_world \<Rightarrow> checks" where
  "token_checks tw =
     (let tm = NewTokenManager ''test-integration-secret'';
          token = Mint tm (Some [''shelf_01.set_relay'', ''shelf_01.read_temp'']) (3600 * second) (tw_now tw)
      in [(''mint'', 20 \<le> length token),
          (''verify'', case Verify tm token (tw_later tw) of Inl e \<Rightarrow> False | Inr claims \<Rightarrow> True),
          (''allowed'', case Verify tm token (tw_later tw) of Inl e \<Rightarrow> False | Inr claims \<Rightarrow> CheckCap claims ''shelf_01.set_relay''),
          (''denied'', case Verify tm token (tw_later tw) of Inl e \<Rightarrow> False | Inr claims \<Rightarrow> \<not> CheckCap claims ''motor.start'')])"

definition shell_exec :: "string \<Rightarrow> capability" where
  "shell_exec description = \<lparr>cap_name = ''shell_exec'', cap_description = description, cap_intent_id = 0,
     cap_input_schema = zero_schema, cap_implementation = zero_implementation\<lparr>im_native := ''shell'', im_timeout_ms := 5000\<rparr>\<rparr>"

definition shell_result :: "test_world \<Rightarrow> params \<Rightarrow> native_result" where
  "shell_result tw ps = fst (ShellExecute (wd_show_g (tw_daemon tw)) (wd_windows (tw_daemon tw)) (wd_run (tw_daemon tw)) (shell_exec []) ps)"

definition shell_checks :: "test_world \<Rightarrow> checks" where
  "shell_checks tw =
     [(''shell'', nr_status (shell_result tw [(''command'', GStr ''echo hello_devagent'')]) = ''ok''),
      (''shell error'', nr_status (shell_result tw [(''command'', GStr ''exit 1'')]) = ''error''),
      (''shell missing param'', nr_status (shell_result tw []) = ''error'')]"

definition command_schema :: input_schema where
  "command_schema = \<lparr>is_type = ''object'', is_properties = [(''command'', plain_property ''string'' [])],
     is_required = [''command'']\<rparr>"

definition shell_text :: string where
  "shell_text = utf8 [0xE6, 0x89, 0xA7, 0xE8, 0xA1, 0x8C] @ ''shell'' @ utf8 [0xE5, 0x91, 0xBD, 0xE4, 0xBB, 0xA4]"

definition direct_config :: "string \<Rightarrow> string \<Rightarrow> device_config" where
  "direct_config d name = \<lparr>dc_device = \<lparr>dev_id = d, dev_name = name, dev_type = ''direct'', dev_capabilities = []\<rparr>,
     dc_capabilities = [(shell_exec shell_text)\<lparr>cap_input_schema := command_schema\<rparr>]\<rparr>"

definition pc_config :: device_config where
  "pc_config = direct_config ''my_pc'' (utf8 [0xE6, 0x88, 0x91, 0xE7, 0x9A, 0x84, 0xE7, 0x94, 0xB5, 0xE8, 0x84, 0x91])"

definition invoke_body :: "string \<Rightarrow> string \<Rightarrow> string \<Rightarrow> sse_message" where
  "invoke_body requestID deviceID command = zero_message\<lparr>sm_type := ''invoke'', sm_request_id := requestID,
     sm_device_id := deviceID, sm_capability := ''shell_exec'', sm_params := GMap [(''command'', GStr command)]\<rparr>"

text \<open>A POST to \<open>/invoke\<close> and the status the client decodes from the answer (empty if it cannot).\<close>

definition posted :: "test_world \<Rightarrow> string \<Rightarrow> sse_message \<Rightarrow> http_request" where
  "posted tw auth msg = \<lparr>hr_method = ''POST'', hr_remote_addr = ''127.0.0.1:40000'', hr_authorization = auth,
     hr_body = Inr (msg_Marshal (tw_show_float tw) msg)\<rparr>"

definition post :: "test_world \<Rightarrow> string \<Rightarrow> sse_message \<Rightarrow> daemon_server \<Rightarrow> string option \<times> daemon_server" where
  "post tw auth msg ds =
     (case handleHTTPInvoke (tw_daemon tw) (tw_later tw) (posted tw auth msg) ds of
        None \<Rightarrow> (None, ds)
      | Some (r, _, ds) \<Rightarrow>
          (case answer_body (tw_show_float tw) r of
             Inl e \<Rightarrow> (None, ds)
           | Inr text \<Rightarrow> (case ParseSSEMessage (wd_float_of (tw_daemon tw)) text of
               None \<Rightarrow> (Some [], ds) | Some m \<Rightarrow> (Some (sm_status m), ds))))"

definition http_checks :: "test_world \<Rightarrow> checks" where
  "http_checks tw =
     (let ds = NewDaemonServer ''gw_http_test'' 0 [] None;
          ds = ds\<lparr>ds_registry := reg_Register (tw_now tw) pc_config (ds_registry ds)\<rparr>;
          got = (case handleHTTPDevices (tw_later tw) \<lparr>hr_method = ''GET'', hr_remote_addr = ''127.0.0.1:40000'',
               hr_authorization = [], hr_body = Inr []\<rparr> ds of
             Replied st (BDevices cfgs) \<Rightarrow> map (\<lambda>c. dev_id (dc_device (tw_wire tw c))) cfgs
           | _ \<Rightarrow> []);
          (st1, ds) = post tw [] (invoke_body ''req_test_1'' ''my_pc'' ''echo invoke_test'') ds;
          (st2, ds) = post tw [] (invoke_body ''req_test_2'' ''unknown_device'' ''echo test'') ds
      in [(''devices'', got = [''my_pc'']),
          (''invoke'', st1 = Some ''ok''),
          (''invoke unknown'', st2 = Some ''device_not_found'')])"

text \<open>A configuration of which only the token is given.\<close>

definition zero_config :: global_config where
  "zero_config = \<lparr>
     gc_sidecar = \<lparr>sc_mdns_interval = 0, sc_dedup_ttl = 0, sc_health_check_interval = 0, sc_maintenance_timeout = 0,
       sc_heartbeat_timeout = 0, sc_static_gateways = []\<rparr>,
     gc_daemon = \<lparr>dm_heartbeat_interval = 0, dm_heartbeat_timeout = 0, dm_state_path = []\<rparr>,
     gc_log_level = [], gc_token = \<lparr>tk_secret = [], tk_default_ttl = 0\<rparr>, gc_tls = \<lparr>tls_cert = [], tls_key = []\<rparr>\<rparr>"

definition auth_checks :: "test_world \<Rightarrow> checks" where
  "auth_checks tw =
     (let ds = NewDaemonServer ''gw_auth_test'' 0 []
            (Some (zero_config\<lparr>gc_token := \<lparr>tk_secret = ''auth-test-secret'', tk_default_ttl = 3600 * second\<rparr>\<rparr>));
          ds = ds\<lparr>ds_registry := reg_Register (tw_now tw) pc_config (ds_registry ds)\<rparr>;
          msg = invoke_body ''req_test_1'' ''my_pc'' ''echo invoke_test'';
          token = Mint (NewTokenManager ''auth-test-secret'') (Some [''my_pc.shell_exec'']) (3600 * second) (tw_now tw);
          (st1, ds) = post tw [] msg ds;
          (st2, ds) = post tw (''Bearer '' @ token) msg ds
      in [(''no auth'', st1 = Some ''unauthorized''), (''auth'', st2 = Some ''ok'')])"

definition auto_config :: device_config where
  "auto_config = direct_config ''auto_pc'' (utf8 [0xE8, 0x87, 0xAA, 0xE5, 0x8A, 0xA8, 0xE6, 0xB3, 0xA8, 0xE5, 0x86, 0x8C, 0xE7, 0x94, 0xB5, 0xE8, 0x84, 0x91])"

definition discovery_checks :: "test_world \<Rightarrow> checks" where
  "discovery_checks tw =
     (let router = NewRouter [] (300 * second) None;
          cfg = tw_wire tw auto_config;
          http_get = (\<lambda>u a. if u = ''http://127.0.0.1:40001/devices'' then Inr [cfg] else Inl ''404'') in
      case fetchAndRegisterDevices router (Some RegisterDeviceTools) http_get (tw_now tw) ''gw_auto'' ''http://127.0.0.1:40001''
          (NewRouteTable, NewSidecarServer NewDedupWindow NewProgressTracker) of
        Blocked \<Rightarrow> [(''registered'', False)]
      | Done (rt, sd) \<Rightarrow>
          [(''registered'', gm_get (sd_configs sd) (dev_id (dc_device cfg)) \<noteq> None),
           (''tool found'', ''auto_pc.shell_exec'' \<in> set (map fst (sd_tools sd)))])"

definition config_checks :: "test_world \<Rightarrow> checks" where
  "config_checks tw =
     (let ttl_ok = (\<lambda>r. case r of Inl e \<Rightarrow> False | Inr g \<Rightarrow> sc_dedup_ttl (gc_sidecar g) = 3 * second) in
      [(''default config'', ttl_ok (Load (tw_read tw) (tw_global_yaml tw) (tw_env tw) [])),
       (''file config'', ttl_ok (Load (tw_read tw) (tw_global_yaml tw) (tw_env tw) ''configs/devagent.yaml''))])"

definition integration_test :: "test_world \<Rightarrow> script_end" where
  "integration_test tw = run_checks (sidecar_checks tw @ yaml_checks tw @ daemon_checks tw @ dcp_checks tw
     @ token_checks tw @ shell_checks tw @ http_checks tw @ auth_checks tw @ discovery_checks tw @ config_checks tw)"

end
