(* ===== verification/IntegrationRun.thy ===== *)
theory IntegrationRun
  imports IntegrationTest
begin

text \<open>
  What the repository's integration test does when it is run on the model: each section of the
  script passes in every world that treats the script's inputs as documented.
\<close>

section \<open>Checks that pass\<close>

lemma run_checks_all: "run_checks (map (\<lambda>l. (l, True)) ls) = AllPassed ls"
  by (induction ls) auto

section \<open>The sidecar\<close>

text \<open>The MCP library: a client connects, sees the server's tools and no others, and the server reads
  the string arguments it is given.\<close>

definition client_ok :: "test_world \<Rightarrow> bool" where
  "client_ok tw \<longleftrightarrow> tw_client_ok tw \<and> tw_initialize_ok tw
     \<and> (\<exists>names. tw_list_tools tw (map fst system_tools) = Some names) \<and> tw_list_tools tw [''shelf_01.set_relay''] = Some [''shelf_01.set_relay'']
     \<and> (\<forall>k v. cx_require_string (tw_call tw) (GMap [(k, GStr v)]) k = Inr v)"

lemma run_system_call:
  assumes "sd_tools (snd s) = system_tools" and "(name, t, h) \<in> set system_tools" and "run_handler cx h args s = Done (res, s')"
  shows "run_ops cx (Calls label name args # ops) s = (label, Some res) # run_ops cx ops s'"
proof -
  have "gm_get system_tools name = Some (t, h)" using assms(2) by (simp add: gm_get_iff [OF system_tools_ok])
  then show ?thesis using assms(1,3) by (simp add: CallTool_def)
qed

text \<open>The rows of the two devices, and what the way to the gateway is found to be.\<close>

definition shelf_row :: "test_world \<Rightarrow> string \<Rightarrow> device_row" where
  "shelf_row tw d = \<lparr>dr_device_id = d, dr_gateway_id = ''gw_1'', dr_gateway_url = ''http://192.168.1.50:8080'',
     dr_status = ''online'', dr_last_heartbeat = unix (tw_now tw)\<rparr>"

definition gateway_found :: "test_world \<Rightarrow> string" where
  "gateway_found tw =
     (case await (cx_probe (tw_call tw) ''http://192.168.1.50:8080/readyz'' None) of
        None \<Rightarrow> ''unreachable'' | Some BadBody \<Rightarrow> ''unknown'' | Some (Ready serial n) \<Rightarrow> if serial \<and> n > 0 then ''ok'' else ''not_ready'')"

definition expected_answers :: "test_world \<Rightarrow> (string \<times> side_result) list" where
  "expected_answers tw =
     [(''list_devices'', SideRows []),
      (''list_devices (registered)'', SideRows [shelf_row tw ''shelf_01'', shelf_row tw ''shelf_02'']),
      (''diagnose (shelf_01)'', SideJSON [(''device_id'', GStr ''shelf_01''), (''gateway_url'', GStr ''http://192.168.1.50:8080''),
          (''gateway_status'', GStr ''online''), (''sidecar_to_gateway'', GStr ''ok''), (''gateway_to_device'', GStr (gateway_found tw)),
          (''heartbeat_age_sec'', GInt (if unix (tw_now tw) > 0 then unix (cx_now (tw_call tw)) - unix (tw_now tw) else -1))]),
      (''diagnose (unknown_dev)'', SideJSON [(''device_id'', GStr ''unknown_dev''), (''sidecar_to_gateway'', GStr ''route_not_found''),
          (''gateway_to_device'', GStr ''unknown'')]),
      (''get_job_status (nonexistent)'', SideError ''job nonexistent not found''),
      (''get_job_status (job_test_1)'', SideJob \<lparr>job_id = ''job_test_1'', job_request_id = ''req_001'', job_device_id = ''shelf_01'',
          job_status = ''running'', job_progress = 50, job_result = GNil, job_error = [], job_created_at = tw_now tw\<rparr>)]"

lemma system_entries:
  "\<exists>t. (''__system__.list_devices'', t, ListDevicesTool) \<in> set system_tools"
  "\<exists>t. (''__system__.diagnose_connectivity'', t, DiagnoseTool) \<in> set system_tools"
  "\<exists>t. (''__system__.get_job_status'', t, GetJobStatusTool) \<in> set system_tools"
  by (auto simp: system_tools_def system_tool_def)

lemma sidecar_answered:
  assumes "client_ok tw"
  shows "sidecar_answers tw = map (map_prod id Some) (expected_answers tw)"
proof -
  let ?sd = "NewSidecarServer NewDedupWindow NewProgressTracker" and ?cx = "(tw_call tw)\<lparr>cx_router := Some (NewRouter [] (300 * second) None)\<rparr>"
  let ?pt = "UpdateProgress ''job_test_1'' 50 ''running'' (pt_Register (tw_now tw) ''job_test_1'' ''req_001'' ''shelf_01'' (sd_progress ?sd))"
  let ?rt = "Register_body (tw_now tw) gw_1 NewRouteTable"
  have n: "sd_tools ?sd = system_tools" "sd_tools (?sd\<lparr>sd_progress := p\<rparr>) = system_tools" for p by (simp_all add: NewSidecarServer_def)
  have f: "rt_mu NewRouteTable = Free" "rt_mu ?rt = Free" by (simp_all add: NewRouteTable_def)
  have arg: "cx_require_string (tw_call tw) (GMap [(k, GStr v)]) k = Inr v" for k v using assms by (simp add: client_ok_def)
  obtain t1 t2 t3 where t: "(''__system__.list_devices'', t1, ListDevicesTool) \<in> set system_tools"
    "(''__system__.diagnose_connectivity'', t2, DiagnoseTool) \<in> set system_tools"
    "(''__system__.get_job_status'', t3, GetJobStatusTool) \<in> set system_tools" using system_entries by blast
  have rows: "AllDevices_body NewRouteTable = []" "AllDevices_body ?rt = [shelf_row tw ''shelf_01'', shelf_row tw ''shelf_02'']"
    by (simp_all add: AllDevices_body_def NewRouteTable_def Register_body_def gw_1_def gm_get_def gm_put_def shelf_row_def GatewayOnline_def)
  have routes: "Lookup_body ''shelf_01'' ?rt = Some ''http://192.168.1.50:8080''" "Lookup_body ''unknown_dev'' ?rt = None"
    by (simp_all add: Lookup_body_def NewRouteTable_def Register_body_def gw_1_def gm_get_def gm_put_def)
  have auth: "setAuthHeader (NewRouter [] (300 * second) None) now = None" for now by (simp add: setAuthHeader_def NewRouter_def)
  have 1: "run_handler ?cx ListDevicesTool GNil (NewRouteTable, ?sd) = Done (SideRows [], (NewRouteTable, ?sd))"
    "run_handler ?cx ListDevicesTool GNil (?rt, ?sd) = Done (SideRows [shelf_row tw ''shelf_01'', shelf_row tw ''shelf_02''], (?rt, ?sd))"
    by (simp_all add: run_handler_def handleListDevices_def lift_rt_free AllDevices_free f rows)
  have 2: "run_handler ?cx DiagnoseTool (GMap [(''device_id'', GStr ''shelf_01'')]) (?rt, ?sd) = Done (snd (expected_answers tw ! 2), (?rt, ?sd))"
    by (simp add: run_handler_def handleDiagnose_def lift_rt_free Lookup_free AllDevices_free f rows routes arg auth expected_answers_def
        gateway_found_def Let_def shelf_row_def)
  have 3: "run_handler ?cx DiagnoseTool (GMap [(''device_id'', GStr ''unknown_dev'')]) (?rt, ?sd) = Done (snd (expected_answers tw ! 3), (?rt, ?sd))"
    by (simp add: run_handler_def handleDiagnose_def lift_rt_free Lookup_free f routes arg expected_answers_def)
  have 4: "run_handler ?cx GetJobStatusTool (GMap [(''job_id'', GStr ''nonexistent'')]) (?rt, ?sd)
      = Done (SideError ''job nonexistent not found'', (?rt, ?sd))"
    by (simp add: run_handler_def handleGetJobStatus_def arg GetJob_def NewSidecarServer_def NewProgressTracker_def gm_get_def)
  have 5: "run_handler ?cx GetJobStatusTool (GMap [(''job_id'', GStr ''job_test_1'')]) (?rt, ?sd\<lparr>sd_progress := ?pt\<rparr>)
      = Done (snd (expected_answers tw ! 5), (?rt, ?sd\<lparr>sd_progress := ?pt\<rparr>))"
    by (simp add: run_handler_def handleGetJobStatus_def arg GetJob_def UpdateProgress_def edit_job_def pt_Register_def
        NewSidecarServer_def NewProgressTracker_def expected_answers_def)
  note call = run_system_call [OF _ t(1) 1(1)] run_system_call [OF _ t(1) 1(2)] run_system_call [OF _ t(2) 2] run_system_call [OF _ t(2) 3]
    run_system_call [OF _ t(3) 4] run_system_call [OF _ t(3) 5]
  show ?thesis unfolding sidecar_answers_def
    by (simp add: call n Register_free f del: run_ops.simps(2)) (simp add: expected_answers_def)
qed

lemma sidecar_passes: "client_ok tw \<Longrightarrow>
   sidecar_checks tw = map (\<lambda>l. (l, True)) [''client'', ''Initialize'', ''ListTools'', ''list_devices'', ''list_devices (registered)'',
    ''diagnose (shelf_01)'', ''diagnose (unknown_dev)'', ''get_job_status (nonexistent)'', ''get_job_status (job_test_1)'']"
  by (auto simp: sidecar_checks_def sidecar_answered expected_answers_def client_ok_def NewSidecarServer_def)

section \<open>The daemon's tools, the frames, the token\<close>

lemma daemon_passes: "client_ok tw \<Longrightarrow>
   daemon_checks tw = map (\<lambda>l. (l, True)) [''daemon client'', ''daemon Initialize'', ''daemon tools'']"
  by (simp add: client_ok_def daemon_checks_def Let_def registerDeviceTools_def relay_config_def NewDaemonServer_def gm_put_def)

definition cbor_ok :: "test_world \<Rightarrow> bool" where
  "cbor_ok tw \<longleftrightarrow> (\<exists>bs p. tw_cbor_enc tw [(''pin'', GFloat 1), (''state'', GBool True)] = Inr bs \<and> length bs \<le> 64 \<and> tw_cbor_dec tw bs = Inr p)
     \<and> (\<exists>bs. tw_cbor_enc tw [(''status'', GStr ''ok''), (''result'', GMap [(''queue_depth'', GInt 0)])] = Inr bs)"

lemma dcp_passes:
  assumes "cbor_ok tw"
  shows "dcp_checks tw = map (\<lambda>l. (l, True)) [''encode call'', ''encode dry-run'', ''decode'', ''encode reply'']"
proof -
  obtain bs p where bs: "tw_cbor_enc tw [(''pin'', GFloat 1), (''state'', GBool True)] = Inr bs" "length bs \<le> 64"
    "tw_cbor_dec tw bs = Inr p"
    using assms unfolding cbor_ok_def by blast
  have call: "EncodeDCPCall (tw_cbor_enc tw) 1 i [(''pin'', GFloat 1), (''state'', GBool True)]
      = Inr (dcp_header DCPCall 1 i (length bs) @ bs)" for i
    using bs by (simp add: EncodeDCPCall_def DCPMaxPayload_def)
  have "case DecodeDCPFrame (tw_cbor_dec tw) (dcp_header DCPCall 1 i (length bs) @ bs) of Inl e \<Rightarrow> False | Inr f \<Rightarrow> True" for i
    using bs(2,3) decode_framed [of bs "tw_cbor_dec tw" DCPCall 1 i "[]"] by auto
  moreover obtain bs2 where "tw_cbor_enc tw [(''status'', GStr ''ok''), (''result'', GMap [(''queue_depth'', GInt 0)])] = Inr bs2"
    using assms by (auto simp: cbor_ok_def)
  ultimately show ?thesis
    by (simp add: dcp_checks_def Let_def call EncodeDCPDryRun_def EncodeDCPReply_def DCPReplyOK_def)
qed

definition clock_ok :: "test_world \<Rightarrow> bool" where
  "clock_ok tw \<longleftrightarrow> 0 \<le> tw_now tw \<and> tw_now tw \<le> tw_later tw \<and> unix (tw_later tw) \<le> unix (tw_now tw + 3600 * second)
     \<and> unix (tw_now tw + 3600 * second) < 2 ^ 63"

lemma length_b64: "length bs \<le> length (b64_encode bs)"
  by (induction bs rule: b64_encode.induct) (simp_all add: Let_def)

lemma clock_bounds:
  assumes "clock_ok tw"
  shows "- (2 ^ 63) \<le> unix (tw_now tw + 3600 * second)" and "- (2 ^ 63) \<le> unix (tw_later tw)" and "unix (tw_later tw) < 2 ^ 63"
proof -
  have "0 \<le> unix (tw_now tw + 3600 * second)" "0 \<le> unix (tw_later tw)"
    using assms by (simp_all add: clock_ok_def unix_def second_def pos_imp_zdiv_nonneg_iff)
  then show "- (2 ^ 63) \<le> unix (tw_now tw + 3600 * second)" "- (2 ^ 63) \<le> unix (tw_later tw)" by simp_all
  show "unix (tw_later tw) < 2 ^ 63" using assms by (simp add: clock_ok_def)
qed

lemma minted_verifies:
  "clock_ok tw \<Longrightarrow> list_all valid_utf8 caps \<Longrightarrow>
   Verify tm (Mint tm (Some caps) (3600 * second) (tw_now tw)) (tw_later tw)
     = Inr \<lparr>tc_caps = Some caps, tc_exp = unix (tw_now tw + 3600 * second)\<rparr>"
  using clock_bounds(1) by (intro Mint_accepted) (simp_all add: claims_ok_def clock_ok_def)

lemma token_passes_checks:
  assumes "clock_ok tw"
  shows "token_checks tw = map (\<lambda>l. (l, True)) [''mint'', ''verify'', ''allowed'', ''denied'']"
proof -
  have "valid_utf8 ''shelf_01.set_relay''" "valid_utf8 ''shelf_01.read_temp''" by code_simp+
  then have v: "Verify tm (Mint tm (Some [''shelf_01.set_relay'', ''shelf_01.read_temp'']) (3600 * second) (tw_now tw)) (tw_later tw)
     = Inr \<lparr>tc_caps = Some [''shelf_01.set_relay'', ''shelf_01.read_temp''], tc_exp = unix (tw_now tw + 3600 * second)\<rparr>" for tm
    by (intro minted_verifies [OF assms]) simp
  have "20 \<le> length (signature tm p)" for tm p
    using length_b64 [of "hmac_sha256 (tm_secret tm) (bytes_of_string p)"] by (simp add: signature_def)
  moreover have "length (signature tm (b64_encode (bytes_of_string (jprint (claims_json \<lparr>tc_caps = caps, tc_exp = unix (now + ttl)\<rparr>)))))
      \<le> length (Mint tm caps ttl now)" for tm caps ttl now by (simp add: Mint_def Let_def)
  ultimately have "20 \<le> length (Mint tm caps ttl now)" for tm caps ttl now by (meson order_trans)
  then show ?thesis by (simp add: token_checks_def Let_def v CheckCap_def)
qed

section \<open>The shell\<close>

definition shell_line :: "test_world \<Rightarrow> string \<Rightarrow> string list" where
  "shell_line tw cmd = shell_argv (wd_windows (tw_daemon tw)) cmd"

definition os_ok :: "test_world \<Rightarrow> bool" where
  "os_ok tw \<longleftrightarrow>
     (\<forall>cmd \<in> {''echo hello_devagent'', ''echo invoke_test''}. \<forall>t. \<exists>out err.
        wd_run (tw_daemon tw) t (shell_line tw cmd) = (Exited, out, err) \<and> valid_utf8 out \<and> valid_utf8 err)
     \<and> (\<forall>t. \<exists>msg out err. wd_run (tw_daemon tw) t (shell_line tw ''exit 1'') = (ExitError 1 msg, out, err))"

lemma test_commands_safe:
  "validateCommandSafety ''echo hello_devagent'' = None" "validateCommandSafety ''echo invoke_test'' = None"
  "validateCommandSafety ''exit 1'' = None"
  by code_simp+

lemma shell_unrestricted:
  assumes "validateCommandSafety cmd = None" and "cap_name c = ''shell_exec''"
    and "cap_implementation c = zero_implementation\<lparr>im_native := ''shell'', im_timeout_ms := 5000\<rparr>"
  shows "ShellExecute g windows run c [(''command'', GStr cmd)]
    = (finish (run (shell_timeout c) (shell_argv windows cmd)), Some (shell_argv windows cmd))"
  using assms by (simp add: ShellExecute_def shell_command_def zero_implementation_def Let_def gm_get_def)

lemma shell_passes:
  assumes "os_ok tw"
  shows "shell_checks tw = map (\<lambda>l. (l, True)) [''shell'', ''shell error'', ''shell missing param'']"
proof -
  have c: "cap_name (shell_exec []) = ''shell_exec''"
    "cap_implementation (shell_exec []) = zero_implementation\<lparr>im_native := ''shell'', im_timeout_ms := 5000\<rparr>"
    by (simp_all add: shell_exec_def)
  obtain o1 e1 where "wd_run (tw_daemon tw) (shell_timeout (shell_exec [])) (shell_line tw ''echo hello_devagent'') = (Exited, o1, e1)"
    using assms unfolding os_ok_def by blast
  then have 1: "nr_status (shell_result tw [(''command'', GStr ''echo hello_devagent'')]) = ''ok''"
    using shell_unrestricted [OF test_commands_safe(1) c] by (simp add: shell_result_def shell_line_def finish_def)
  obtain m o2 e2 where "wd_run (tw_daemon tw) (shell_timeout (shell_exec [])) (shell_line tw ''exit 1'') = (ExitError 1 m, o2, e2)"
    using assms unfolding os_ok_def by blast
  then have 2: "nr_status (shell_result tw [(''command'', GStr ''exit 1'')]) = ''error''"
    using shell_unrestricted [OF test_commands_safe(3) c] by (simp add: shell_result_def shell_line_def finish_def)
  have "nr_status (shell_result tw []) = ''error''"
    by (simp add: shell_result_def ShellExecute_def shell_command_def shell_exec_def zero_implementation_def denied_def gm_get_def)
  with 1 2 show ?thesis by (simp add: shell_checks_def)
qed

section \<open>Requests to the handlers\<close>

text \<open>Two requests from one address within a second are let through.\<close>

lemma limiter_lets_two_pass:
  "\<exists>rl. Allow now key (NewRateLimiter 30 second) = (True, rl) \<and> (\<exists>rl'. Allow now key rl = (True, rl'))"
proof -
  have "Allow now key (NewRateLimiter 30 second) = (True, \<lparr>rl_buckets = [(key, \<lparr>bk_tokens = 29, bk_last = now\<rparr>)],
      rl_rate = 30, rl_window = second, rl_last_sweep = Some now\<rparr>)"
    by (simp add: Allow_def NewRateLimiter_def sweep_if_due_def sweep_def take_token_def Let_def gm_prune_def gm_put_def gm_get_def)
  moreover have "\<exists>rl'. Allow now key \<lparr>rl_buckets = [(key, \<lparr>bk_tokens = 29, bk_last = now\<rparr>)],
      rl_rate = 30, rl_window = second, rl_last_sweep = Some now\<rparr> = (True, rl')"
    by (simp add: Allow_def sweep_if_due_def take_token_def Let_def gm_get_def second_def)
  ultimately show ?thesis by blast
qed

text \<open>The one number in the answers besides the time stamps is the exit code.\<close>

definition json_ok_world :: "test_world \<Rightarrow> bool" where
  "json_ok_world tw \<longleftrightarrow> wd_float_of (tw_daemon tw) (itoa 0) = Some 0"

lemma body_texts:
  "valid_utf8 ''invoke''" "valid_utf8 ''invoke_result''" "valid_utf8 ''my_pc''" "valid_utf8 ''unknown_device''" "valid_utf8 ''shell_exec''" "valid_utf8 ''command''"
  "valid_utf8 ''echo invoke_test''" "valid_utf8 ''echo test''" "valid_utf8 []" "valid_utf8 ''req_test_1''" "valid_utf8 ''req_test_2''" "valid_utf8 ''ok''"
  "valid_utf8 ''status''" "valid_utf8 ''stdout''" "valid_utf8 ''stderr''" "valid_utf8 ''exit_code''" "valid_utf8 ''unauthorized''" "valid_utf8 ''missing token''"
  "valid_utf8 ''device_not_found''"
  by code_simp+

lemma body_parses:
  assumes "valid_utf8 r" and "valid_utf8 d" and "valid_utf8 cmd"
  shows "ParseSSEMessage f (msg_Marshal sf (invoke_body r d cmd)) = Some (invoke_body r d cmd)"
proof -
  have "message_ok sf f (invoke_body r d cmd)"
    using assms by (simp add: message_ok_def invoke_body_def zero_message_def body_texts)
  from Parse_Marshal [OF this] show ?thesis by (simp add: message_read_def invoke_body_def zero_message_def)
qed

text \<open>What the client reads of an answer.\<close>

lemma status_read:
  assumes "handleHTTPInvoke (tw_daemon tw) (tw_later tw) (posted tw auth msg) ds = Some (Replied n (BMessage reply), started, ds')"
    and "message_ok (tw_show_float tw) (wd_float_of (tw_daemon tw)) reply"
  shows "post tw auth msg ds = (Some (sm_status reply), ds')"
  by (simp add: post_def assms(1) answer_body_def Parse_line [OF assms(2)] message_read_def)

text \<open>The two answers of the HTTP section.\<close>

lemma pc_registered:
  "GetDevice ''my_pc'' (reg_Register t pc_config NewDeviceRegistry) = Some \<lparr>rd_config = pc_config, rd_last_seen = t, rd_static = True\<rparr>"
  "GetDevice ''unknown_device'' (reg_Register t pc_config NewDeviceRegistry) = None"
  "ListDevices (reg_Register t pc_config NewDeviceRegistry) = [\<lparr>rd_config = pc_config, rd_last_seen = t, rd_static = True\<rparr>]"
  by (simp_all add: GetDevice_def ListDevices_def reg_Register_def put_device_def NewDeviceRegistry_def pc_config_def
      direct_config_def gm_put_def gm_get_def)

lemma shell_invoked:
  assumes "os_ok tw" and "GetDevice ''my_pc'' (ds_registry ds) = Some dev" and "rd_config dev = pc_config"
    and "ds_nativeHandlers ds = NewNativeHandlerRegistry"
  shows "\<exists>out err started. valid_utf8 out \<and> valid_utf8 err \<and> dispatch_invoke (tw_daemon tw) now (invoke_body r ''my_pc'' ''echo invoke_test'') ds
    = Some (Replied 200 (BMessage ((reply_message now (invoke_body r ''my_pc'' ''echo invoke_test''))\<lparr>sm_status := ''ok'',
        sm_result := result_goval (NativeResult \<lparr>nr_status = ''ok'', nr_stdout = out, nr_stderr = err, nr_exit_code = 0\<rparr>)\<rparr>)), started, ds)"
proof -
  let ?c = "(shell_exec shell_text)\<lparr>cap_input_schema := command_schema\<rparr>"
  have c: "cap_name ?c = ''shell_exec''"
    "cap_implementation ?c = zero_implementation\<lparr>im_native := ''shell'', im_timeout_ms := 5000\<rparr>"
    by (simp_all add: shell_exec_def)
  obtain out err where run: "wd_run (tw_daemon tw) (shell_timeout ?c) (shell_line tw ''echo invoke_test'') = (Exited, out, err)"
    and "valid_utf8 out" "valid_utf8 err" using assms(1) unfolding os_ok_def by blast
  moreover have "invokeCore (tw_daemon tw) ''my_pc'' ?c [(''command'', GStr ''echo invoke_test'')] ds
      = Some (Ret \<lparr>ir_status = ''ok'', ir_protocol = [], ir_result = NativeResult \<lparr>nr_status = ''ok'', nr_stdout = out,
          nr_stderr = err, nr_exit_code = 0\<rparr>, ir_intent = 0\<rparr>, Some (shell_line tw ''echo invoke_test''), ds)"
    using run shell_unrestricted [OF test_commands_safe(2) c, of "wd_show_g (tw_daemon tw)" "wd_windows (tw_daemon tw)" "wd_run (tw_daemon tw)"]
    by (simp add: invokeCore_def c(2) assms(4) ExecuteNative_def NewNativeHandlerRegistry_def shell_line_def finish_def Let_def gm_get_def)
  moreover have "dc_capabilities pc_config = [?c]" by (simp add: pc_config_def direct_config_def)
  ultimately show ?thesis
    by (intro exI [of _ out] exI [of _ err]) (simp add: dispatch_invoke_def invoke_body_def assms(2,3) c(1) request_params_def invoke_reply_def Let_def)
qed

lemma post_dispatched:
  assumes "Allow (tw_later tw) ''127.0.0.1:40000'' (ds_rateLimiter ds) = (True, rl)"
    and "valid_utf8 r" and "valid_utf8 d" and "valid_utf8 cmd"
    and "check_token (tw_later tw) (posted tw auth (invoke_body r d cmd)) (invoke_body r d cmd) (ds\<lparr>ds_rateLimiter := rl\<rparr>) = None"
    and "dispatch_invoke (tw_daemon tw) (tw_later tw) (invoke_body r d cmd) (ds\<lparr>ds_rateLimiter := rl\<rparr>)
      = Some (Replied n (BMessage reply), started, ds')"
    and "message_ok (tw_show_float tw) (wd_float_of (tw_daemon tw)) reply"
  shows "post tw auth (invoke_body r d cmd) ds = (Some (sm_status reply), ds')"
proof (rule status_read [OF _ assms(7)])
  show "handleHTTPInvoke (tw_daemon tw) (tw_later tw) (posted tw auth (invoke_body r d cmd)) ds
      = Some (Replied n (BMessage reply), started, ds')"
    using assms(1,5,6) by (simp add: handleHTTPInvoke_def posted_def body_parses [OF assms(2-4)])
qed

lemma post_refused:
  assumes "Allow (tw_later tw) ''127.0.0.1:40000'' (ds_rateLimiter ds) = (True, rl)"
    and "valid_utf8 r" and "valid_utf8 d" and "valid_utf8 cmd"
    and "check_token (tw_later tw) (posted tw auth (invoke_body r d cmd)) (invoke_body r d cmd) (ds\<lparr>ds_rateLimiter := rl\<rparr>)
      = Some (Replied n (BMessage reply))"
    and "message_ok (tw_show_float tw) (wd_float_of (tw_daemon tw)) reply"
  shows "post tw auth (invoke_body r d cmd) ds = (Some (sm_status reply), ds\<lparr>ds_rateLimiter := rl\<rparr>)"
proof (rule status_read [OF _ assms(6)])
  show "handleHTTPInvoke (tw_daemon tw) (tw_later tw) (posted tw auth (invoke_body r d cmd)) ds
      = Some (Replied n (BMessage reply), None, ds\<lparr>ds_rateLimiter := rl\<rparr>)"
    using assms(1,5) by (simp add: handleHTTPInvoke_def posted_def body_parses [OF assms(2-4)])
qed

lemma invoke_ok:
  assumes "os_ok tw" and "json_ok_world tw" and "clock_ok tw"
    and "Allow (tw_later tw) ''127.0.0.1:40000'' (ds_rateLimiter ds) = (True, rl)"
    and "GetDevice ''my_pc'' (ds_registry ds) = Some dev" and "rd_config dev = pc_config"
    and "ds_nativeHandlers ds = NewNativeHandlerRegistry"
    and "check_token (tw_later tw) (posted tw auth (invoke_body ''req_test_1'' ''my_pc'' ''echo invoke_test''))
      (invoke_body ''req_test_1'' ''my_pc'' ''echo invoke_test'') (ds\<lparr>ds_rateLimiter := rl\<rparr>) = None"
  shows "post tw auth (invoke_body ''req_test_1'' ''my_pc'' ''echo invoke_test'') ds = (Some ''ok'', ds\<lparr>ds_rateLimiter := rl\<rparr>)"
proof -
  let ?ds = "ds\<lparr>ds_rateLimiter := rl\<rparr>" and ?body = "invoke_body ''req_test_1'' ''my_pc'' ''echo invoke_test''"
  have "GetDevice ''my_pc'' (ds_registry ?ds) = Some dev" "ds_nativeHandlers ?ds = NewNativeHandlerRegistry"
    using assms(5,7) by simp_all
  from shell_invoked [OF assms(1) this(1) assms(6) this(2)] obtain out err started where texts: "valid_utf8 out" "valid_utf8 err"
    and d: "dispatch_invoke (tw_daemon tw) (tw_later tw) ?body ?ds = Some (Replied 200 (BMessage ((reply_message (tw_later tw) ?body)
        \<lparr>sm_status := ''ok'', sm_result := result_goval (NativeResult \<lparr>nr_status = ''ok'', nr_stdout = out, nr_stderr = err,
           nr_exit_code = 0\<rparr>)\<rparr>)), started, ?ds)" by blast
  have zero: "wd_float_of (tw_daemon tw) (itoa 0) = Some 0" using assms(2) by (simp add: json_ok_world_def)
  have ok: "message_ok (tw_show_float tw) (wd_float_of (tw_daemon tw)) ((reply_message (tw_later tw) ?body)
      \<lparr>sm_status := ''ok'', sm_result := result_goval (NativeResult \<lparr>nr_status = ''ok'', nr_stdout = out, nr_stderr = err,
         nr_exit_code = 0\<rparr>)\<rparr>)"
    using texts zero clock_bounds(2,3) [OF assms(3)]
    by (simp add: message_ok_def reply_message_def invoke_body_def zero_message_def body_texts)
  from post_dispatched [OF assms(4) _ _ _ assms(8) d ok] show ?thesis by (simp add: body_texts)
qed

lemma http_passes:
  assumes "os_ok tw" and "json_ok_world tw" and "clock_ok tw" and "wire_keeps (tw_wire tw) (Sanitized pc_config)"
  shows "http_checks tw = map (\<lambda>l. (l, True)) [''devices'', ''invoke'', ''invoke unknown'']"
proof -
  let ?new = "NewDaemonServer ''gw_http_test'' 0 [] None"
  let ?ds = "?new\<lparr>ds_registry := reg_Register (tw_now tw) pc_config (ds_registry ?new)\<rparr>"
  have new: "ds_rateLimiter ?new = NewRateLimiter 30 second" "ds_nativeHandlers ?new = NewNativeHandlerRegistry"
    "ds_tokenManager ?new = None" "ds_registry ?new = NewDeviceRegistry"
    by (simp_all add: NewDaemonServer_def Let_def DefaultGlobalConfig_def)
  note reg = pc_registered [of "tw_now tw"]
  obtain rl rl' where al: "Allow (tw_later tw) ''127.0.0.1:40000'' (ds_rateLimiter ?ds) = (True, rl)"
    "Allow (tw_later tw) ''127.0.0.1:40000'' rl = (True, rl')"
    using limiter_lets_two_pass [of "tw_later tw" "''127.0.0.1:40000''"] new(1) by auto
  let ?ds1 = "?ds\<lparr>ds_rateLimiter := rl\<rparr>" and ?b2 = "invoke_body ''req_test_2'' ''unknown_device'' ''echo test''"
  have p1: "post tw [] (invoke_body ''req_test_1'' ''my_pc'' ''echo invoke_test'') ?ds = (Some ''ok'', ?ds1)"
    by (rule invoke_ok [OF assms(1-3) al(1)]) (simp add: new reg, simp_all add: check_token_def new)
  let ?reply = "(reply_message (tw_later tw) ?b2)\<lparr>sm_capability := [], sm_status := StatusDeviceNotFound\<rparr>"
  have d2: "dispatch_invoke (tw_daemon tw) (tw_later tw) ?b2 (?ds1\<lparr>ds_rateLimiter := rl'\<rparr>)
      = Some (Replied 200 (BMessage ?reply), None, ?ds1\<lparr>ds_rateLimiter := rl'\<rparr>)"
    by (simp add: dispatch_invoke_def invoke_body_def new reg)
  have "message_ok (tw_show_float tw) (wd_float_of (tw_daemon tw)) ?reply"
    using clock_bounds(2,3) [OF assms(3)]
    by (simp add: message_ok_def reply_message_def invoke_body_def zero_message_def body_texts StatusDeviceNotFound_def)
  from post_dispatched [OF _ _ _ _ _ d2 this, of "[]"]
  have p2: "post tw [] ?b2 ?ds1 = (Some ''device_not_found'', ?ds1\<lparr>ds_rateLimiter := rl'\<rparr>)"
    using al(2) by (simp add: body_texts check_token_def StatusDeviceNotFound_def new)
  have w: "dev_id (dc_device (tw_wire tw (Sanitized pc_config))) = ''my_pc''"
    using assms(4) by (simp add: wire_keeps_def Sanitized_def pc_config_def direct_config_def)
  show ?thesis
    unfolding http_checks_def Let_def p1 p2 prod.case
    by (simp add: w handleHTTPDevices_def authorized_def new reg)
qed

lemma auth_passes:
  assumes "os_ok tw" and "json_ok_world tw" and "clock_ok tw"
  shows "auth_checks tw = map (\<lambda>l. (l, True)) [''no auth'', ''auth'']"
proof -
  let ?new = "NewDaemonServer ''gw_auth_test'' 0 [] (Some (zero_config\<lparr>gc_token := \<lparr>tk_secret = ''auth-test-secret'', tk_default_ttl = 3600 * second\<rparr>\<rparr>))"
  let ?ds = "?new\<lparr>ds_registry := reg_Register (tw_now tw) pc_config (ds_registry ?new)\<rparr>"
  let ?tm = "NewTokenManager ''auth-test-secret''" let ?b = "invoke_body ''req_test_1'' ''my_pc'' ''echo invoke_test''"
  have new: "ds_rateLimiter ?new = NewRateLimiter 30 second" "ds_nativeHandlers ?new = NewNativeHandlerRegistry"
    "ds_tokenManager ?new = Some ?tm" "ds_registry ?new = NewDeviceRegistry"
    by (simp_all add: NewDaemonServer_def Let_def)
  note reg = pc_registered [of "tw_now tw"]
  obtain rl rl' where al: "Allow (tw_later tw) ''127.0.0.1:40000'' (ds_rateLimiter ?ds) = (True, rl)"
    "Allow (tw_later tw) ''127.0.0.1:40000'' rl = (True, rl')"
    using limiter_lets_two_pass [of "tw_later tw" "''127.0.0.1:40000''"] new(1) by auto
  let ?ds1 = "?ds\<lparr>ds_rateLimiter := rl\<rparr>"
  let ?no = "result_message (tw_later tw) StatusUnauthorized ''missing token''"
  have c1: "check_token (tw_later tw) (posted tw [] ?b) ?b ?ds1 = Some (Replied 200 (BMessage ?no))"
    by (simp add: check_token_def new posted_def trim_bearer_def Let_def)
  have "message_ok (tw_show_float tw) (wd_float_of (tw_daemon tw)) ?no"
    using clock_bounds(2,3) [OF assms(3)]
    by (simp add: message_ok_def result_message_def zero_message_def body_texts StatusUnauthorized_def)
  from post_refused [OF al(1) _ _ _ c1 this]
  have p1: "post tw [] ?b ?ds = (Some ''unauthorized'', ?ds1)"
    by (simp add: body_texts result_message_def StatusUnauthorized_def)
  let ?token = "Mint ?tm (Some [''my_pc.shell_exec'']) (3600 * second) (tw_now tw)"
  have "valid_utf8 ''my_pc.shell_exec''" by code_simp
  then have v: "Verify ?tm ?token (tw_later tw) = Inr \<lparr>tc_caps = Some [''my_pc.shell_exec''], tc_exp = unix (tw_now tw + 3600 * second)\<rparr>"
    by (intro minted_verifies [OF assms(3)]) simp
  have c2: "check_token (tw_later tw) (posted tw (''Bearer '' @ ?token) ?b) ?b (?ds1\<lparr>ds_rateLimiter := rl'\<rparr>) = None"
    using v by (simp add: check_token_def new posted_def trim_bearer_def Let_def Mint_not_empty CheckCap_def invoke_body_def)
  have p2: "post tw (''Bearer '' @ ?token) ?b ?ds1 = (Some ''ok'', ?ds1\<lparr>ds_rateLimiter := rl'\<rparr>)"
    by (rule invoke_ok [OF assms _ _ _ _ c2]) (simp add: al(2), simp add: new reg, simp_all add: new)
  show ?thesis unfolding auth_checks_def Let_def p1 p2 prod.case by simp
qed

section \<open>Discovery and configuration\<close>

lemma discovery_passes:
  assumes "wire_keeps (tw_wire tw) auto_config"
  shows "discovery_checks tw = map (\<lambda>l. (l, True)) [''registered'', ''tool found'']"
proof -
  let ?sd = "NewSidecarServer NewDedupWindow NewProgressTracker" and ?cfg = "tw_wire tw auto_config"
  have id: "dev_id (dc_device ?cfg) = ''auto_pc''"
    using assms by (simp add: wire_keeps_def auto_config_def direct_config_def)
  have "map cap_name (dc_capabilities ?cfg) = [''shell_exec'']"
    using assms by (simp add: wire_keeps_def auto_config_def direct_config_def shell_exec_def)
  then obtain c where c: "dc_capabilities ?cfg = [c]" "cap_name c = ''shell_exec''" by (auto simp: map_eq_Cons_conv)
  have free: "rt_mu NewRouteTable = Free" by (simp add: NewRouteTable_def)
  obtain st where st: "getGatewayStatus (dev_id (dc_device ?cfg)) NewRouteTable = Done (st, NewRouteTable)"
    using getGatewayStatus_free [OF free] by blast
  let ?sd' = "compile_all ?cfg (st = GatewayMaintenance) (?sd\<lparr>sd_configs := gm_put ''auto_pc'' ?cfg (sd_configs ?sd)\<rparr>)"
  have r: "RegisterDeviceTools ?cfg (NewRouteTable, ?sd) = Done (NewRouteTable, ?sd')"
    using st by (simp add: RegisterDeviceTools_def Let_def id)
  have configs: "gm_get (sd_configs ?sd') ''auto_pc'' = Some ?cfg" by simp
  have "gm_get (sd_tools ?sd') ''auto_pc.shell_exec'' \<noteq> None"
    by (simp add: compile_all_tools id c)
  then have tools: "''auto_pc.shell_exec'' \<in> set (map fst (sd_tools ?sd'))"
    using gm_get_in_set [of "sd_tools ?sd'"] by force
  show ?thesis
    using configs tools unfolding discovery_checks_def Let_def
    by (simp add: fetchAndRegisterDevices_def r id lift_rt_def AddDevice_free free del: compile_all_fields)
qed

text \<open>What the YAML library makes of the two files of \<open>configs\<close> the script loads.\<close>

definition files_ok :: "test_world \<Rightarrow> bool" where
  "files_ok tw \<longleftrightarrow> tw_env tw = (\<lambda>_. [])
     \<and> (\<forall>data cfg. tw_read tw ''configs/example_device.yaml'' = Inr data \<longrightarrow> tw_device_yaml tw data = Inr cfg \<longrightarrow> dc_capabilities cfg \<noteq> [])
     \<and> (\<exists>data. tw_read tw ''configs/devagent.yaml'' = Inr data \<and> (\<forall>cfg. tw_global_yaml tw data cfg
          = Inr (cfg\<lparr>gc_sidecar := (gc_sidecar cfg)\<lparr>sc_mdns_interval := 10 * second, sc_dedup_ttl := 3 * second,
                sc_heartbeat_timeout := 60 * second, sc_static_gateways := []\<rparr>,
              gc_daemon := (gc_daemon cfg)\<lparr>dm_heartbeat_interval := 30 * second, dm_heartbeat_timeout := 60 * second\<rparr>,
              gc_log_level := ''info'', gc_token := \<lparr>tk_secret = [], tk_default_ttl = 3600 * second\<rparr>\<rparr>)))"

lemma yaml_passes: "files_ok tw \<Longrightarrow>
   \<exists>yaml \<in> {[''yaml warning''], [''yaml'', ''compile'']}. yaml_checks tw = map (\<lambda>l. (l, True)) yaml"
  by (auto simp: yaml_checks_def files_ok_def LoadDeviceConfig_def split: sum.splits)

lemma config_passes: "files_ok tw \<Longrightarrow> config_checks tw = map (\<lambda>l. (l, True)) [''default config'', ''file config'']"
  by (auto simp: config_checks_def files_ok_def Load_def applyEnvOverrides_def override_def Let_def Validate_ok_iff [symmetric]
      Validate_def DefaultGlobalConfig_def second_def)

section \<open>The whole script\<close>

definition test_world_ok :: "test_world \<Rightarrow> bool" where
  "test_world_ok tw \<longleftrightarrow> client_ok tw \<and> cbor_ok tw \<and> clock_ok tw \<and> os_ok tw \<and> json_ok_world tw \<and> files_ok tw
     \<and> wire_keeps (tw_wire tw) (Sanitized pc_config) \<and> wire_keeps (tw_wire tw) auto_config"

definition passed_checks :: "string list \<Rightarrow> string list" where
  "passed_checks yaml =
     [''client'', ''Initialize'', ''ListTools'', ''list_devices'', ''list_devices (registered)'', ''diagnose (shelf_01)'', ''diagnose (unknown_dev)'',
      ''get_job_status (nonexistent)'', ''get_job_status (job_test_1)''] @ yaml @
     [''daemon client'', ''daemon Initialize'', ''daemon tools'', ''encode call'', ''encode dry-run'', ''decode'', ''encode reply'', ''mint'', ''verify'', ''allowed'',
      ''denied'', ''shell'', ''shell error'', ''shell missing param'', ''devices'', ''invoke'', ''invoke unknown'',
      ''no auth'', ''auth'', ''registered'', ''tool found'', ''default config'', ''file config'']"

text \<open>C19: the repository's integration test passes on the model. Its world is as follows: the MCP
  library connects, lists the tools there are and hands string arguments over; the CBOR library
  encodes the call's arguments in 64 bytes at most, reads them back, and encodes the reply; the clock
  starts after 1970, does not go back, fits in 64 bits and is read again within the hour for which
  the tokens are minted; the shell runs the two echo commands with exit code 0 and output in UTF-8,
  and exit 1 with code 1; JSON reads the number 0 back and keeps the ids and capability names of the
  two configurations sent; \<open>configs/devagent.yaml\<close> holds what it holds, no environment variable is
  set, and the example device file, if it can be loaded, has a capability. Then the script gets
  through every one of its checks, in order; only that example file may be missing. The script does
  not look at what the six calls of system tools answer; they answer: no device, the two devices of
  the gateway registered, the way to the first, no route to the unknown one, no such job, and the
  job at 50 percent.\<close>

theorem integration_test_passes:
  assumes "test_world_ok tw"
  shows "(\<exists>yaml \<in> {[''yaml warning''], [''yaml'', ''compile'']}. integration_test tw = AllPassed (passed_checks yaml))
    \<and> sidecar_answers tw = map (map_prod id Some) (expected_answers tw)"
proof -
  have c: "client_ok tw" and w: "cbor_ok tw" "clock_ok tw" "os_ok tw" "json_ok_world tw" "wire_keeps (tw_wire tw) (Sanitized pc_config)"
    "wire_keeps (tw_wire tw) auto_config" "files_ok tw"
    using assms by (simp_all add: test_world_ok_def)
  obtain yaml where "yaml \<in> {[''yaml warning''], [''yaml'', ''compile'']}" "yaml_checks tw = map (\<lambda>l. (l, True)) yaml"
    using yaml_passes [OF w(7)] by blast
  moreover from this(2) have "integration_test tw = run_checks (map (\<lambda>l. (l, True)) (passed_checks yaml))"
    unfolding integration_test_def passed_checks_def map_append [symmetric] sidecar_passes [OF c] daemon_passes [OF c] dcp_passes [OF w(1)]
      token_passes_checks [OF w(2)] shell_passes [OF w(3)] http_passes [OF w(3,4,2,5)] auth_passes [OF w(3,4,2)]
      discovery_passes [OF w(6)] config_passes [OF w(7)] by simp
  ultimately show ?thesis using sidecar_answered [OF c] unfolding run_checks_all by blast
qed

section \<open>A world for the script\<close>

definition demo_files :: "string \<Rightarrow> string + string" where
  "demo_files path = (if path = ''configs/devagent.yaml'' then Inr [] else Inl ''no such file'')"

definition demo_test_world :: test_world where
  "demo_test_world = \<lparr>tw_client_ok = True, tw_initialize_ok = True, tw_list_tools = Some,
     tw_call = quiet_world\<lparr>cx_require_string := \<lambda>args k. (case args of GMap ((_, GStr v) # _) \<Rightarrow> Inr v | _ \<Rightarrow> Inl ''not a string'')\<rparr>,
     tw_daemon = echo_world\<lparr>wd_run := \<lambda>t argv. (if argv = [''sh'', ''-c'', ''exit 1''] then ExitError 1 ''exit status 1'' else Exited, [], []),
       wd_float_of := map_option of_int \<circ> parse_int64\<rparr>,
     tw_show_float = \<lambda>_. [], tw_cbor_enc = \<lambda>_. Inr [0xA0], tw_cbor_dec = \<lambda>_. Inr (Some []), tw_read = demo_files,
     tw_device_yaml = \<lambda>_. Inl ''not read'',
     tw_global_yaml = \<lambda>_ cfg. Inr (cfg\<lparr>gc_sidecar := (gc_sidecar cfg)\<lparr>sc_mdns_interval := 10 * second, sc_dedup_ttl := 3 * second,
                sc_heartbeat_timeout := 60 * second, sc_static_gateways := []\<rparr>,
              gc_daemon := (gc_daemon cfg)\<lparr>dm_heartbeat_interval := 30 * second, dm_heartbeat_timeout := 60 * second\<rparr>,
              gc_log_level := ''info'', gc_token := \<lparr>tk_secret = [], tk_default_ttl = 3600 * second\<rparr>\<rparr>),
     tw_env = \<lambda>_. [], tw_wire = \<lambda>c. c, tw_now = 0, tw_later = 0\<rparr>"

lemma demo_test_world_ok: "test_world_ok demo_test_world"
proof -
  have "client_ok demo_test_world" by (simp add: client_ok_def demo_test_world_def)
  moreover have "cbor_ok demo_test_world" by (auto simp: cbor_ok_def demo_test_world_def)
  moreover have "clock_ok demo_test_world" by (simp add: clock_ok_def demo_test_world_def unix_def second_def)
  moreover have "os_ok demo_test_world"
  proof -
    have run: "wd_run (tw_daemon demo_test_world) t (shell_line demo_test_world cmd)
        = (if cmd = ''exit 1'' then ExitError 1 ''exit status 1'' else Exited, [], [])" for t cmd
      by (simp add: demo_test_world_def shell_line_def shell_argv_def echo_world_def)
    have "''echo hello_devagent'' \<noteq> ''exit 1''" "''echo invoke_test'' \<noteq> ''exit 1''" "valid_utf8 []" by code_simp+
    then show ?thesis unfolding os_ok_def run by simp
  qed
  moreover have "parse_int64 (itoa 0) = Some 0" by (rule parse_int64_itoa) simp_all
  then have "json_ok_world demo_test_world" by (simp add: json_ok_world_def demo_test_world_def)
  moreover have "wire_keeps (tw_wire demo_test_world) cfg" for cfg by (simp add: wire_keeps_def demo_test_world_def)
  moreover have "files_ok demo_test_world" by (auto simp: files_ok_def demo_test_world_def demo_files_def)
  ultimately show ?thesis by (simp add: test_world_ok_def)
qed

theorem integration_test_passes_witness:
  "integration_test demo_test_world = AllPassed (passed_checks [''yaml warning''])
   \<or> integration_test demo_test_world = AllPassed (passed_checks [''yaml'', ''compile''])"
  using integration_test_passes [OF demo_test_world_ok] by blast

end
