(* ===== verification/Firmware.thy ===== *)
theory Firmware
  imports Urpc
begin

text \<open>
  The uRPC agent that runs on the microcontroller, \<open>internal/lite/main/urpc_agent.c\<close>.
  The state holds the cached acknowledgement, the command queue, the bytes written to the
  UART and the pin levels set, in order. FreeRTOS and the ESP drivers appear only through
  what the agent asks of them: \<open>uart_write_bytes\<close> and \<open>gpio_set_level\<close> append to
  the two logs, \<open>uxQueueMessagesWaiting\<close> is the length of the queue.
\<close>

unbundle bit_operations_syntax

section \<open>State\<close>

definition URPC_MAX_PAYLOAD :: nat where "URPC_MAX_PAYLOAD = 64"
definition URPC_RX_BUF_SIZE :: nat where "URPC_RX_BUF_SIZE = 128"

record agent =
  cmd_queue :: "bytes list"
  last_seq :: u8
  last_ack :: bytes
  has_last_ack :: bool
  uart_out :: "bytes list"
  gpio_log :: "(u8 \<times> u8) list"

definition urpc_agent_init :: agent where
  "urpc_agent_init = \<lparr>cmd_queue = [], last_seq = 0, last_ack = replicate 5 0,
     has_last_ack = False, uart_out = [], gpio_log = []\<rparr>"

definition uart_write_bytes :: "bytes \<Rightarrow> agent \<Rightarrow> agent" where
  "uart_write_bytes bs s = s\<lparr>uart_out := uart_out s @ [bs]\<rparr>"

definition gpio_set_level :: "u8 \<Rightarrow> u8 \<Rightarrow> agent \<Rightarrow> agent" where
  "gpio_set_level pin level s = s\<lparr>gpio_log := gpio_log s @ [(pin, level)]\<rparr>"

section \<open>Operations\<close>

text \<open>The firmware's own copy of the checksum loop, over \<open>len\<close> bytes from a pointer.\<close>

fun crc8_loop :: "u8 \<Rightarrow> bytes \<Rightarrow> u8" where
  "crc8_loop crc [] = crc"
| "crc8_loop crc (b # bs) = crc8_loop ((crc8_bit ^^ 8) (crc XOR b)) bs"

definition fw_crc8 :: "bytes \<Rightarrow> u8" where
  "fw_crc8 data = crc8_loop 0x00 data"

definition send_ack :: "u8 \<Rightarrow> u8 \<Rightarrow> u8 \<Rightarrow> bool \<Rightarrow> agent \<Rightarrow> agent" where
  "send_ack seq status queue_depth cache s =
     (let ack = [0xBB, seq, status, queue_depth];
          ack = ack @ [fw_crc8 (take 3 (drop 1 ack))];
          s = (if cache then s\<lparr>last_ack := ack, last_seq := seq, has_last_ack := True\<rparr> else s)
      in uart_write_bytes ack s)"

text \<open>
  The checks at the head of \<open>process_frame\<close>: \<open>Inl seq\<close> is a malformed frame that is
  answered with an error acknowledgement carrying \<open>seq\<close>.
\<close>

definition parse_frame :: "bytes \<Rightarrow> u8 + urpc_request" where
  "parse_frame frame =
     (if length frame < 4 \<or> frame ! 0 \<noteq> 0xAA then Inl 0
      else let seq = frame ! 1; cmd = frame ! 2; payload_len = unat (frame ! 3) in
        if length frame < 4 + payload_len + 1 then Inl seq
        else if frame ! (4 + payload_len) \<noteq> fw_crc8 (take (3 + payload_len) (drop 1 frame)) then Inl seq
        else Inr \<lparr>req_seq = seq, req_cmd = cmd, req_payload = take payload_len (drop 4 frame)\<rparr>)"

definition exec_cmd :: "urpc_request \<Rightarrow> agent \<Rightarrow> agent" where
  "exec_cmd r s =
     (let seq = req_seq r; queue_depth = of_nat (length (cmd_queue s)) in
      if req_cmd r = 0xA1 then
        if length (req_payload r) \<ge> 2 then
          let pin = req_payload r ! 0; state = req_payload r ! 1 in
          if pin < 1 \<or> pin > 3 then send_ack seq 0x02 queue_depth True s
          else if state > 1 then send_ack seq 0x02 queue_depth True s
          else send_ack seq 0x00 queue_depth True (gpio_set_level pin state s)
        else send_ack seq 0x00 queue_depth True s
      else if req_cmd r = 0xB1 then send_ack seq 0x00 queue_depth True s
      else send_ack seq 0x02 queue_depth True s)"

definition process_frame :: "bytes \<Rightarrow> agent \<Rightarrow> agent" where
  "process_frame frame s =
     (case parse_frame frame of
        Inl seq \<Rightarrow> send_ack seq 0xFF 0 False s
      | Inr r \<Rightarrow>
          if has_last_ack s \<and> req_seq r = last_seq s then uart_write_bytes (last_ack s) s
          else exec_cmd r s)"

text \<open>The receive task: each non-empty read, cut to the buffer, is handled as one frame.\<close>

fun urpc_rx_task :: "bytes list \<Rightarrow> agent \<Rightarrow> agent" where
  "urpc_rx_task [] s = s"
| "urpc_rx_task (chunk # chunks) s =
     (let buf = take (URPC_RX_BUF_SIZE - 1) chunk in
      urpc_rx_task chunks (if length buf > 0 then process_frame buf s else s))"

section \<open>The two checksums agree\<close>

lemma crc8_loop_foldl: "crc8_loop c bs = foldl crc8_byte c bs"
  by (induction bs arbitrary: c) (simp_all add: crc8_byte_def)

lemma fw_crc8_eq [simp]: "fw_crc8 bs = crc8 bs"
  by (simp add: fw_crc8_def crc8_def crc8_loop_foldl)

section \<open>The firmware reads what the daemon writes\<close>

lemma parse_frame_layout [wire]:
  assumes "unat n = length p"
  shows "parse_frame (h # s # c # n # p @ [x]) =
     (if h \<noteq> 0xAA then Inl 0
      else if x \<noteq> crc8 (s # c # n # p) then Inl s
      else Inr \<lparr>req_seq = s, req_cmd = c, req_payload = p\<rparr>)"
proof -
  have "take (3 + length p) (s # c # n # p @ [x]) = s # c # n # p"
    by (simp add: numeral_3_eq_3)
  with assms show ?thesis by (simp add: parse_frame_def Let_def nth_Cons' nth_append)
qed

lemma parse_EncodeRequest:
  assumes "length (req_payload r) \<le> MaxPayloadSize" and "EncodeRequest r = Inr b"
  shows "parse_frame b = Inr r"
proof -
  from assms have "b = 0xAA # req_seq r # req_cmd r # of_nat (length (req_payload r)) # req_payload r
      @ [crc8 (req_seq r # req_cmd r # of_nat (length (req_payload r)) # req_payload r)]"
    by (simp add: EncodeRequest_layout HeaderRequest_def)
  moreover from assms(1) have "unat (of_nat (length (req_payload r)) :: u8) = length (req_payload r)"
    by (rule payload_len_byte)
  ultimately show ?thesis by (simp only: parse_frame_layout) simp
qed

interpretation request_codec: frame_codec EncodeRequest parse_frame
  "\<lambda>r. length (req_payload r) \<le> MaxPayloadSize"
proof unfold_locales
  fix r :: urpc_request
  assume "length (req_payload r) \<le> MaxPayloadSize"
  then show "\<exists>b. EncodeRequest r = Inr b" by (simp add: EncodeRequest_layout)
qed (rule parse_EncodeRequest)

section \<open>What one frame does\<close>

lemmas agent_ops = send_ack_def uart_write_bytes_def gpio_set_level_def Let_def

lemma exec_cmd_caches:
  "has_last_ack (exec_cmd r s) \<and> last_seq (exec_cmd r s) = req_seq r
     \<and> uart_out (exec_cmd r s) = uart_out s @ [last_ack (exec_cmd r s)]"
  by (simp add: exec_cmd_def agent_ops)

lemma exec_cmd_queue [simp]: "cmd_queue (exec_cmd r s) = cmd_queue s"
  by (simp add: exec_cmd_def agent_ops)

lemma process_frame_queue [simp]: "cmd_queue (process_frame f s) = cmd_queue s"
  by (simp add: process_frame_def send_ack_def uart_write_bytes_def Let_def split: sum.split)

lemma process_bad_frame:
  "parse_frame f = Inl seq \<Longrightarrow> process_frame f s = send_ack seq 0xFF 0 False s"
  by (simp add: process_frame_def)

lemma process_repeat:
  "parse_frame f = Inr r \<Longrightarrow> has_last_ack s \<Longrightarrow> last_seq s = req_seq r \<Longrightarrow>
   process_frame f s = uart_write_bytes (last_ack s) s"
  by (simp add: process_frame_def)

lemma process_fresh:
  "parse_frame f = Inr r \<Longrightarrow> \<not> (has_last_ack s \<and> req_seq r = last_seq s) \<Longrightarrow>
   process_frame f s = exec_cmd r s"
  by (auto simp: process_frame_def)

text \<open>After one valid frame the cache answers for it: it is the frame of the last reply.\<close>

lemma process_good_frame:
  assumes "parse_frame f = Inr r"
  shows "has_last_ack (process_frame f s)" and "last_seq (process_frame f s) = req_seq r"
    and "uart_out (process_frame f s) = uart_out s @ [last_ack (process_frame f s)]"
proof -
  show "has_last_ack (process_frame f s)"
    using assms exec_cmd_caches [of r s]
    by (cases "has_last_ack s \<and> req_seq r = last_seq s")
      (simp_all add: process_frame_def uart_write_bytes_def)
  show "last_seq (process_frame f s) = req_seq r"
    using assms exec_cmd_caches [of r s]
    by (cases "has_last_ack s \<and> req_seq r = last_seq s")
      (simp_all add: process_frame_def uart_write_bytes_def)
  show "uart_out (process_frame f s) = uart_out s @ [last_ack (process_frame f s)]"
    using assms exec_cmd_caches [of r s]
    by (cases "has_last_ack s \<and> req_seq r = last_seq s")
      (simp_all add: process_frame_def uart_write_bytes_def)
qed

text \<open>Repeating a frame only repeats its reply.\<close>

lemma process_again:
  "\<exists>reply. uart_out (process_frame f s) = uart_out s @ [reply]
     \<and> process_frame f (process_frame f s) = uart_write_bytes reply (process_frame f s)"
proof (cases "parse_frame f")
  case (Inl seq)
  then show ?thesis by (simp add: process_bad_frame agent_ops)
next
  case (Inr r)
  from process_good_frame [OF Inr, of s] process_repeat [OF Inr, of "process_frame f s"]
  show ?thesis by simp
qed

text \<open>C9: retransmission is idempotent on the device. However often the host repeats a frame
  (valid or damaged), the pins are driven as by the first copy alone, and every copy is
  answered with the same reply.\<close>

theorem retransmission_idempotent:
  "\<exists>reply. (\<forall>n. gpio_log ((process_frame f ^^ Suc n) s) = gpio_log (process_frame f s)
     \<and> uart_out ((process_frame f ^^ Suc n) s) = uart_out s @ replicate (Suc n) reply)"
proof -
  obtain reply where first: "uart_out (process_frame f s) = uart_out s @ [reply]"
    and again: "process_frame f (process_frame f s) = uart_write_bytes reply (process_frame f s)"
    using process_again [of f s] by blast
  have replies: "(process_frame f ^^ Suc n) s =
      (process_frame f s)\<lparr>uart_out := uart_out s @ replicate (Suc n) reply\<rparr>" for n
  proof (induction n)
    case 0
    from first show ?case by (simp add: agent.surjective)
  next
    case (Suc n)
    let ?t = "process_frame f s"
    have cached: "process_frame f (?t\<lparr>uart_out := out\<rparr>) = ?t\<lparr>uart_out := out @ [reply]\<rparr>" for out
    proof (cases "parse_frame f")
      case (Inl seq)
      with first show ?thesis by (simp add: process_bad_frame agent_ops)
    next
      case (Inr r)
      from process_good_frame [OF Inr, of s] first have "last_ack ?t = reply" by simp
      with process_good_frame [OF Inr, of s] process_repeat [OF Inr, of "?t\<lparr>uart_out := out\<rparr>"]
      show ?thesis by (simp add: uart_write_bytes_def)
    qed
    have "(process_frame f ^^ Suc (Suc n)) s = process_frame f ((process_frame f ^^ Suc n) s)"
      by simp
    with Suc.IH cached show ?case by (simp add: replicate_append_same)
  qed
  then show ?thesis by (intro exI [of _ reply]) simp
qed

section \<open>Invariants of the receive task\<close>

definition pins_safe :: "agent \<Rightarrow> bool" where
  "pins_safe s \<longleftrightarrow> (\<forall>(pin, level) \<in> set (gpio_log s). pin \<in> {1, 2, 3} \<and> level \<in> {0, 1})"

lemma pin_range: "\<not> (pin < 1 \<or> pin > 3) \<Longrightarrow> pin \<in> {1, 2, 3 :: u8}"
proof -
  assume a: "\<not> (pin < 1 \<or> pin > 3)"
  then have "1 \<le> unat pin" "unat pin \<le> 3" by (auto simp: word_less_nat_alt word_le_nat_alt not_less)
  then have "unat pin = unat (1 :: u8) \<or> unat pin = unat (2 :: u8) \<or> unat pin = unat (3 :: u8)" by auto
  then show ?thesis by (auto simp only: word_unat_eq_iff insert_iff)
qed

lemma level_range: "\<not> level > 1 \<Longrightarrow> level \<in> {0, 1 :: u8}"
proof -
  assume a: "\<not> level > 1"
  then have "unat level \<le> 1" by (auto simp: word_less_nat_alt not_less)
  then have "unat level = unat (0 :: u8) \<or> unat level = unat (1 :: u8)" by auto
  then show ?thesis by (auto simp only: word_unat_eq_iff insert_iff)
qed

lemma exec_cmd_pins_safe: "pins_safe s \<Longrightarrow> pins_safe (exec_cmd r s)"
  using pin_range [of "req_payload r ! 0"] level_range [of "req_payload r ! 1"]
  by (auto simp: exec_cmd_def agent_ops pins_safe_def)

lemma process_frame_pins_safe: "pins_safe s \<Longrightarrow> pins_safe (process_frame f s)"
  by (auto simp: process_frame_def exec_cmd_pins_safe split: sum.split)
    (simp_all add: pins_safe_def agent_ops)

text \<open>The agent never drives anything but the relay pins: whatever bytes arrive in
  whatever chunks, every pin level set since start-up is 0 or 1 on pin 1, 2 or 3.\<close>

theorem only_relay_pins_driven: "pins_safe (urpc_rx_task chunks urpc_agent_init)"
proof -
  have "pins_safe s \<Longrightarrow> pins_safe (urpc_rx_task chunks s)" for s
    by (induction chunks arbitrary: s) (simp_all add: Let_def process_frame_pins_safe)
  moreover have "pins_safe urpc_agent_init" by (simp add: pins_safe_def urpc_agent_init_def)
  ultimately show ?thesis .
qed

text \<open>
  Nothing in the agent ever puts a message on the command queue, so the depth it reports is
  the initial one. The invariant also covers the cached reply, which is sent again later.
\<close>

definition reply_frame :: "bytes \<Rightarrow> bool" where
  "reply_frame b \<longleftrightarrow> (\<exists>seq status. status \<in> {StatusOK, StatusInvalidCmd, StatusError}
     \<and> b = EncodeAck \<lparr>ack_seq = seq, ack_status = status, ack_queue_depth = 0\<rparr>)"

definition replies_ok :: "agent \<Rightarrow> bool" where
  "replies_ok s \<longleftrightarrow> cmd_queue s = [] \<and> (\<forall>b \<in> set (uart_out s). reply_frame b)
     \<and> (has_last_ack s \<longrightarrow> reply_frame (last_ack s))"

lemma send_ack_replies_ok:
  "replies_ok s \<Longrightarrow> status \<in> {0x00, 0x02, 0xFF} \<Longrightarrow> replies_ok (send_ack seq status 0 c s)"
  by (auto simp: replies_ok_def reply_frame_def agent_ops EncodeAck_layout HeaderAck_def
      StatusOK_def StatusInvalidCmd_def StatusError_def numeral_3_eq_3)

lemma gpio_replies_ok: "replies_ok s \<Longrightarrow> replies_ok (gpio_set_level p l s)"
  by (simp add: replies_ok_def gpio_set_level_def)

lemma exec_cmd_replies_ok: "replies_ok s \<Longrightarrow> replies_ok (exec_cmd r s)"
proof -
  assume ok: "replies_ok s"
  then have "of_nat (length (cmd_queue s)) = (0 :: u8)" by (simp add: replies_ok_def)
  with ok show ?thesis
    by (simp add: exec_cmd_def Let_def send_ack_replies_ok gpio_replies_ok)
qed

lemma process_frame_replies_ok: "replies_ok s \<Longrightarrow> replies_ok (process_frame f s)"
proof (cases "parse_frame f")
  case (Inl seq)
  assume "replies_ok s"
  with Inl show ?thesis by (simp add: process_bad_frame send_ack_replies_ok)
next
  case (Inr r)
  assume ok: "replies_ok s"
  show ?thesis
  proof (cases "has_last_ack s \<and> req_seq r = last_seq s")
    case True
    with Inr ok show ?thesis by (simp add: process_repeat uart_write_bytes_def) (simp add: replies_ok_def)
  next
    case False
    with Inr ok show ?thesis by (simp add: process_fresh exec_cmd_replies_ok)
  qed
qed

lemma rx_task_replies_ok: "replies_ok s \<Longrightarrow> replies_ok (urpc_rx_task chunks s)"
  by (induction chunks arbitrary: s) (simp_all add: Let_def process_frame_replies_ok)

text \<open>Everything the agent sends is a well-formed acknowledgement that the daemon's
  \<open>DecodeAck\<close> accepts, with status OK, INVALID_CMD or ERROR and queue depth 0: the agent
  never reports BUSY nor a filled queue.\<close>

theorem replies_decode_never_busy:
  "list_all (\<lambda>b. \<exists>ack. DecodeAck b = Inr ack \<and> ack_queue_depth ack = 0
     \<and> ack_status ack \<in> {StatusOK, StatusInvalidCmd, StatusError} \<and> ack_status ack \<noteq> StatusBusy)
   (uart_out (urpc_rx_task chunks urpc_agent_init))"
proof -
  have "replies_ok urpc_agent_init" by (simp add: replies_ok_def urpc_agent_init_def)
  then have "replies_ok (urpc_rx_task chunks urpc_agent_init)" by (rule rx_task_replies_ok)
  then show ?thesis
    by (auto simp: replies_ok_def reply_frame_def list_all_iff DecodeAck_EncodeAck StatusOK_def
        StatusBusy_def StatusInvalidCmd_def StatusError_def)
qed

section \<open>Damaged requests\<close>

lemma crc8_damage:
  assumes "i < length xs" and "b \<noteq> xs ! i"
  shows "crc8 (xs[i := b]) \<noteq> crc8 xs"
proof
  assume eq: "crc8 (xs[i := b]) = crc8 xs"
  have "xs = take i xs @ xs ! i # drop (Suc i) xs" using assms(1) by (simp add: id_take_nth_drop)
  moreover have "xs[i := b] = take i xs @ b # drop (Suc i) xs"
    using assms(1) by (simp add: upd_conv_take_nth_drop)
  ultimately have "b = xs ! i" using eq crc8_single_byte by metis
  with assms(2) show False by simp
qed

text \<open>The body of a request frame: what stands between the header and the checksum.\<close>

definition request_body :: "urpc_request \<Rightarrow> bytes" where
  "request_body r = req_seq r # req_cmd r # of_nat (length (req_payload r)) # req_payload r"

lemma EncodeRequest_body:
  "length (req_payload r) \<le> MaxPayloadSize \<Longrightarrow> EncodeRequest r = Inr f \<Longrightarrow>
   f = 0xAA # request_body r @ [crc8 (request_body r)]"
  by (auto simp: EncodeRequest_layout HeaderRequest_def request_body_def)

lemma parse_damaged_body:
  assumes len: "length p \<le> MaxPayloadSize" and j: "j < 3 + length p" "j \<noteq> 2"
    and body: "body = s # c # of_nat (length p) # p" and b: "b \<noteq> body ! j"
  shows "\<exists>seq. parse_frame (0xAA # body[j := b] @ [crc8 body]) = Inl seq"
proof -
  have n: "unat (of_nat (length p) :: u8) = length p" by (rule payload_len_byte [OF len])
  have "j < length body" using j body by simp
  then have bad: "crc8 (body[j := b]) \<noteq> crc8 body" using b by (rule crc8_damage)
  from j(2) have shape: "\<exists>s' c' p'. body[j := b] = s' # c' # of_nat (length p) # p' \<and> length p' = length p"
    unfolding body by (auto split: nat.splits)
  then obtain s' c' p' where sh: "body[j := b] = s' # c' # of_nat (length p) # p'" "length p' = length p"
    by blast
  from bad have "crc8 body \<noteq> crc8 (s' # c' # of_nat (length p) # p')" by (simp add: sh(1))
  then have "parse_frame (0xAA # s' # c' # of_nat (length p) # p' @ [crc8 body]) = Inl s'"
    by (subst parse_frame_layout) (simp_all add: n sh(2))
  then show ?thesis by (simp add: sh(1))
qed

text \<open>C32: a request frame with one byte replaced, other than its length byte, drives no pin
  and is not taken for a command: the agent keeps its cache and answers ERROR.\<close>

theorem damaged_request_refused:
  assumes "EncodeRequest r = Inr f" and "i < length f" and "i \<noteq> 3" and "b \<noteq> f ! i"
  shows "\<exists>seq. process_frame (f[i := b]) s = send_ack seq 0xFF 0 False s
     \<and> gpio_log (process_frame (f[i := b]) s) = gpio_log s"
proof -
  have len: "length (req_payload r) \<le> MaxPayloadSize"
    using assms(1) by (simp add: EncodeRequest_def split: if_splits)
  let ?body = "request_body r"
  have f: "f = 0xAA # ?body @ [crc8 ?body]" by (rule EncodeRequest_body [OF len assms(1)])
  have n: "unat (of_nat (length (req_payload r)) :: u8) = length (req_payload r)"
    by (rule payload_len_byte [OF len])
  have "\<exists>seq. parse_frame (f[i := b]) = Inl seq"
  proof (cases i)
    case 0
    with assms(4) f show ?thesis by (simp add: parse_frame_def)
  next
    case (Suc j)
    show ?thesis
    proof (cases "j < length ?body")
      case True
      with Suc assms(3,4) f have "b \<noteq> ?body ! j" and "j \<noteq> 2"
        and "f[i := b] = 0xAA # ?body[j := b] @ [crc8 ?body]"
        by (simp_all add: nth_append list_update_append)
      with True parse_damaged_body [OF len, where j = j and body = ?body and s = "req_seq r" and c = "req_cmd r" and b = b]
      show ?thesis by (simp add: request_body_def)
    next
      case False
      with Suc assms(2) f have j: "j = length ?body" by simp
      with Suc assms(4) f have "b \<noteq> crc8 ?body" and "f[i := b] = 0xAA # ?body @ [b]"
        by (simp_all add: nth_append list_update_append)
      then show ?thesis using parse_frame_layout [OF n, where h = "0xAA" and s = "req_seq r" and c = "req_cmd r" and x = b]
        by (simp add: request_body_def)
    qed
  qed
  then show ?thesis by (auto simp: process_bad_frame agent_ops)
qed

theorem damaged_request_refused_witness:
  "\<exists>seq. process_frame ([0xAA, 5, 0xA1, 2, 1, 1, crc8 [5, 0xA1, 2, 1, 1]][4 := 3]) urpc_agent_init
      = send_ack seq 0xFF 0 False urpc_agent_init
     \<and> gpio_log (process_frame ([0xAA, 5, 0xA1, 2, 1, 1, crc8 [5, 0xA1, 2, 1, 1]][4 := 3]) urpc_agent_init)
      = gpio_log urpc_agent_init"
  by (rule damaged_request_refused [of "\<lparr>req_seq = 5, req_cmd = 0xA1, req_payload = [1, 1]\<rparr>"])
    (simp_all add: EncodeRequest_def MaxPayloadSize_def HeaderRequest_def)

text \<open>A request the host encodes reaches the command switch unchanged: from a state whose
  cache holds another sequence number the agent executes exactly the host's command, with
  its sequence number and payload.\<close>

theorem encoded_request_executed:
  assumes "EncodeRequest r = Inr f" and "has_last_ack s \<longrightarrow> last_seq s \<noteq> req_seq r"
  shows "process_frame f s = exec_cmd r s"
proof -
  have "length (req_payload r) \<le> MaxPayloadSize"
    using assms(1) by (simp add: EncodeRequest_def split: if_splits)
  then have "parse_frame f = Inr r" using assms(1) by (rule request_codec.dec_enc)
  then show ?thesis by (rule process_fresh) (use assms(2) in auto)
qed

theorem encoded_request_executed_witness:
  "gpio_log (process_frame [0xAA, 5, 0xA1, 2, 1, 1, crc8 [5, 0xA1, 2, 1, 1]] urpc_agent_init) = [(1, 1)]"
proof -
  let ?r = "\<lparr>req_seq = 5, req_cmd = 0xA1, req_payload = [1, 1]\<rparr>"
  have "process_frame [0xAA, 5, 0xA1, 2, 1, 1, crc8 [5, 0xA1, 2, 1, 1]] urpc_agent_init
      = exec_cmd ?r urpc_agent_init"
    by (rule encoded_request_executed)
      (simp_all add: EncodeRequest_def MaxPayloadSize_def HeaderRequest_def urpc_agent_init_def)
  then show ?thesis by (simp add: exec_cmd_def agent_ops urpc_agent_init_def)
qed

end
