(* ===== verification/Link.thy ===== *)
theory Link
  imports Firmware Daemon
begin

text \<open>
  Both ends of the serial line: the daemon's requests (\<open>internal/daemon\<close>) as the agent of
  \<open>internal/lite/main/urpc_agent.c\<close> takes them. The lemmas follow a request from
  \<open>invokeCore\<close> to the pins and the acknowledgement back to the bridge.
\<close>

section \<open>Sequence numbers\<close>

lemma seq_byte: "(ucast ((n :: 32 word) mod 256) :: u8) = ucast n"
proof -
  have "uint n mod 256 mod 256 = uint n mod 256" by simp
  then show ?thesis by (intro word_uint_eqI) (simp add: unsigned_ucast_eq take_bit_eq_mod uint_mod)
qed

lemma next_seq_simps: "next_seq ds = (ucast (ds_seqCounter ds + 1), ds\<lparr>ds_seqCounter := ds_seqCounter ds + 1\<rparr>)"
  by (simp add: next_seq_def Let_def seq_byte)

lemma next_seq_differs: "(ucast (n + 1 :: 32 word) :: u8) \<noteq> ucast (n + 1 + 1)"
proof -
  have "(ucast (n + 1 + 1) :: u8) = ucast (n + 1) + 1"
    by (intro word_uint_eqI) (simp add: unsigned_ucast_eq take_bit_eq_mod uint_word_ariths mod_mod_cancel mod_simps)
  then show ?thesis by simp
qed

text \<open>A request read by the agent, whether or not it is a repeat.\<close>

lemma encoded_parses: "EncodeRequest r = Inr f \<Longrightarrow> parse_frame f = Inr r"
  by (rule request_codec.dec_enc) (simp_all add: EncodeRequest_def split: if_splits)

lemma process_encoded:
  "EncodeRequest r = Inr f \<Longrightarrow> process_frame f s =
     (if has_last_ack s \<and> last_seq s = req_seq r then uart_write_bytes (last_ack s) s else exec_cmd r s)"
  using encoded_parses [of r f] by (auto simp: process_frame_def)

lemma process_repeats:
  assumes "EncodeRequest r = Inr f"
  shows "has_last_ack ((process_frame f ^^ Suc n) s) \<and> last_seq ((process_frame f ^^ Suc n) s) = req_seq r"
  using process_good_frame [OF encoded_parses [OF assms], of "(process_frame f ^^ n) s"] by simp

text \<open>C8: a daemon that keeps running is never mistaken for one that repeats itself: after any
  number of retransmissions of one request, the request with the next sequence number is executed,
  also where the byte wraps around.\<close>

theorem next_request_executed:
  assumes "EncodeRequest r1 = Inr f1" and "EncodeRequest r2 = Inr f2"
    and "next_seq ds = (req_seq r1, ds1)" and "next_seq ds1 = (req_seq r2, ds2)"
  shows "process_frame f2 ((process_frame f1 ^^ Suc n) s) = exec_cmd r2 ((process_frame f1 ^^ Suc n) s)"
proof -
  have "req_seq r1 \<noteq> req_seq r2" using assms(3,4) next_seq_differs [of "ds_seqCounter ds"] by (auto simp: next_seq_simps)
  then show ?thesis using process_repeats [OF assms(1), of n s] process_encoded [OF assms(2)] by simp
qed

definition switch :: "u8 \<Rightarrow> u8 \<Rightarrow> u8 \<Rightarrow> urpc_request" where
  "switch seq pin level = \<lparr>req_seq = seq, req_cmd = 0xA1, req_payload = [pin, level]\<rparr>"

definition switch_frame :: "u8 \<Rightarrow> u8 \<Rightarrow> u8 \<Rightarrow> bytes" where
  "switch_frame seq pin level = 0xAA # [seq, 0xA1, 2, pin, level] @ [crc8 [seq, 0xA1, 2, pin, level]]"

lemma switch_encodes: "EncodeRequest (switch seq pin level) = Inr (switch_frame seq pin level)"
  by (simp add: EncodeRequest_layout switch_def switch_frame_def MaxPayloadSize_def HeaderRequest_def)

theorem next_request_executed_witness:
  "gpio_log (process_frame (switch_frame 0 1 0) ((process_frame (switch_frame 255 1 1) ^^ 2) urpc_agent_init))
     = [(1, 1), (1, 0)]"
proof -
  let ?ds = "(NewDaemonServer ''gw_1'' 8080 [] None)\<lparr>ds_seqCounter := 254\<rparr>"
  let ?s = "(process_frame (switch_frame 255 1 1) ^^ Suc 1) urpc_agent_init"
  have "next_seq ?ds = (req_seq (switch 255 1 1), ?ds\<lparr>ds_seqCounter := 255\<rparr>)"
    "next_seq (?ds\<lparr>ds_seqCounter := 255\<rparr>) = (req_seq (switch 0 1 0), ?ds\<lparr>ds_seqCounter := 256\<rparr>)"
    by (simp_all add: next_seq_simps switch_def)
  from next_request_executed [OF switch_encodes switch_encodes this]
  have "process_frame (switch_frame 0 1 0) ?s = exec_cmd (switch 0 1 0) ?s" .
  moreover have "gpio_log ?s = [(1, 1)]"
    by (simp add: process_encoded [OF switch_encodes] urpc_agent_init_def exec_cmd_def agent_ops switch_def)
  moreover have "gpio_log (exec_cmd (switch 0 1 0) s) = gpio_log s @ [(1, 0)]" for s
    by (simp add: exec_cmd_def agent_ops switch_def)
  ultimately show ?thesis by (simp add: numeral_2_eq_2)
qed

text \<open>C31: a daemon that is started again is taken for one that repeats itself: every daemon
  begins with the same sequence number, so if the agent's last request was the first one of an
  earlier daemon, the first request of the new one is not executed but answered from the cache,
  whatever it asks for.\<close>

theorem restart_answered_from_cache:
  assumes "EncodeRequest r1 = Inr f1" and "EncodeRequest r2 = Inr f2"
    and "req_seq r1 = fst (next_seq (NewDaemonServer gw1 port1 path1 cfg1))"
    and "req_seq r2 = fst (next_seq (NewDaemonServer gw2 port2 path2 cfg2))"
  shows "process_frame f2 (process_frame f1 s) = uart_write_bytes (last_ack (process_frame f1 s)) (process_frame f1 s)
    \<and> gpio_log (process_frame f2 (process_frame f1 s)) = gpio_log (process_frame f1 s)"
proof -
  have "req_seq r1 = req_seq r2" using assms(3,4) by (simp add: next_seq_simps NewDaemonServer_def Let_def)
  then show ?thesis using process_repeats [OF assms(1), of 0 s] process_encoded [OF assms(2)]
    by (simp add: uart_write_bytes_def)
qed

theorem restart_answered_from_cache_witness:
  "gpio_log (process_frame (switch_frame 1 2 1) (process_frame (switch_frame 1 1 1) urpc_agent_init)) = [(1, 1)]"
proof -
  have "req_seq (switch 1 p l) = fst (next_seq (NewDaemonServer ''gw_1'' 8080 [] None))" for p l
    by (simp add: switch_def next_seq_simps NewDaemonServer_def Let_def)
  from restart_answered_from_cache [OF switch_encodes switch_encodes this this, THEN conjunct2]
  have "gpio_log (process_frame (switch_frame 1 2 1) (process_frame (switch_frame 1 1 1) urpc_agent_init))
      = gpio_log (process_frame (switch_frame 1 1 1) urpc_agent_init)" .
  also have "\<dots> = [(1, 1)]"
    by (simp add: process_encoded [OF switch_encodes] urpc_agent_init_def exec_cmd_def agent_ops switch_def)
  finally show ?thesis .
qed

section \<open>What the host is told\<close>

lemma send_ack_frame: "uart_out (send_ack seq st d c s)
    = uart_out s @ [EncodeAck \<lparr>ack_seq = seq, ack_status = st, ack_queue_depth = d\<rparr>]"
  by (simp add: agent_ops EncodeAck_layout HeaderAck_def)

text \<open>The levels a \<open>set_relay\<close> request asks for: its first two bytes, none if it is shorter.\<close>

definition asked_levels :: "urpc_request \<Rightarrow> (u8 \<times> u8) list" where
  "asked_levels r = (if 2 \<le> length (req_payload r) then [(req_payload r ! 0, req_payload r ! 1)] else [])"

lemma relay_reply:
  assumes "req_cmd r = 0xA1"
  shows "\<exists>a. uart_out (exec_cmd r s) = uart_out s @ [EncodeAck a] \<and> ack_seq a = req_seq r
    \<and> (if ack_status a = StatusOK then gpio_log (exec_cmd r s) = gpio_log s @ asked_levels r
       else ack_status a = StatusInvalidCmd \<and> asked_levels r \<noteq> [] \<and> gpio_log (exec_cmd r s) = gpio_log s)"
proof -
  have send: "\<exists>a. uart_out (send_ack (req_seq r) st d True t) = uart_out s @ [EncodeAck a] \<and> ack_seq a = req_seq r
      \<and> ack_status a = st \<and> gpio_log (send_ack (req_seq r) st d True t) = gpio_log t" if "uart_out t = uart_out s" for st d t
    by (intro exI [of _ "\<lparr>ack_seq = req_seq r, ack_status = st, ack_queue_depth = d\<rparr>"])
      (simp add: send_ack_frame that, simp add: agent_ops)
  let ?t = "gpio_set_level (req_payload r ! 0) (req_payload r ! 1) s"
  show ?thesis
    using send [where t = s and st = "0x02" and d = "of_nat (length (cmd_queue s))"]
      send [where t = ?t and st = "0x00" and d = "of_nat (length (cmd_queue s))"] assms
      send [where t = s and st = "0x00" and d = "of_nat (length (cmd_queue s))"]
    by (auto simp: exec_cmd_def Let_def gpio_set_level_def StatusOK_def StatusInvalidCmd_def asked_levels_def)
qed

text \<open>C7: the host is told the truth about a relay: when the agent's reply to a fresh
  \<open>set_relay\<close> request reaches the bridge, in whatever pieces, the call returns an
  acknowledgement with the request's sequence number. It says OK if the agent drove the requested
  pin to the requested level, and INVALID_CMD if it drove no pin, except for a payload of fewer
  than two bytes, which asks for no level: that is acknowledged OK with no pin driven. (The first
  attempt of a call that is not cancelled, on a line that takes the request without error.)\<close>

theorem relay_confirmed_iff_driven:
  assumes "sp_port (sb_port sb) = Some p" and "EncodeRequest req = Inr f" and "ctx 0 = None"
    and "0 < sb_retry sb" and "px_write_err p (length (px_sent p)) = None"
    and "req_cmd req = 0xA1"
    and "has_last_ack s \<longrightarrow> last_seq s \<noteq> req_seq req"
    and "uart_out (process_frame f s) = uart_out s @ [concat frags]"
    and "delivers frags p" and "\<forall>x \<in> set frags. x \<noteq> []"
  shows "\<exists>a. map_option fst (SendURPC cap_at ctx req sb) = Some (Ret a) \<and> ack_seq a = req_seq req
    \<and> (if ack_status a = StatusOK
       then gpio_log (process_frame f s) = gpio_log s @ asked_levels req
       else ack_status a = StatusInvalidCmd \<and> asked_levels req \<noteq> [] \<and> gpio_log (process_frame f s) = gpio_log s)"
proof -
  have x: "process_frame f s = exec_cmd req s" using process_encoded [OF assms(2), of s] assms(7) by auto
  obtain a where a: "concat frags = EncodeAck a" "ack_seq a = req_seq req"
    "if ack_status a = StatusOK then gpio_log (exec_cmd req s) = gpio_log s @ asked_levels req
       else ack_status a = StatusInvalidCmd \<and> asked_levels req \<noteq> [] \<and> gpio_log (exec_cmd req s) = gpio_log s"
    using relay_reply [OF assms(6), of s] assms(8) unfolding x by auto
  obtain front where fr: "EncodeAck a = HeaderAck # front" by (simp add: EncodeAck_layout)
  have "length (concat frags) = 5" by (simp only: a(1)) (simp add: EncodeAck_layout)
  then obtain p' where "readURPCAck cap_at (p\<lparr>px_sent := px_sent p @ [f]\<rparr>)
      = Some (decode_first5 (cap_at 0) (EncodeAck a), p')"
    using readURPCAck_after_noise [of frags "p\<lparr>px_sent := px_sent p @ [f]\<rparr>" "[]" front "[]"] assms(9,10) a(1) fr by auto
  then have "map_option fst (SendURPC cap_at ctx req sb) = Some (Ret a)"
    using SendURPC_first [of sb p req f ctx cap_at "Ret a"] assms(1-5) by (simp add: decode_first5_EncodeAck)
  with a x show ?thesis by auto
qed

theorem relay_confirmed_iff_driven_witness:
  "\<exists>a. map_option fst (SendURPC (\<lambda>h. 8 - h) (\<lambda>_. None) (switch 7 2 1)
     (bridge_on (port_of (nth [RData [0xBB, 7], RData [0, 0, crc8 [7, 0, 0]]])))) = Some (Ret a)
     \<and> gpio_log (process_frame (switch_frame 7 2 1) urpc_agent_init) = (if ack_status a = StatusOK then [(2, 1)] else [])"
proof -
  let ?p = "port_of (nth [RData [0xBB, 7], RData [0, 0, crc8 [7, 0, 0]]])"
  have "uart_out (process_frame (switch_frame 7 2 1) urpc_agent_init)
      = uart_out urpc_agent_init @ [concat [[0xBB, 7], [0, 0, crc8 [7, 0, 0]]]]"
    by (simp add: process_encoded [OF switch_encodes] urpc_agent_init_def exec_cmd_def agent_ops switch_def)
  moreover have "delivers [[0xBB, 7], [0, 0, crc8 [7, 0, 0]]] ?p" by (simp add: delivers_def less_Suc_eq)
  ultimately show ?thesis
    using relay_confirmed_iff_driven [of "bridge_on ?p" ?p "switch 7 2 1", OF bridge_on_simps(1) switch_encodes,
        where ctx = "\<lambda>_. None" and cap_at = "\<lambda>h. 8 - h" and s = urpc_agent_init
        and frags = "[[0xBB, 7], [0, 0, crc8 [7, 0, 0]]]"]
    by (auto simp: switch_def urpc_agent_init_def asked_levels_def)
qed

text \<open>A \<open>set_relay\<close> request without its two bytes is confirmed although nothing is done.\<close>

theorem short_relay_confirmed:
  assumes "EncodeRequest req = Inr f" and "req_cmd req = 0xA1" and "length (req_payload req) < 2"
    and "has_last_ack s \<longrightarrow> last_seq s \<noteq> req_seq req"
  shows "gpio_log (process_frame f s) = gpio_log s
    \<and> process_frame f s = send_ack (req_seq req) StatusOK (of_nat (length (cmd_queue s))) True s"
proof -
  have "process_frame f s = exec_cmd req s" using process_encoded [OF assms(1), of s] assms(4) by auto
  then show ?thesis using assms(2,3) by (simp add: exec_cmd_def Let_def StatusOK_def agent_ops)
qed

theorem short_relay_confirmed_witness:
  "gpio_log (process_frame [0xAA, 7, 0xA1, 0, crc8 [7, 0xA1, 0]] urpc_agent_init) = []"
proof -
  have "EncodeRequest \<lparr>req_seq = 7, req_cmd = 0xA1, req_payload = []\<rparr> = Inr [0xAA, 7, 0xA1, 0, crc8 [7, 0xA1, 0]]"
    by (simp add: EncodeRequest_layout MaxPayloadSize_def HeaderRequest_def)
  from short_relay_confirmed [OF this, of urpc_agent_init, THEN conjunct1] show ?thesis by (simp add: urpc_agent_init_def)
qed

section \<open>The template of the documentation\<close>

lemma num_char_facts: "num_char c \<Longrightarrow> 3 < byte_of_char c \<and> c \<noteq> CHR ''{'' \<and> c \<noteq> CHR ''}''"
proof -
  assume n: "num_char c"
  then have "43 \<le> code c" by (auto simp: num_char_def digit_def code_def)
  moreover have "unat (byte_of_char c) = code c"
    using of_char_less_256 [of c] by (simp add: byte_of_char_def code_def unat_of_nat)
  ultimately have "3 < byte_of_char c" by (simp add: word_less_nat_alt)
  with n show ?thesis by (auto simp: num_char_def digit_def code_def)
qed

lemma itoa_facts: "brace_free (itoa i) \<and> (\<exists>c s. itoa i = c # s \<and> 3 < byte_of_char c)"
proof -
  have n: "\<forall>c \<in> set (itoa i). num_char c" using itoa_number [of i] by (simp add: list_all_iff)
  moreover have "itoa i \<noteq> []" by (simp add: itoa_def)
  ultimately show ?thesis using num_char_facts unfolding brace_free_def by (cases "itoa i") auto
qed

lemma pin_state_payload:
  assumes "- (2 ^ 63) \<le> pin" and "pin < 2 ^ 63"
  shows "formatURPCPayload g ''{pin} {state}'' [(''pin'', GFloat (of_int pin)), (''state'', GBool on)]
    = bytes_of_string (itoa pin @ '' '' @ (if on then ''1'' else ''0''))"
proof -
  let ?segs = "[Hole ''pin'', Txt '' '', Hole ''state'']"
    and ?ps = "[(''pin'', GFloat (of_int pin)), (''state'', GBool on)]"
  have r: "replacement g (GFloat (of_int pin)) = itoa pin" using assms by (simp add: whole_int64_def)
  have "foldl (\<lambda>result (k, v). replacePlaceholder g result k v) (render ?segs) ?ps
      = render (map (fill (fillings g ?ps)) ?segs)"
    by (rule foldl_fill) (use itoa_facts [of pin] in \<open>auto simp: r brace_free_def simp del: replacement.simps(1)\<close>)
  moreover have "render ?segs = ''{pin} {state}''" by (simp add: render_def)
  moreover have "render (map (fill (fillings g ?ps)) ?segs) = itoa pin @ '' '' @ (if on then ''1'' else ''0'')"
    by (simp add: render_def fillings_def gm_get_def r del: replacement.simps(1))
  ultimately show ?thesis by (simp add: formatURPCPayload_def)
qed

text \<open>The template that the example configuration and the documentation give for the relay
  command, \<open>{pin} {state}\<close>, does not work with this firmware: the daemon fills it with
  decimal digits, the agent reads bytes, so whatever pin and state the caller asks for, no pin is
  driven and a fresh request is answered INVALID_CMD.\<close>

theorem documented_template_rejected:
  assumes "- (2 ^ 63) \<le> pin" and "pin < 2 ^ 63"
    and "EncodeRequest \<lparr>req_seq = seq, req_cmd = 0xA1, req_payload = formatURPCPayload g ''{pin} {state}''
        [(''pin'', GFloat (of_int pin)), (''state'', GBool on)]\<rparr> = Inr f"
  shows "gpio_log (process_frame f s) = gpio_log s
    \<and> (\<not> (has_last_ack s \<and> last_seq s = seq) \<longrightarrow>
         process_frame f s = send_ack seq StatusInvalidCmd (of_nat (length (cmd_queue s))) True s)"
proof -
  obtain c t where ct: "itoa pin = c # t" "3 < byte_of_char c" using itoa_facts [of pin] by blast
  let ?r = "\<lparr>req_seq = seq, req_cmd = 0xA1, req_payload = formatURPCPayload g ''{pin} {state}''
        [(''pin'', GFloat (of_int pin)), (''state'', GBool on)]\<rparr>"
  have "exec_cmd ?r s = send_ack seq 0x02 (of_nat (length (cmd_queue s))) True s"
    using ct(2) by (simp add: pin_state_payload [OF assms(1,2)] ct(1) exec_cmd_def bytes_of_string_def)
  then show ?thesis using process_encoded [OF assms(3), of s]
    by (simp add: StatusInvalidCmd_def agent_ops)
qed

theorem documented_template_rejected_witness:
  "gpio_log (process_frame (0xAA # [9, 0xA1, 3, 0x32, 0x20, 0x31] @ [crc8 [9, 0xA1, 3, 0x32, 0x20, 0x31]]) urpc_agent_init) = []"
proof -
  let ?body = "[9, 0xA1, 3, 0x32, 0x20, 0x31] :: bytes"
  have "bytes_of_string (itoa 2 @ '' '' @ ''1'') = [0x32, 0x20, 0x31]" by code_simp
  then have "EncodeRequest \<lparr>req_seq = 9, req_cmd = 0xA1, req_payload = formatURPCPayload (\<lambda>_. []) ''{pin} {state}''
        [(''pin'', GFloat (of_int 2)), (''state'', GBool True)]\<rparr> = Inr (0xAA # ?body @ [crc8 ?body])"
    using pin_state_payload [of 2 "\<lambda>_. []" True]
    by (simp add: EncodeRequest_layout MaxPayloadSize_def HeaderRequest_def)
  from documented_template_rejected [OF _ _ this, of urpc_agent_init, THEN conjunct1]
  have "gpio_log (process_frame (0xAA # ?body @ [crc8 ?body]) urpc_agent_init) = gpio_log urpc_agent_init" by simp
  then show ?thesis by (simp add: urpc_agent_init_def)
qed

end
