(* ===== verification/Cli.thy ===== *)
theory Cli
  imports Wiring Daemon
begin

text \<open>
  The command line, \<open>cmd/devagent/main.go\<close> and \<open>cli.go\<close>: the subcommands
  \<open>init\<close>, \<open>validate\<close> and \<open>schema\<close>, the PID file, and what \<open>main\<close> starts.
  The operating system appears as the files, the processes that answer a signal, and the errors of
  \<open>MkdirAll\<close> and \<open>WriteFile\<close>. What is printed is kept as one value per line of
  output. The flags are those that the flag package parsed.
\<close>

section \<open>Standard library\<close>

definition text_lines :: "string list \<Rightarrow> string" where
  "text_lines ls = concat (map (\<lambda>l. l @ [CHR 0x0A]) ls)"

text \<open>\<open>strconv.Atoi\<close>: digits with an optional sign, in the range of 64 bits.\<close>

definition atoi :: "string \<Rightarrow> int option" where
  "atoi s =
     (let neg = (s \<noteq> [] \<and> hd s = CHR ''-''); ds = (if s \<noteq> [] \<and> hd s \<in> {CHR ''-'', CHR ''+''} then tl s else s) in
      if ds = [] then None
      else case digits_val 0 ds of
        None \<Rightarrow> None
      | Some n \<Rightarrow>
          let i = (if neg then - int n else int n) in if - (2 ^ 63) \<le> i \<and> i < 2 ^ 63 then Some i else None)"

text \<open>\<open>filepath.Join\<close> with the lexical cleaning of \<open>Clean\<close>, for slash-separated paths.\<close>

fun split_slash :: "string \<Rightarrow> string list" where
  "split_slash [] = [[]]"
| "split_slash (c # s) =
     (if c = CHR ''/'' then [] # split_slash s
      else case split_slash s of p # ps \<Rightarrow> (c # p) # ps | [] \<Rightarrow> [[c]])"

fun clean_parts :: "bool \<Rightarrow> string list \<Rightarrow> string list \<Rightarrow> string list" where
  "clean_parts rooted acc [] = rev acc"
| "clean_parts rooted acc (p # ps) =
     (if p = [] \<or> p = ''.'' then clean_parts rooted acc ps
      else if p = ''..'' then
        (if acc \<noteq> [] \<and> hd acc \<noteq> ''..'' then clean_parts rooted (tl acc) ps
         else if rooted then clean_parts rooted acc ps
         else clean_parts rooted (''..'' # acc) ps)
      else clean_parts rooted (p # acc) ps)"

definition path_clean :: "string \<Rightarrow> string" where
  "path_clean s =
     (let rooted = (s \<noteq> [] \<and> hd s = CHR ''/''); ps = clean_parts rooted [] (split_slash s) in
      if rooted then ''/'' @ join ''/'' ps else if ps = [] then ''.'' else join ''/'' ps)"

definition path_join :: "string \<Rightarrow> string \<Rightarrow> string" where
  "path_join dir name = path_clean (if dir = [] then name else dir @ ''/'' @ name)"

section \<open>The templates\<close>

definition globalConfigTemplate :: string where
  "globalConfigTemplate = text_lines [
    ''# devagent '' @ utf8 [0xE5, 0x85, 0xA8, 0xE5, 0xB1, 0x80, 0xE9, 0x85, 0x8D, 0xE7, 0xBD, 0xAE],
    ''sidecar:'',
    ''  mdns_interval: 10s'',
    ''  dedup_ttl: 3s'',
    ''  health_check_interval: 30s'',
    ''  maintenance_timeout: 60s'',
    ''  heartbeat_timeout: 90s'',
    ''  # '' @ utf8 [0xE9, 0x9D, 0x99, 0xE6, 0x80, 0x81, 0xE7, 0xBD, 0x91, 0xE5, 0x85, 0xB3, 0xEF, 0xBC, 0x88, 0xE5,
      0x8F, 0xAF, 0xE9, 0x80, 0x89, 0xEF, 0xBC, 0x89, 0xEF, 0xBC, 0x9A] @ ''sidecar '' @ utf8 [0xE4, 0xB8, 0x8E] @
      '' daemon '' @ utf8 [0xE5, 0x90, 0x8C, 0xE6, 0x9C, 0xBA, 0xE8, 0xBF, 0x90, 0xE8, 0xA1, 0x8C, 0xE3, 0x80, 0x81,
      0xE6, 0x88, 0x96] @ '' mDNS '' @ utf8 [0xE4, 0xB8, 0x8D, 0xE5, 0x8F, 0xAF, 0xE7, 0x94, 0xA8, 0xE6, 0x97, 0xB6,
      0xE7, 0x9B, 0xB4, 0xE6, 0x8E, 0xA5, 0xE6, 0x8C, 0x87, 0xE5, 0xAE, 0x9A],
    ''  # static_gateways:'',
    ''  #   - { id: \"gw_mock\", url: \"http://localhost:8082\" }'',
    [],
    ''daemon:'',
    ''  heartbeat_interval: 30s'',
    ''  heartbeat_timeout: 60s'',
    ''  state_path: \"\"'',
    [],
    ''log_level: info'',
    [],
    ''token:'',
    ''  secret: \"\"          # '' @ utf8 [0xE7, 0x95, 0x99, 0xE7, 0xA9, 0xBA, 0xE5, 0x88, 0x99, 0xE4, 0xB8, 0x8D,
      0xE6, 0xA0, 0xA1, 0xE9, 0xAA, 0x8C] @ '' token'' @ utf8 [0xEF, 0xBC, 0x9B, 0xE7, 0x94, 0x9F, 0xE4, 0xBA, 0xA7,
      0xE7, 0x8E, 0xAF, 0xE5, 0xA2, 0x83, 0xE5, 0xBB, 0xBA, 0xE8, 0xAE, 0xAE] @ '' >= 16 '' @ utf8 [0xE5, 0xAD, 0x97,
      0xE7, 0xAC, 0xA6],
    ''  default_ttl: 3600s'']"

definition deviceConfigTemplate :: string where
  "deviceConfigTemplate = text_lines [
    ''# '' @ utf8 [0xE7, 0xA4, 0xBA, 0xE4, 0xBE, 0x8B, 0xE8, 0xAE, 0xBE, 0xE5, 0xA4, 0x87, 0xE7, 0x89, 0xA9, 0xE6,
      0xA8, 0xA1, 0xE5, 0x9E, 0x8B, 0xEF, 0xBC, 0x88, 0xE6, 0x97, 0xA0, 0xE7, 0xA1, 0xAC, 0xE4, 0xBB, 0xB6, 0xEF,
      0xBC, 0x8C, 0xE5, 0x8F, 0xAF, 0xE7, 0x9B, 0xB4, 0xE6, 0x8E, 0xA5, 0xE8, 0xBF, 0x90, 0xE8, 0xA1, 0x8C, 0xEF,
      0xBC, 0x89],
    ''# '' @ utf8 [0xE5, 0x90, 0xAF, 0xE5, 0x8A, 0xA8, 0xEF, 0xBC, 0x9A] @ 
      ''devagent -mode daemon -port 8082 -config device.yaml -gateway-id gw_mock'',
    ''device:'',
    ''  id: \"mock_gw\"'',
    ''  name: \"'' @ utf8 [0xE6, 0xA8, 0xA1, 0xE6, 0x8B, 0x9F, 0xE8, 0xAE, 0xBE, 0xE5, 0xA4, 0x87, 0xEF, 0xBC, 0x88,
      0xE6, 0x97, 0xA0, 0xE9, 0x9C, 0x80, 0xE7, 0xA1, 0xAC, 0xE4, 0xBB, 0xB6, 0xEF, 0xBC, 0x89] @ ''\"'',
    ''  type: \"direct\"'',
    [],
    ''capabilities:'',
    ''  - name: set_relay'',
    ''    description: \"'' @ utf8 [0xE6, 0x8E, 0xA7, 0xE5, 0x88, 0xB6, 0xE7, 0xBB, 0xA7, 0xE7, 0x94, 0xB5, 0xE5,
      0x99, 0xA8, 0xE9, 0x80, 0x9A, 0xE6, 0x96, 0xAD, 0xEF, 0xBC, 0x88, 0xE6, 0xA8, 0xA1, 0xE6, 0x8B, 0x9F, 0xEF,
      0xBC, 0x8C, 0xE6, 0x97, 0xA0, 0xE7, 0x9C, 0x9F, 0xE5, 0xAE, 0x9E, 0xE7, 0xA1, 0xAC, 0xE4, 0xBB, 0xB6, 0xEF,
      0xBC, 0x89] @ ''\"'',
    ''    inputSchema:'',
    ''      type: object'',
    ''      properties:'',
    ''        pin:   { type: integer, enum: [1, 2, 3], unit: \"gpio_pin\" }'',
    ''        state: { type: boolean, unit: \"on_off\" }'',
    ''      required: [pin, state]'',
    ''    implementation:'',
    ''      native: \"shell\"'',
    ''      allowed_commands: [\"echo\"]'',
    ''      cmd_map:'',
    ''        set_relay: { cmd: 0, fmt: \"echo mock relay pin={pin} state={state}\" }'',
    ''      timeout_ms: 5000'']"

section \<open>Subcommands\<close>

datatype init_line = Skipped string | Generated string | NextStep

datatype init_error = CreateDir string | WriteInit string string

text \<open>The loop over the map of files, which Go visits in an order of its own.\<close>

fun init_files :: "(string \<Rightarrow> string option) \<Rightarrow> string \<Rightarrow> (string \<times> string) list \<Rightarrow> files
    \<Rightarrow> init_error option \<times> init_line list \<times> files" where
  "init_files write_err dir [] fs = (None, [NextStep], fs)"
| "init_files write_err dir ((name, content) # rest) fs =
     (let path = path_join dir name in
      if gm_get fs path \<noteq> None then
        (let (e, out, fs) = init_files write_err dir rest fs in (e, Skipped path # out, fs))
      else case write_err path of
        Some e \<Rightarrow> (Some (WriteInit path e), [], fs)
      | None \<Rightarrow>
          (let (e, out, fs) = init_files write_err dir rest (gm_put path content fs) in (e, Generated path # out, fs)))"

definition template_files :: "(string \<times> string) list" where
  "template_files = [(''devagent.yaml'', globalConfigTemplate), (''device.yaml'', deviceConfigTemplate)]"

text \<open>\<open>device_first\<close>: which of the two orders the map is visited in.\<close>

definition cmdInit :: "string option \<Rightarrow> (string \<Rightarrow> string option) \<Rightarrow> bool \<Rightarrow> string \<Rightarrow> files
    \<Rightarrow> init_error option \<times> init_line list \<times> files" where
  "cmdInit mkdir_err write_err device_first dir fs =
     (case mkdir_err of
        Some e \<Rightarrow> (Some (CreateDir e), [], fs)
      | None \<Rightarrow> init_files write_err dir (if device_first then rev template_files else template_files) fs)"

datatype validate_error = LoadFailed string | DeviceIdEmpty | NoCapabilities | UnnamedCapability | NoImplementation string

fun validate_caps :: "capability list \<Rightarrow> validate_error option" where
  "validate_caps [] = None"
| "validate_caps (c # cs) =
     (if cap_name c = [] then Some UnnamedCapability
      else if im_native (cap_implementation c) = [] \<and> im_proxy (cap_implementation c) = []
      then Some (NoImplementation (cap_name c))
      else validate_caps cs)"

text \<open>The answer on success is the line printed: the device and the number of its capabilities.\<close>

definition cmdValidate :: "(string \<Rightarrow> string + string) \<Rightarrow> (string \<Rightarrow> string + device_config) \<Rightarrow> string
    \<Rightarrow> validate_error + string \<times> nat" where
  "cmdValidate read_file yaml path =
     (case LoadDeviceConfig read_file yaml path of
        Inl e \<Rightarrow> Inl (LoadFailed e)
      | Inr cfg \<Rightarrow>
          if dev_id (dc_device cfg) = [] then Inl DeviceIdEmpty
          else if length (dc_capabilities cfg) = 0 then Inl NoCapabilities
          else (case validate_caps (dc_capabilities cfg) of
              Some e \<Rightarrow> Inl e
            | None \<Rightarrow> Inr (dev_id (dc_device cfg), length (dc_capabilities cfg))))"

datatype schema_line = DeviceLine string string | ToolLine string string | DescriptionLine string | IntentLine u16
  | NativeLine string | ProxyLine string string string | ParamsHead | ParamLine string string

definition schema_of :: "string \<Rightarrow> capability \<Rightarrow> schema_line list" where
  "schema_of d c =
     (let intent = (if cap_intent_id c = 0 then IntentID (d @ ''.'' @ cap_name c) else cap_intent_id c);
          impl = cap_implementation c; props = is_properties (cap_input_schema c) in
      [ToolLine d (cap_name c), DescriptionLine (cap_description c), IntentLine intent]
      @ (if im_native impl \<noteq> [] then [NativeLine (im_native impl)]
         else if im_proxy impl \<noteq> [] then [ProxyLine (im_proxy impl) (im_protocol impl) (im_channel impl)] else [])
      @ (if length props > 0 then ParamsHead # map (\<lambda>(name, p). ParamLine name (ps_type p)) props else []))"

definition cmdSchema :: "(string \<Rightarrow> string + string) \<Rightarrow> (string \<Rightarrow> string + device_config) \<Rightarrow> string
    \<Rightarrow> string + schema_line list" where
  "cmdSchema read_file yaml path =
     (case LoadDeviceConfig read_file yaml path of
        Inl e \<Rightarrow> Inl e
      | Inr cfg \<Rightarrow> Inr (DeviceLine (dev_id (dc_device cfg)) (dev_name (dc_device cfg))
          # concat (map (schema_of (dev_id (dc_device cfg))) (dc_capabilities cfg))))"

text \<open>What a run of the command line ends in: nothing done, done, or an exit code.\<close>

datatype cli_end = NotACommand | CommandDone | ExitCode nat

record cli_world =
  cw_mkdir_err :: "string option"
  cw_write_err :: "string \<Rightarrow> string option"
  cw_device_first :: bool
  cw_yaml :: "string \<Rightarrow> string + device_config"

definition read_in :: "files \<Rightarrow> string \<Rightarrow> string + string" where
  "read_in fs path = (case gm_get fs path of None \<Rightarrow> Inl (''open '' @ path @ '': no such file or directory'') | Some t \<Rightarrow> Inr t)"

definition runCLI :: "cli_world \<Rightarrow> string list \<Rightarrow> files \<Rightarrow> cli_end \<times> files" where
  "runCLI cw args fs =
     (case args of
        [] \<Rightarrow> (NotACommand, fs)
      | cmd # rest \<Rightarrow>
          if cmd = ''init'' then
            (let dir = (case rest of [] \<Rightarrow> ''.'' | d # _ \<Rightarrow> d);
                 (err, out, fs) = cmdInit (cw_mkdir_err cw) (cw_write_err cw) (cw_device_first cw) dir fs in
             (if err \<noteq> None then ExitCode 1 else CommandDone, fs))
          else if cmd = ''validate'' then
            (case rest of
               [] \<Rightarrow> (ExitCode 1, fs)
             | path # _ \<Rightarrow> (case cmdValidate (read_in fs) (cw_yaml cw) path of
                   Inl _ \<Rightarrow> (ExitCode 1, fs) | Inr _ \<Rightarrow> (CommandDone, fs)))
          else if cmd = ''schema'' then
            (case rest of
               [] \<Rightarrow> (ExitCode 1, fs)
             | path # _ \<Rightarrow> (case cmdSchema (read_in fs) (cw_yaml cw) path of
                   Inl _ \<Rightarrow> (ExitCode 1, fs) | Inr _ \<Rightarrow> (CommandDone, fs)))
          else (NotACommand, fs))"

section \<open>PID file and logger\<close>

datatype pid_error = AlreadyRunning int | WritePid string

text \<open>The file a PID path names: its identity and its content. A process that has opened the file
  writes to the one it opened, whatever the path names by then.\<close>

record pid_file =
  pf_named :: "(nat \<times> string) option"
  pf_next :: nat

definition pid_content :: "pid_file \<Rightarrow> string option" where
  "pid_content f = map_option snd (pf_named f)"

text \<open>What the operating system answers: whether the file cannot be read, whether a process takes
  signal 0, whether the file cannot be removed, why it cannot be opened for writing, and how many
  bytes are written before an error.\<close>

record pid_world =
  pw_read_err :: bool
  pw_answers :: "int \<Rightarrow> bool"
  pw_remove_err :: bool
  pw_open_err :: "string option"
  pw_write_err :: "(nat \<times> string) option"

text \<open>Where a process is in \<open>acquirePIDFile\<close>. Nothing locks the file, so other processes may
  step between any two of these; \<open>WriteFile\<close> is two of them, opening with truncation and writing.\<close>

datatype pid_pc = PidStart | PidCheck int | PidRemove | PidOpen | PidWrite nat | PidHeld | PidRefused pid_error | PidGone

definition write_named :: "nat \<Rightarrow> string \<Rightarrow> pid_file \<Rightarrow> pid_file" where
  "write_named i text f =
     (case pf_named f of
        Some (j, data) \<Rightarrow> if j = i then f\<lparr>pf_named := Some (i, text @ drop (length text) data)\<rparr> else f
      | None \<Rightarrow> f)"

definition remove_named :: "pid_world \<Rightarrow> pid_file \<Rightarrow> pid_file" where
  "remove_named w f = (if pw_remove_err w then f else f\<lparr>pf_named := None\<rparr>)"

fun pid_step :: "pid_world \<Rightarrow> int \<Rightarrow> pid_pc \<times> pid_file \<Rightarrow> pid_pc \<times> pid_file" where
  "pid_step w pid (PidStart, f) =
     ((case (if pw_read_err w then None else pid_content f) of
         None \<Rightarrow> PidOpen
       | Some data \<Rightarrow>
           if length data > 0 then (case atoi (TrimSpace data) of Some existingPID \<Rightarrow> PidCheck existingPID | None \<Rightarrow> PidRemove)
           else PidOpen), f)"
| "pid_step w pid (PidCheck existingPID, f) =
     (if pw_answers w existingPID then PidRefused (AlreadyRunning existingPID) else PidRemove, f)"
| "pid_step w pid (PidRemove, f) = (PidOpen, remove_named w f)"
| "pid_step w pid (PidOpen, f) =
     (case pw_open_err w of
        Some e \<Rightarrow> (PidRefused (WritePid e), f)
      | None \<Rightarrow>
          (case pf_named f of
             Some (i, data) \<Rightarrow> (PidWrite i, f\<lparr>pf_named := Some (i, [])\<rparr>)
           | None \<Rightarrow> (PidWrite (pf_next f), \<lparr>pf_named = Some (pf_next f, []), pf_next = pf_next f + 1\<rparr>)))"
| "pid_step w pid (PidWrite i, f) =
     (case pw_write_err w of
        Some (n, e) \<Rightarrow> (PidRefused (WritePid e), write_named i (take n (itoa pid)) f)
      | None \<Rightarrow> (PidHeld, write_named i (itoa pid) f))"
| "pid_step w pid (c, f) = (c, f)"

text \<open>A process that no other disturbs: five steps end it.\<close>

definition pid_alone :: "pid_world \<Rightarrow> int \<Rightarrow> pid_file \<Rightarrow> pid_pc \<times> pid_file" where
  "pid_alone w pid f = (pid_step w pid ^^ 5) (PidStart, f)"

definition acquirePIDFile :: "pid_world \<Rightarrow> int \<Rightarrow> string \<Rightarrow> files \<Rightarrow> pid_error option \<times> files" where
  "acquirePIDFile w pid path fs =
     (case pid_alone w pid \<lparr>pf_named = map_option (Pair 0) (gm_get fs path), pf_next = 1\<rparr> of
        (c, f) \<Rightarrow>
          (case c of PidRefused e \<Rightarrow> Some e | _ \<Rightarrow> None,
           case pid_content f of None \<Rightarrow> gm_del path fs | Some data \<Rightarrow> gm_put path data fs))"

datatype log_level = LevelDebug | LevelInfo | LevelWarn | LevelError

definition initLogger :: "string \<Rightarrow> log_level" where
  "initLogger level =
     (if level = ''debug'' then LevelDebug else if level = ''warn'' then LevelWarn
      else if level = ''error'' then LevelError else LevelInfo)"

text \<open>The levels in the order of their \<open>slog\<close> numbers; the handler drops what is below its level.\<close>

primrec slog_number :: "log_level \<Rightarrow> int" where
  "slog_number LevelDebug = -4"
| "slog_number LevelInfo = 0"
| "slog_number LevelWarn = 4"
| "slog_number LevelError = 8"

instantiation log_level :: linorder
begin

definition less_eq_log_level :: "log_level \<Rightarrow> log_level \<Rightarrow> bool" where
  "less_eq_log_level a b \<longleftrightarrow> slog_number a \<le> slog_number b"

definition less_log_level :: "log_level \<Rightarrow> log_level \<Rightarrow> bool" where
  "less_log_level a b \<longleftrightarrow> slog_number a < slog_number b"

instance
proof
  show "a = b" if "a \<le> b" "b \<le> a" for a b :: log_level
    using that by (cases a; cases b) (simp_all add: less_eq_log_level_def)
qed (auto simp: less_eq_log_level_def less_log_level_def)

end

lemma errors_always_logged: "initLogger level \<le> LevelError"
  by (simp add: initLogger_def less_eq_log_level_def)

lemma warnings_dropped_iff: "\<not> initLogger level \<le> LevelWarn \<longleftrightarrow> level = ''error''"
  by (auto simp: initLogger_def less_eq_log_level_def)

section \<open>The main function\<close>

record options =
  op_mode :: string
  op_port :: int
  op_config :: string
  op_globalConfig :: string
  op_gatewayID :: string
  op_logLevel :: string
  op_pidFile :: string

text \<open>What the process is outside its own code: files, other processes, libraries, the clock.\<close>

record main_world = cli_world +
  mw_env :: "string \<Rightarrow> string"
  mw_global_yaml :: "string \<Rightarrow> global_config \<Rightarrow> string + global_config"
  mw_pid_file :: pid_world
  mw_pid :: int
  mw_http_get :: "string \<Rightarrow> string option \<Rightarrow> string + device_config list"
  mw_driver :: driver
  mw_state :: "string \<Rightarrow> string + device_config list"
  mw_now :: go_time

text \<open>How \<open>main\<close> ends, or what it has brought up when the servers take over.\<close>

datatype main_end =
    CliEnd cli_end
  | ConfigError config_error
  | UnknownMode string
  | PidError pid_error
  | StartError string
  | SidecarUp log_level "side outcome"
  | DaemonUp log_level daemon_server

definition start_daemon :: "main_world \<Rightarrow> options \<Rightarrow> global_config \<Rightarrow> log_level \<Rightarrow> files \<Rightarrow> main_end \<times> files" where
  "start_daemon mw op gcfg level fs =
     (let ds = NewDaemonServer (op_gatewayID op) (op_port op) (op_config op) (Some gcfg) in
      case daemon_boot (read_in fs) (cw_yaml mw) (mw_driver mw) (mw_state mw) fs (mw_now mw) ds of
        Inl e \<Rightarrow> (StartError e, fs)
      | Inr ds \<Rightarrow> (DaemonUp level ds, fs))"

definition go_main :: "main_world \<Rightarrow> string list \<Rightarrow> options \<Rightarrow> files \<Rightarrow> main_end \<times> files" where
  "go_main mw args op fs =
     (case runCLI (cli_world.truncate mw) args fs of
        (CommandDone, fs) \<Rightarrow> (CliEnd CommandDone, fs)
      | (ExitCode n, fs) \<Rightarrow> (CliEnd (ExitCode n), fs)
      | (NotACommand, fs) \<Rightarrow>
          (case Load (read_in fs) (mw_global_yaml mw) (mw_env mw) (op_globalConfig op) of
             Inl e \<Rightarrow> (ConfigError e, fs)
           | Inr gcfg \<Rightarrow>
               let level = initLogger (if op_logLevel op \<noteq> [] then op_logLevel op else gc_log_level gcfg) in
               if op_mode op = ''sidecar'' then (SidecarUp level (main_sidecar (mw_http_get mw) (mw_now mw) gcfg), fs)
               else if op_mode op = ''daemon'' then
                 (if op_pidFile op \<noteq> [] then
                    (case acquirePIDFile (mw_pid_file mw) (mw_pid mw) (op_pidFile op) fs of
                       (Some e, fs) \<Rightarrow> (PidError e, fs)
                     | (None, fs) \<Rightarrow> start_daemon mw op gcfg level fs)
                  else start_daemon mw op gcfg level fs)
               else (UnknownMode (op_mode op), fs)))"

section \<open>Init never overwrites\<close>

lemma init_files_keeps:
  "init_files write_err dir todo fs = (err, out, fs') \<Longrightarrow> gm_get fs p = Some t \<Longrightarrow> gm_get fs' p = Some t"
  by (induction todo arbitrary: fs out) (fastforce simp: Let_def split: if_splits option.splits prod.splits)+

lemma init_files_writes:
  "init_files write_err dir todo fs = (None, out, fs') \<Longrightarrow> (name, content) \<in> set todo \<Longrightarrow>
   gm_get fs' (path_join dir name) \<noteq> None"
proof (induction todo arbitrary: fs out)
  case (Cons nc rest)
  obtain n c where nc: "nc = (n, c)" by fastforce
  show ?case
  proof (cases "(name, content) \<in> set rest")
    case True
    with Cons nc show ?thesis by (auto simp: Let_def split: if_splits option.splits prod.splits)
  next
    case False
    then have eq: "n = name" "c = content" using Cons.prems(2) nc by auto
    from Cons.prems(1) nc obtain fs1 o1 where "init_files write_err dir rest fs1 = (None, o1, fs')"
      and "gm_get fs1 (path_join dir name) \<noteq> None"
      by (auto simp: Let_def eq split: if_splits option.splits prod.splits)
    then show ?thesis using init_files_keeps by fastforce
  qed
qed simp

lemma init_files_present:
  "\<forall>(name, content) \<in> set todo. gm_get fs (path_join dir name) \<noteq> None \<Longrightarrow>
   \<exists>out. init_files write_err dir todo fs = (None, out, fs)"
  by (induction todo) (auto simp: Let_def split: prod.split)

text \<open>\<open>devagent init\<close> never overwrites: whatever it is pointed at and in whatever order
  it visits its two templates, every file that was there is there unchanged, even if it ends in an
  error; if it ends without one, both files exist, and running it again changes nothing.\<close>

theorem init_never_overwrites:
  assumes "cmdInit mkdir_err write_err device_first dir fs = (err, out, fs')"
  shows "(\<forall>p t. gm_get fs p = Some t \<longrightarrow> gm_get fs' p = Some t)
    \<and> (err = None \<longrightarrow> gm_get fs' (path_join dir ''devagent.yaml'') \<noteq> None \<and> gm_get fs' (path_join dir ''device.yaml'') \<noteq> None
        \<and> (\<exists>out'. cmdInit mkdir_err write_err2 device_first2 dir fs' = (None, out', fs')))"
proof (cases mkdir_err)
  case (Some e)
  with assms show ?thesis by (auto simp: cmdInit_def)
next
  case None
  let ?order = "\<lambda>b. if b then rev template_files else template_files"
  from assms None have i: "init_files write_err dir (?order device_first) fs = (err, out, fs')" by (simp add: cmdInit_def)
  have both: "gm_get fs' (path_join dir name) \<noteq> None" if "err = None" "(name, content) \<in> set template_files" for name content
    using init_files_writes [of write_err dir "?order device_first" fs out fs' name content] i that by (auto split: if_splits)
  then have "err = None \<Longrightarrow> \<exists>out'. init_files write_err2 dir (?order device_first2) fs' = (None, out', fs')"
    by (intro init_files_present) (auto split: if_splits)
  with both init_files_keeps [OF i] None show ?thesis by (auto simp: cmdInit_def template_files_def)
qed

theorem init_never_overwrites_witness:
  "\<exists>err out fs'. cmdInit None (\<lambda>_. None) True ''lab'' [(''lab/device.yaml'', ''mine'')] = (err, out, fs')
     \<and> gm_get fs' ''lab/device.yaml'' = Some ''mine''"
proof -
  obtain err out fs' where "cmdInit None (\<lambda>_. None) True ''lab'' [(''lab/device.yaml'', ''mine'')] = (err, out, fs')"
    by (metis prod.exhaust)
  with init_never_overwrites [OF this, THEN conjunct1] show ?thesis by (simp add: gm_get_def)
qed

section \<open>One instance per PID file\<close>

lemma drop_spaces_none:
  "list_all (\<lambda>sp. sp \<noteq> [] \<and> \<not> num_char (hd sp)) sps \<Longrightarrow> list_all num_char s \<Longrightarrow> drop_spaces sps n s = s"
proof (cases s)
  case (Cons c t)
  assume a: "list_all (\<lambda>sp. sp \<noteq> [] \<and> \<not> num_char (hd sp)) sps" "list_all num_char s"
  then have "find (\<lambda>sp. prefix sp s) sps = None"
    using Cons by (auto simp: find_None_iff list_all_iff prefix_Cons)
  then show ?thesis by (cases n) simp_all
next
  case Nil
  assume "list_all (\<lambda>sp. sp \<noteq> [] \<and> \<not> num_char (hd sp)) sps"
  then have "find (\<lambda>sp. prefix sp s) sps = None" using Nil by (auto simp: find_None_iff list_all_iff)
  then show ?thesis using Nil by (cases n) simp_all
qed

lemma space_heads:
  "list_all (\<lambda>sp. sp \<noteq> [] \<and> \<not> num_char (hd sp)) space_seqs"
  "list_all (\<lambda>sp. sp \<noteq> [] \<and> \<not> num_char (hd sp)) (map rev space_seqs)"
  by code_simp+

lemma TrimSpace_itoa: "TrimSpace (itoa i) = itoa i"
proof -
  have n: "list_all num_char (itoa i)" "list_all num_char (rev (itoa i))" using itoa_number [of i] by simp_all
  show ?thesis by (simp add: TrimSpace_def Let_def drop_spaces_none [OF space_heads(1) n(1)] drop_spaces_none [OF space_heads(2) n(2)])
qed

lemma atoi_itoa: "- (2 ^ 63) \<le> i \<Longrightarrow> i < 2 ^ 63 \<Longrightarrow> atoi (itoa i) = Some i"
proof -
  assume r: "- (2 ^ 63) \<le> i" "i < 2 ^ 63"
  obtain c s where cs: "nat_dec (nat i) = c # s" "digit c" using nat_dec_head by blast
  then have "c \<noteq> CHR ''-''" "c \<noteq> CHR ''+''" by (auto simp: digit_def code_def)
  then show ?thesis using r cs digits_val_nat_dec [of "nat i"] digits_val_nat_dec [of "nat (- i)"]
    by (auto simp: atoi_def itoa_def Let_def)
qed

lemma TrimSpace_pid: "TrimSpace (itoa i) \<noteq> [] \<and> length (itoa i) > 0"
  by (simp add: TrimSpace_itoa) (simp add: itoa_def)

lemma five_steps: "(f ^^ 5) x = f (f (f (f (f x))))"
  by (simp add: eval_nat_numeral)

text \<open>Undisturbed, the function ends: the file is held or refused.\<close>

lemma pid_alone_ends: "\<exists>f'. pid_alone w pid f = (PidHeld, f') \<or> (\<exists>e. pid_alone w pid f = (PidRefused e, f'))"
  by (cases "pw_open_err w"; cases "pw_write_err w"; cases "pf_named f")
    (auto simp: pid_alone_def five_steps pid_content_def remove_named_def write_named_def split: option.splits)

lemma pid_alone_holds: "pid_alone w pid f = (PidHeld, f') \<Longrightarrow> pid_content f' = Some (itoa pid)"
  by (cases "pw_open_err w"; cases "pw_write_err w"; cases "pf_named f")
    (auto simp: pid_alone_def five_steps pid_content_def remove_named_def write_named_def split: option.splits if_splits)

lemma pid_read: "- (2 ^ 63) \<le> p \<Longrightarrow> p < 2 ^ 63 \<Longrightarrow> pid_content f = Some (itoa p) \<Longrightarrow> \<not> pw_read_err w
    \<Longrightarrow> pid_step w q (PidStart, f) = (PidCheck p, f)"
  using TrimSpace_pid [of p] by (simp add: TrimSpace_itoa atoi_itoa)

lemma held_refuses:
  assumes "- (2 ^ 63) \<le> p" "p < 2 ^ 63" and "pid_content f = Some (itoa p)" and "\<not> pw_read_err w" and "pw_answers w p"
  shows "pid_alone w q f = (PidRefused (AlreadyRunning p), f)"
  using pid_read [OF assms(1-4), of q] assms(5) by (simp add: pid_alone_def five_steps del: pid_step.simps(1))

lemma dead_taken_over:
  assumes "- (2 ^ 63) \<le> p" "p < 2 ^ 63" and "pid_content f = Some (itoa p)" and "\<not> pw_read_err w" and "\<not> pw_answers w p"
    and "pw_open_err w = None" and "pw_write_err w = None"
  shows "\<exists>f'. pid_alone w q f = (PidHeld, f') \<and> pid_content f' = Some (itoa q)"
proof -
  have "\<exists>f'. pid_alone w q f = (PidHeld, f')"
    using pid_read [OF assms(1-4), of q] assms(5-7) by (auto simp: pid_alone_def five_steps split: option.split simp del: pid_step.simps(1))
  then show ?thesis using pid_alone_holds by blast
qed

text \<open>Processes that share the path, by their numbers: one of them steps, returns from \<open>main\<close> and
  removes the file (whatever is in it), dies, or is started.\<close>

type_synonym pid_procs = "(int \<Rightarrow> pid_pc) \<times> pid_file"

inductive pid_moves :: "pid_world \<Rightarrow> int \<Rightarrow> pid_procs \<Rightarrow> pid_procs \<Rightarrow> bool" for w q where
  steps: "pid_step w q (pc q, f) = (c, f') \<Longrightarrow> pid_moves w q (pc, f) (pc(q := c), f')"
| returns: "pc q = PidHeld \<Longrightarrow> pid_moves w q (pc, f) (pc(q := PidGone), remove_named w f)"
| dies: "pid_moves w q (pc, f) (pc(q := PidGone), f)"
| starts: "pc q = PidGone \<Longrightarrow> pid_moves w q (pc, f) (pc(q := PidStart), f)"

inductive_cases pid_movesE: "pid_moves w q (pc, f) s'"

text \<open>The moves of the others while process \<open>p\<close> goes on running: it takes signals, and its file can
  be read.\<close>

inductive pid_others :: "int \<Rightarrow> pid_procs \<Rightarrow> pid_procs \<Rightarrow> bool" for p where
  nobody: "pid_others p s s"
| other: "pid_others p s s1 \<Longrightarrow> pid_moves w q s1 s2 \<Longrightarrow> q \<noteq> p \<Longrightarrow> pw_answers w p \<Longrightarrow> \<not> pw_read_err w \<Longrightarrow> pid_others p s s2"

text \<open>A process that is not at the file: it has not read it, or it has given up.\<close>

fun pid_away :: "pid_pc \<Rightarrow> bool" where
  "pid_away PidStart \<longleftrightarrow> True"
| "pid_away PidGone \<longleftrightarrow> True"
| "pid_away (PidRefused e) \<longleftrightarrow> True"
| "pid_away c \<longleftrightarrow> False"

definition pid_safe :: "int \<Rightarrow> pid_procs \<Rightarrow> bool" where
  "pid_safe p s \<longleftrightarrow> fst s p = PidHeld \<and> pid_content (snd s) = Some (itoa p)
     \<and> (\<forall>q. q \<noteq> p \<longrightarrow> pid_away (fst s q) \<or> fst s q = PidCheck p)"

lemma pid_safe_moves:
  assumes "- (2 ^ 63) \<le> p" "p < 2 ^ 63" and "pid_moves w q s s'" and "q \<noteq> p" and "pw_answers w p" and "\<not> pw_read_err w"
    and "pid_safe p s"
  shows "pid_safe p s' \<and> snd s' = snd s"
proof -
  obtain pc f where s: "s = (pc, f)" by fastforce
  have content: "pid_content f = Some (itoa p)" and at: "pid_away (pc q) \<or> pc q = PidCheck p"
    using assms(4,7) by (auto simp: pid_safe_def s)
  note start = pid_read [OF assms(1,2) content assms(6), of q]
  have step: "f' = f \<and> (pid_away c \<or> c = PidCheck p)" if "pid_step w q (pc q, f) = (c, f')" for c f'
    using at that start assms(5) by (cases "pc q") (auto simp del: pid_step.simps(1) dest: sym [of _ "pc q"])
  have "pid_moves w q (pc, f) s'" using assms(3) s by simp
  then consider c f' where "s' = (pc(q := c), f')" "pid_step w q (pc q, f) = (c, f')"
    | "pc q = PidHeld" | c where "s' = (pc(q := c), f)" "pid_away c"
    by (rule pid_movesE) auto
  then show ?thesis
  proof cases
    case 1
    then show ?thesis using step assms(4,7) by (auto simp: pid_safe_def s)
  next
    case 2
    then show ?thesis using at by simp
  next
    case 3
    then show ?thesis using assms(4,7) by (auto simp: pid_safe_def s)
  qed
qed

lemma pid_safe_others:
  assumes "- (2 ^ 63) \<le> p" "p < 2 ^ 63" and "pid_others p s s'" and "pid_safe p s"
  shows "pid_safe p s' \<and> snd s' = snd s"
  using assms(3,4) pid_safe_moves [OF assms(1,2)] by (induction rule: pid_others.induct) fastforce+

text \<open>C40: a PID file lets one instance live. Suppose a process has gone through \<open>acquirePIDFile\<close>
  undisturbed and holds the file, no other process being at it: none has read it and not yet given
  up. Then however the reads, checks, removals and writes of any number of other processes
  interleave afterwards, with processes dying, returning and starting at will, while the holder
  takes signals and its file can be read: the file is unchanged, nobody else comes to hold it or to
  write it, and a starter is refused with the holder's number. A starter that finds the holder dead
  takes the file over. Process numbers are those of 64 bits.\<close>

theorem pid_file_excludes:
  assumes "pid_alone w p f = (PidHeld, f1)" and "\<forall>q. q \<noteq> p \<longrightarrow> pid_away (pc q)"
    and "pid_others p (pc(p := PidHeld), f1) (pc', f')" and "- (2 ^ 63) \<le> p" and "p < 2 ^ 63"
  shows "pid_content f' = Some (itoa p) \<and> f' = f1
    \<and> (\<forall>q. q \<noteq> p \<longrightarrow> pid_away (pc' q) \<or> pc' q = PidCheck p)
    \<and> (\<forall>w q. \<not> pw_read_err w \<and> pw_answers w p \<longrightarrow> pid_alone w q f' = (PidRefused (AlreadyRunning p), f'))
    \<and> (\<forall>w q. \<not> pw_read_err w \<and> \<not> pw_answers w p \<and> pw_open_err w = None \<and> pw_write_err w = None
        \<longrightarrow> (\<exists>f2. pid_alone w q f' = (PidHeld, f2) \<and> pid_content f2 = Some (itoa q)))"
proof -
  have "pid_safe p (pc(p := PidHeld), f1)" using assms(2) pid_alone_holds [OF assms(1)] by (simp add: pid_safe_def)
  note kept = pid_safe_others [OF assms(4,5,3) this]
  have safe: "pid_safe p (pc', f')" using kept ..
  have same: "f' = f1" using kept by simp
  have content: "pid_content f' = Some (itoa p)" and others: "\<forall>q. q \<noteq> p \<longrightarrow> pid_away (pc' q) \<or> pc' q = PidCheck p"
    using safe by (simp_all add: pid_safe_def)
  show ?thesis using same others content held_refuses [OF assms(4,5) content] dead_taken_over [OF assms(4,5) content] by blast
qed

text \<open>An operating system without errors, where the given processes run.\<close>

definition calm_os :: "int set \<Rightarrow> pid_world" where
  "calm_os alive = \<lparr>pw_read_err = False, pw_answers = \<lambda>p. p \<in> alive, pw_remove_err = False, pw_open_err = None, pw_write_err = None\<rparr>"

definition no_pid_file :: pid_file where
  "no_pid_file = \<lparr>pf_named = None, pf_next = 0\<rparr>"

theorem pid_file_excludes_witness:
  "\<exists>f1. pid_alone (calm_os {4711}) 4711 no_pid_file = (PidHeld, f1)
     \<and> pid_others 4711 (((\<lambda>_. PidStart)(4711 := PidHeld)), f1) (((\<lambda>_. PidStart)(4711 := PidHeld, 4712 := PidCheck 4711)), f1)
     \<and> pid_alone (calm_os {4711}) 4713 f1 = (PidRefused (AlreadyRunning 4711), f1)"
proof -
  let ?f1 = "\<lparr>pf_named = Some (0, itoa 4711), pf_next = 1\<rparr>"
  have held: "pid_alone (calm_os {4711}) 4711 no_pid_file = (PidHeld, ?f1)"
    by (simp add: pid_alone_def five_steps calm_os_def no_pid_file_def pid_content_def write_named_def)
  have away: "\<forall>q. q \<noteq> 4711 \<longrightarrow> pid_away ((\<lambda>_. PidStart) q)" by simp
  have w: "pw_answers (calm_os {4711}) 4711" "\<not> pw_read_err (calm_os {4711})" by (simp_all add: calm_os_def)
  have "pid_step (calm_os {4711}) 4712 (PidStart, ?f1) = (PidCheck 4711, ?f1)"
    by (rule pid_read) (simp_all add: pid_content_def w)
  then have "pid_moves (calm_os {4711}) 4712 (((\<lambda>_. PidStart)(4711 := PidHeld)), ?f1)
      (((\<lambda>_. PidStart)(4711 := PidHeld, 4712 := PidCheck 4711)), ?f1)"
    by (intro pid_moves.steps) simp
  then have run: "pid_others 4711 (((\<lambda>_. PidStart)(4711 := PidHeld)), ?f1) (((\<lambda>_. PidStart)(4711 := PidHeld, 4712 := PidCheck 4711)), ?f1)"
    by (rule pid_others.other [OF pid_others.nobody]) (simp_all add: w)
  from pid_file_excludes [OF held away run] held run w show ?thesis by simp
qed

text \<open>The processes that step, in their order.\<close>

inductive pid_schedule :: "pid_world \<Rightarrow> int list \<Rightarrow> pid_procs \<Rightarrow> pid_procs \<Rightarrow> bool" for w where
  none: "pid_schedule w [] s s"
| next_step: "pid_step w q (pc q, f) = (c, f') \<Longrightarrow> pid_schedule w qs (pc(q := c), f') s \<Longrightarrow> pid_schedule w (q # qs) (pc, f) s"

lemma schedule_moves: "pid_schedule w qs s s' \<Longrightarrow> (\<lambda>a b. \<exists>q. pid_moves w q a b)\<^sup>*\<^sup>* s s'"
proof (induction rule: pid_schedule.induct)
  case (next_step q pc f c f' qs s)
  have "pid_moves w q (pc, f) (pc(q := c), f')" by (rule pid_moves.steps) (rule next_step.hyps(1))
  then have "\<exists>n. pid_moves w n (pc, f) (pc(q := c), f')" by blast
  with next_step.IH show ?case by (simp add: converse_rtranclp_into_rtranclp)
qed simp

text \<open>Nothing makes the read and the write one action: of two processes that both read before either
  writes, each comes to hold the file.\<close>

theorem two_starters_both_hold:
  assumes "p \<noteq> q" and "pf_named f = None"
  shows "\<exists>pc' f'. (\<lambda>a b. \<exists>n. pid_moves (calm_os {p, q}) n a b)\<^sup>*\<^sup>* ((\<lambda>_. PidStart), f) (pc', f')
    \<and> pc' p = PidHeld \<and> pc' q = PidHeld \<and> pid_content f' = Some (itoa q)"
proof -
  let ?i = "pf_next f" and ?w = "calm_os {p, q}"
  let ?at = "\<lambda>c d. (((\<lambda>_. PidStart)(p := c, q := d)) :: int \<Rightarrow> pid_pc)"
  let ?f = "\<lambda>t. \<lparr>pf_named = Some (?i, t), pf_next = ?i + 1\<rparr>"
  have mv: "pid_schedule w (p # qs) (?at c d, g) s" if "pid_step w p (c, g) = (c', g')" "pid_schedule w qs (?at c' d, g') s" for w qs g g' c c' d s
    using pid_schedule.next_step [where q = p and pc = "?at c d" and c = c' and f = g and f' = g' and w = w and qs = qs and s = s] that assms(1)
    by (simp add: fun_upd_twist)
  have mv': "pid_schedule w (q # qs) (?at c d, g) s" if "pid_step w q (d, g) = (d', g')" "pid_schedule w qs (?at c d', g') s" for w qs g g' c d d' s
    using pid_schedule.next_step [where q = q and pc = "?at c d" and c = d' and f = g and f' = g' and w = w and qs = qs and s = s] that
    by simp
  have eval: "pid_step ?w n (PidStart, f) = (PidOpen, f)" "pid_step ?w n (PidOpen, f) = (PidWrite ?i, ?f [])"
    "pid_step ?w n (PidOpen, ?f t) = (PidWrite ?i, ?f [])" "pid_step ?w n (PidWrite ?i, ?f []) = (PidHeld, ?f (itoa n))" for n t
    using assms(2) by (simp_all add: calm_os_def pid_content_def write_named_def)
  have "pid_schedule ?w [p, q, p, p, q, q] (?at PidStart PidStart, f) (?at PidHeld PidHeld, ?f (itoa q))"
    by (intro mv [OF eval(1)] mv' [OF eval(1)] mv [OF eval(2)] mv [OF eval(4)] mv' [OF eval(3)] mv' [OF eval(4)] pid_schedule.none)
  from schedule_moves [OF this] have "(\<lambda>a b. \<exists>n. pid_moves ?w n a b)\<^sup>*\<^sup>* ((\<lambda>_. PidStart), f) (?at PidHeld PidHeld, ?f (itoa q))"
    by (simp add: fun_upd_idem)
  moreover have "?at PidHeld PidHeld p = PidHeld" "?at PidHeld PidHeld q = PidHeld" using assms(1) by simp_all
  ultimately show ?thesis using pid_content_def by fastforce
qed

section \<open>What validate promises\<close>

lemma validate_caps_none:
  "validate_caps cs = None \<longleftrightarrow> (\<forall>c \<in> set cs. cap_name c \<noteq> []
     \<and> (im_native (cap_implementation c) \<noteq> [] \<or> im_proxy (cap_implementation c) \<noteq> []))"
  by (induction cs) auto

text \<open>\<open>devagent validate\<close> answers OK exactly for a file that loads, names its device,
  has at least one capability, and whose capabilities are all named and implemented; and the line
  it prints is true.\<close>

theorem validate_exact:
  "cmdValidate read_file yaml path = Inr (d, n) \<longleftrightarrow>
     (\<exists>cfg. LoadDeviceConfig read_file yaml path = Inr cfg \<and> d = dev_id (dc_device cfg) \<and> d \<noteq> []
        \<and> n = length (dc_capabilities cfg) \<and> n \<noteq> 0
        \<and> (\<forall>c \<in> set (dc_capabilities cfg). cap_name c \<noteq> []
             \<and> (im_native (cap_implementation c) \<noteq> [] \<or> im_proxy (cap_implementation c) \<noteq> [])))"
  unfolding validate_caps_none [symmetric] by (auto simp: cmdValidate_def split: sum.split option.split)

theorem validate_exact_witness:
  "cmdValidate (\<lambda>_. Inr []) (\<lambda>_. Inr guarded_config) ''mock.yaml'' = Inr (''mock'', 1)
   \<and> cap_name echo_capability \<noteq> []"
proof -
  have "cap_name echo_capability = ''run''" "im_native (cap_implementation echo_capability) = ''shell''"
    by (simp_all add: echo_capability_def plain_capability_def)
  then show ?thesis
    using validate_exact [of "\<lambda>_. Inr []" "\<lambda>_. Inr guarded_config" "''mock.yaml''" "''mock''" 1]
    by (simp add: LoadDeviceConfig_def guarded_config_def)
qed

text \<open>It does not look at what the daemon needs: a capability with an unknown native handler
  passes, and every call of it fails.\<close>

theorem validated_but_unusable:
  assumes "im_native (cap_implementation c) \<notin> {[], ''shell''}" and "ds_nativeHandlers ds = NewNativeHandlerRegistry"
  shows "(cap_name c \<noteq> [] \<longrightarrow> validate_caps [c] = None)
    \<and> invokeCore w d c ps ds = Some (Fail (NativeError (''native handler not found: '' @ im_native (cap_implementation c))), None, ds)"
  using assms by (auto simp: invokeCore_def ExecuteNative_def NewNativeHandlerRegistry_def gm_get_def)

end
