(* ===== verification/Spec2Isabelle.thy ===== *)
theory Spec2Isabelle
  imports DaemonRuns SidecarCalls IntegrationRun Link Cli
begin

text \<open>
  A verification development of devagent, a bridge that lets an AI client call devices on the
  local network.

  \<^bold>\<open>The program.\<close> One binary (\<open>cmd/devagent\<close>) runs in two modes. The \<^emph>\<open>sidecar\<close>
  (\<open>internal/sidecar\<close>) is the MCP server of the client: it discovers gateways over mDNS, keeps
  which device is behind which gateway, compiles every capability of a device into a tool, and
  answers a tool call at once with a job while a goroutine forwards the call over HTTP. The
  \<^emph>\<open>daemon\<close> (\<open>internal/daemon\<close>) is the gateway: it checks a capability token, then runs
  a shell command or speaks to a microcontroller over a serial line, with the uRPC or the DCP
  framing (\<open>internal/protocol\<close>). The \<^emph>\<open>agent\<close> (\<open>internal/lite\<close>) is the firmware at
  the other end of that line.

  \<^bold>\<open>The theories\<close>, in the order of their imports:

  \<^item> \<open>Prelude\<close>: bytes, words, time, the numerals of \<open>fmt\<close>. \<open>Stores\<close>: Go maps as
    association lists, and the interfaces as locales: \<open>keyed_store\<close> (insert, lookup, delete), \<open>expiring_store\<close>
    (with a clean-up), a gate that answers requests and is tidied in between, and a frame codec. The
    components interpret them on their own operations.
  \<^item> \<open>Urpc\<close> (\<open>protocol/urpc.go\<close>), \<open>Crypto\<close> (the parts of the standard library used:
    SHA-256, HMAC, Base64), \<open>Dcp\<close> (\<open>protocol/dcp.go\<close>), \<open>Json\<close> (\<open>encoding/json\<close> as
    a lexer and a stack machine), \<open>Auth\<close> (\<open>auth/token.go\<close>), \<open>Message\<close>
    (\<open>protocol/message.go\<close>). Lemmas: every frame, token and message reads back as what was
    written; which byte strings are accepted; what single damaged bytes lead to.
  \<^item> \<open>Capability\<close> (\<open>model/capability.go\<close>, \<open>job.go\<close>), \<open>RouteTable\<close>
    (\<open>model/device.go\<close>; the mutex is a field, so that a call made while its own goroutine
    holds the lock is \<open>Blocked\<close>), \<open>Config\<close> (\<open>config/config.go\<close>).
  \<^item> \<open>RateLimiter\<close>, \<open>Registry\<close>, \<open>Serial\<close>, \<open>UrpcBridge\<close>, \<open>DcpBridge\<close>, \<open>Hal\<close>,
    \<open>Native\<close>, and with \<open>Format\<close> the template of \<open>server.go\<close>: one file of
    \<open>internal/daemon\<close> each. \<open>Daemon\<close> is \<open>server.go\<close> and \<open>status.go\<close>: configuration
    loading, \<open>invokeCore\<close>, the HTTP and MCP handlers, one turn of each background loop.
    \<open>DaemonRuns\<close> is the daemon as a step relation with its invariant.
  \<^item> \<open>Dedup\<close>, \<open>Progress\<close> (\<open>sidecar/dedup.go\<close>, \<open>progress.go\<close>), \<open>McpTool\<close>
    (\<open>mcptool/tool.go\<close>), \<open>Sidecar\<close> (\<open>router.go\<close>, \<open>server.go\<close>, \<open>tool_compiler.go\<close>),
    \<open>Wiring\<close> (the hooks of \<open>main.go\<close>), \<open>Hooks\<close> (an interface: what the two hooks keep,
    discovery, static gateways, callback and health tick keep), \<open>SidecarRuns\<close> (the sidecar as a step relation: calls,
    landings, clean-ups, discoveries, health ticks, in any order), \<open>SidecarCalls\<close>, \<open>Discovery\<close>
    (a discovered device can be called; what a health tick leaves of the gateways), \<open>SystemTools\<close>
    (the names in the MCP server: which handler a call reaches).
  \<^item> \<open>Firmware\<close> (\<open>lite/main/urpc_agent.c\<close>).
  \<^item> The compositions: \<open>Link\<close> (daemon and firmware over the serial line), \<open>EndToEnd\<close> (a call
    from the sidecar's goroutine through the daemon back into the job; what the diagnosis of a device
    reports of the daemon behind it), \<open>Announce\<close> (what a
    daemon publishes over mDNS and serves, and what the sidecar makes of it), \<open>Cli\<close>
    (\<open>cmd/devagent\<close>: subcommands, the PID file as the interleaved steps of processes
    that share it, what \<open>main\<close> starts).
  \<^item> \<open>IntegrationTest\<close> (the script of \<open>cmd/integration_test\<close>, as checks on the model) and
    \<open>IntegrationRun\<close> (it passes, and what the sidecar's tools answer in it).

  \<^bold>\<open>How state and effects are modelled.\<close> A struct is a record, an operation a function that
  returns the changed record. The clock is an argument (nanoseconds, as an \<open>int\<close>); where an
  operation reads it more than once and the difference shows, there is one argument per reading.
  Nothing makes two calls read different times: a job id, which is a reading, may be given twice.
  Strings are byte sequences; the lemmas about JSON ask for valid UTF-8, the only texts it keeps.
  Bytes are \<open>8 word\<close>, intents \<open>16 word\<close>, the daemon's counter \<open>32 word\<close>. Errors are
  values; a Go panic is a value of its own (\<open>Panic\<close>); an operation that may wait for ever gives
  an option, with \<open>None\<close> for never returning, or an \<open>outcome\<close>, with \<open>Blocked\<close>; what an HTTP
  request waits for may come late or never (\<open>answer\<close>). A serial line is
  an infinite script of read events, a loop over it a \<open>partial_function\<close>; no fuel is used
  anywhere. Retries recurse on the number of attempts left. A map's iteration order is the order of
  its association list, and the lemmas that depend on it say so.

  \<^bold>\<open>What is an argument.\<close> Third-party libraries and the outside: CBOR and YAML (pairs of
  functions, with only \<open>what is written reads back\<close> assumed where it is needed), the serial
  driver and the line, the capacity \<open>append\<close> gives a slice, the files, the processes a shell
  command starts, the HTTP peer, mDNS answers, the number formats of floats. The MCP library is
  the sequence of calls made to it.

  \<^bold>\<open>What the lemmas show\<close>, beyond the components: nothing reaches a device or the shell over
  \<open>/invoke\<close> without token, capability and rate (\<open>Daemon\<close>); no reachable daemon dereferences a
  missing bridge (\<open>DaemonRuns\<close>); over a DCP bridge with a secret only signed calls go out and only
  signed replies become results (\<open>DcpBridge\<close>, \<open>Daemon\<close>); a job's status is true in every reachable sidecar
  as long as its id is not given out again (\<open>SidecarRuns\<close>); the answer of the daemon is the result of the job (\<open>EndToEnd\<close>); for a request that names pin and level the
  host is told OK exactly when the firmware drove the pin, and retransmission never drives it twice
  (\<open>Link\<close>, \<open>Firmware\<close>); the clean-ups of limiter and dedup window cannot be observed. Some lemmas
  show behaviour that the program cannot mean: the callback that waits for the lock its caller
  holds, the read loop that no timeout leaves, the command template the firmware refuses, the
  device that takes over a system tool, the job that a call in the same nanosecond overwrites, the
  two processes that both hold one PID file. The repository's integration test passes on the model,
  which is a test of the model as much as of the program.

  \<^bold>\<open>Not modelled.\<close> Interleavings inside one operation: each handler, tick and landing is one
  step, which is what the mutexes give, except that two readings of the clock or of the route table
  in one handler are not separated by other steps; the PID file, which no lock guards, is modelled
  step by step. The lock of the sidecar's configurations, which no
  operation takes twice. The SSE and stdio transports, TLS, the mDNS responder apart from
  the records it publishes, signal handling, the flag package, logging apart from the level. The
  depth limit of the JSON decoder. The texts of errors of the JSON and Base64 libraries, which the code
  wraps: each is one fixed text (\<open>token_error_text\<close>, \<open>forward_error_text\<close>). \<open>internal/version\<close> is one constant.
\<close>

end
